theory Spec2Isabelle
  imports Complex_Main
begin

section \<open>Data model of the download engine\<close>

text \<open>
  The engine of \<^verbatim>\<open>DownloadManager.ts\<close> is a single-threaded event loop: every method
  body runs to its end before the next event is handled, and what a method leaves for
  later (a promise continuation, a timer) runs as a later event. The embedding follows
  that shape. The objects the code shares by reference (chunk jobs, running downloads,
  workers) live in stores indexed by a reference number; a method is a function from the
  manager state to the manager state; calls to collaborators outside these sources
  (the assembler, the speed calculator, the HTTP request, the caller's callbacks) and
  the continuations left for later are appended to the \<open>effects\<close> list in call order.
  Numbers are JavaScript numbers holding byte counts; they are modelled as \<open>int\<close>.
\<close>

datatype RedownloadMode = Always | Never | Ask | Replace

datatype chunk_state = Init | Running | Paused | Finished

text \<open>The error objects the code creates. Only a system error carries a \<open>code\<close>.\<close>

datatype err =
    Error string
  | DataInvalid string
  | ProcessCanceled string
  | UserCanceled
  | HTTPError int string string
  | DownloadIsHTML string
  | AlreadyDownloaded string
  | SysError string
  | TypeError string

fun err_code :: "err \<Rightarrow> string option" where
  "err_code (SysError c) = Some c"
| "err_code _ = None"

text \<open>
  \<open>job.url\<close> is a producer of the current URL: the first of the download's resolved
  URLs, until a redirect rebinds it to a fixed address.
\<close>

datatype url_source = FirstResolved | Redirected string

text \<open>
  The response callbacks a job can carry: \<open>updateDownload\<close>, with or without the
  fallback to the file name taken from the URL, and \<open>updateDownloadSize\<close>. The error
  callback, where a job has one, is always \<open>cancelDownload\<close> of the job's download.
\<close>

datatype response_cb = UpdateDownload bool | UpdateDownloadSize

record job =
  url :: url_source
  confirmedOffset :: int
  confirmedSize :: int
  confirmedReceived :: int
  offset :: int
  state :: chunk_state
  received_j :: int
  size_j :: int
  workerId :: "nat option"
  errorCB :: bool
  responseCB :: "response_cb option"
  fileNameFromURL :: "string option"

text \<open>The persisted checkpoint \<open>IChunk\<close>.\<close>

record IChunk =
  chunk_url :: url_source
  chunk_size :: int
  chunk_offset :: int
  chunk_received :: int

text \<open>
  A response as the worker reads it: the status line and the headers it looks at, the
  numeric ones with the value \<open>parseInt\<close> gives, the Content-Range one with the
  total of its third group, the Content-Disposition one with the file name its parse
  yields. \<open>None\<close> is a header that is absent.
\<close>

record response =
  statusCode :: int
  statusMessage :: string
  location :: string
  contentType :: "string option"
  contentRange :: "int option"
  contentLength :: "int option"
  dispositionName :: "string option"

record download =
  id_d :: string
  error :: bool
  urls :: "string list"
  origName :: string
  tempName :: string
  finalName :: "string option"
  received_d :: int
  started :: "int option"
  size_d :: "int option"
  headers :: "response option"
  assemblerProm :: bool
  assemblerClosed :: bool
  redownload :: RedownloadMode
  chunks :: "nat list"
  chunkable :: "bool option"

record IDownloadResult =
  filePath :: string
  res_headers :: "response option"
  unfinishedChunks :: "IChunk list"
  hadErrors :: bool
  res_size :: "int option"

record worker =
  mJob :: nat
  mDownload :: nat
  mRequest :: "bool option"
  mResponse :: "bool option"
  mBuffers :: "string list"
  mDataHistory :: "nat list"
  mEnded :: bool
  mWriting :: bool
  mRestart :: bool
  mRedirected :: bool
  mRedirectsFollowed :: nat

text \<open>
  What a method leaves for a later turn of the event loop: the continuation of a promise
  or a timer. The continuations the properties below depend on have their own functions,
  run when the event arrives.
\<close>

datatype task =
    T_assignJob nat
  | T_startDownload nat string
  | T_redirect nat string
  | T_complete nat
  | T_written nat nat int
  | T_writeRejected nat err
  | T_writeDone nat
  | T_newWorker nat nat
  | T_finish nat string
  | T_rename nat string

datatype effect =
    FinishCB nat IDownloadResult
  | FailedCB nat err
  | RequestAbort nat
  | ResponsePause nat
  | RemoveErrorListeners nat
  | InitCounter nat
  | StopCounter "nat option"
  | AssemblerCreate nat
  | AssemblerClose nat
  | SetTotalSize nat int
  | AddChunk nat int string
  | HttpGet nat string int int
  | AddMeasure "nat option" nat
  | ProgressCB nat int "int option" string
  | Throw err
  | Later task

text \<open>
  The manager. \<open>mBusyWorkers\<close> holds the keys of the table of busy workers (the
  worker objects themselves are in \<open>workers\<close>), \<open>mQueue\<close> the references of the queued
  downloads; \<open>nextJob\<close> and \<open>nextDownload\<close> are the next free references of the two
  stores, used where the code creates an object.
\<close>

record manager =
  mDownloadPath :: string
  mMaxWorkers :: int
  mMaxChunks :: int
  mBusyWorkers :: "nat list"
  mSlowWorkers :: "nat option \<Rightarrow> nat option"
  mQueue :: "nat list"
  mNextId :: nat
  nextJob :: nat
  nextDownload :: nat
  jobs :: "nat \<Rightarrow> job"
  downloads :: "nat \<Rightarrow> download"
  workers :: "nat \<Rightarrow> worker"
  effects :: "effect list"

definition MAX_REDIRECT_FOLLOW :: nat where
  "MAX_REDIRECT_FOLLOW = 2"

definition BUFFER_SIZE :: nat where
  "BUFFER_SIZE = 256 * 1024"

definition BUFFER_SIZE_CAP :: nat where
  "BUFFER_SIZE_CAP = 4 * 1024 * 1024"

text \<open>The constructor's hard coded chunk size, 20 MiB.\<close>

definition MIN_CHUNK_SIZE :: int where
  "MIN_CHUNK_SIZE = 20 * 1024 * 1024"

subsection \<open>Store access\<close>

definition emit :: "effect list \<Rightarrow> manager \<Rightarrow> manager" where
  "emit es m = m\<lparr>effects := effects m @ es\<rparr>"

definition updJob :: "nat \<Rightarrow> (job \<Rightarrow> job) \<Rightarrow> manager \<Rightarrow> manager" where
  "updJob r f m = m\<lparr>jobs := (jobs m)(r := f (jobs m r))\<rparr>"

definition updDownload :: "nat \<Rightarrow> (download \<Rightarrow> download) \<Rightarrow> manager \<Rightarrow> manager" where
  "updDownload h f m = m\<lparr>downloads := (downloads m)(h := f (downloads m h))\<rparr>"

definition updWorker :: "nat \<Rightarrow> (worker \<Rightarrow> worker) \<Rightarrow> manager \<Rightarrow> manager" where
  "updWorker w f m = m\<lparr>workers := (workers m)(w := f (workers m w))\<rparr>"

text \<open>\<open>this.mBusyWorkers[id] !== undefined\<close>; a job never started has no id.\<close>

definition isBusy :: "manager \<Rightarrow> nat option \<Rightarrow> bool" where
  "isBusy m wid = (case wid of None \<Rightarrow> False | Some w \<Rightarrow> w \<in> set (mBusyWorkers m))"

subsection \<open>Scheduling: \<open>stopWorker\<close>, \<open>startWorker\<close>, \<open>tickQueue\<close>\<close>

definition stopWorker :: "nat option \<Rightarrow> manager \<Rightarrow> manager" where
  "stopWorker wid m =
     emit [StopCounter wid]
       (m\<lparr>mBusyWorkers := (case wid of None \<Rightarrow> mBusyWorkers m
                               | Some w \<Rightarrow> removeAll w (mBusyWorkers m)),
          mSlowWorkers := (mSlowWorkers m)(wid := None)\<rparr>)"

text \<open>
  \<open>startJob\<close>: the assembler is created on the first job of a download; the worker is
  constructed once the assembler promise is fulfilled (\<open>T_newWorker\<close>).
\<close>

definition startJob :: "nat \<Rightarrow> nat \<Rightarrow> manager \<Rightarrow> manager" where
  "startJob h r m =
     emit [Later (T_newWorker h r)]
       (if assemblerProm (downloads m h) then m
        else emit [AssemblerCreate h] (updDownload h (\<lambda>d. d\<lparr>assemblerProm := True\<rparr>) m))"

definition startWorker :: "nat \<Rightarrow> manager \<Rightarrow> manager" where
  "startWorker h m =
     (let wid = mNextId m;
          m1 = emit [InitCounter wid] (m\<lparr>mNextId := wid + 1\<rparr>)
      in case find (\<lambda>r. state (jobs m1 r) = Init) (chunks (downloads m1 h)) of
           None \<Rightarrow> emit [Throw (TypeError ''job is undefined'')] m1
         | Some r \<Rightarrow>
             startJob h r (updJob r (\<lambda>j. j\<lparr>state := Running, workerId := Some wid\<rparr>) m1))"

definition countIf :: "'a list \<Rightarrow> ('a \<Rightarrow> bool) \<Rightarrow> nat" where
  "countIf xs p = length (filter p xs)"

text \<open>The inner loop of \<open>tickQueue\<close>, on the number of chunks not yet started.\<close>

fun startChunks :: "nat \<Rightarrow> nat \<Rightarrow> int \<Rightarrow> manager \<Rightarrow> int \<times> manager" where
  "startChunks h 0 freeSpots m = (freeSpots, m)"
| "startChunks h (Suc unstarted) freeSpots m =
     (if freeSpots > 0 then startChunks h unstarted (freeSpots - 1) (startWorker h m)
      else (freeSpots, m))"

text \<open>
  The outer loop, on the queue from \<open>idx\<close> on. Nothing in its body changes the queue
  (the \<open>splice\<close> is in a promise continuation), so it runs over the queue as it was.
\<close>

fun tickLoop :: "nat list \<Rightarrow> int \<Rightarrow> manager \<Rightarrow> manager" where
  "tickLoop [] freeSpots m = m"
| "tickLoop (h # hs) freeSpots m =
     (if freeSpots > 0 then
        (case startChunks h
                (countIf (chunks (downloads m h)) (\<lambda>r. state (jobs m r) = Init)) freeSpots m of
           (freeSpots', m') \<Rightarrow> tickLoop hs freeSpots' m')
      else m)"

definition tickQueue :: "manager \<Rightarrow> manager" where
  "tickQueue m = tickLoop (mQueue m) (mMaxWorkers m - int (length (mBusyWorkers m))) m"

subsection \<open>Checkpoints and \<open>finishChunk\<close>\<close>

definition toStoredChunk :: "job \<Rightarrow> IChunk" where
  "toStoredChunk j =
     \<lparr>chunk_url = url j, chunk_size = confirmedSize j,
      chunk_offset = confirmedOffset j, chunk_received = confirmedReceived j\<rparr>"


definition finishChunk_before_tick :: "nat \<Rightarrow> nat \<Rightarrow> bool \<Rightarrow> manager \<Rightarrow> manager" where
  "finishChunk_before_tick h r interrupted m =
     (let m1 = stopWorker (workerId (jobs m r)) m;
          m2 = updJob r (\<lambda>j. j\<lparr>state :=
                  (if interrupted \<or> size_j j > 0 then Paused else Finished)\<rparr>) m1;
          m3 = (if \<not> interrupted \<and> size_j (jobs m2 r) > 0
                then updDownload h (\<lambda>d. d\<lparr>error := True\<rparr>) m2 else m2);
          activeChunk = find (\<lambda>c. state (jobs m3 c) \<notin> {Paused, Finished})
                          (chunks (downloads m3 h))
      in if activeChunk = None
         then emit [AssemblerClose h, Later (T_finish h (tempName (downloads m3 h)))] m3
         else m3)"

text \<open>\<open>finishChunk\<close> ends with a tick of the scheduler.\<close>

definition finishChunk :: "nat \<Rightarrow> nat \<Rightarrow> bool \<Rightarrow> manager \<Rightarrow> manager" where
  "finishChunk h r interrupted m = tickQueue (finishChunk_before_tick h r interrupted m)"





subsection \<open>Ending a worker: \<open>abort\<close>, \<open>cancel\<close>, \<open>pause\<close>, \<open>restart\<close>\<close>

text \<open>\<open>this.mRequest.abort()\<close> where the request exists.\<close>

definition requestAbort :: "nat \<Rightarrow> manager \<Rightarrow> manager" where
  "requestAbort w m = emit [RequestAbort w] (updWorker w (\<lambda>k. k\<lparr>mRequest := Some True\<rparr>) m)"

text \<open>
  The finish callback the manager gave the worker:
  \<open>(pause) => this.finishChunk(download, job, pause)\<close>.
\<close>

definition mFinishCB :: "nat \<Rightarrow> bool \<Rightarrow> manager \<Rightarrow> manager" where
  "mFinishCB w paused m = finishChunk (mDownload (workers m w)) (mJob (workers m w)) paused m"

definition abort :: "nat \<Rightarrow> bool \<Rightarrow> manager \<Rightarrow> bool \<times> manager" where
  "abort w paused m =
     (if mEnded (workers m w) then (False, m)
      else
        (let m1 = (if mRequest (workers m w) \<noteq> None then requestAbort w m else m);
             m2 = updWorker w (\<lambda>k. k\<lparr>mEnded := True\<rparr>) m1
         in (True, mFinishCB w paused m2)))"

definition cancel :: "nat \<Rightarrow> manager \<Rightarrow> manager" where
  "cancel w m = snd (abort w False m)"

definition pause_worker :: "nat \<Rightarrow> manager \<Rightarrow> manager" where
  "pause_worker w m =
     (case abort w True m of
        (True, m1) \<Rightarrow>
          (if mResponse (workers m1 w) \<noteq> None
           then emit [ResponsePause w] (updWorker w (\<lambda>k. k\<lparr>mResponse := Some True\<rparr>) m1)
           else m1)
      | (False, m1) \<Rightarrow> m1)"

text \<open>
  \<open>restart\<close> reads \<open>this.mResponse\<close> and \<open>this.mRequest\<close> unguarded: \<open>None\<close> is the
  \<open>TypeError\<close> it throws where one of them is undefined.
\<close>

definition restart :: "nat \<Rightarrow> manager \<Rightarrow> manager option" where
  "restart w m =
     (if mResponse (workers m w) = None \<or> mRequest (workers m w) = None then None
      else Some (updWorker w (\<lambda>k. k\<lparr>mRestart := True\<rparr>)
                   (requestAbort w (emit [RemoveErrorListeners w] m))))"

subsection \<open>\<open>cancelDownload\<close>, the error callback of a download's first chunk\<close>

definition cancelDownload :: "nat \<Rightarrow> err \<Rightarrow> manager \<Rightarrow> manager" where
  "cancelDownload h e m =
     emit [FailedCB h e]
       (fold (\<lambda>c m'.
                if state (jobs m' c) = Running then
                  updJob c (\<lambda>j. j\<lparr>state := Paused\<rparr>)
                    (case workerId (jobs m' c) of
                       Some w \<Rightarrow> (if w \<in> set (mBusyWorkers m') then cancel w m' else m')
                     | None \<Rightarrow> m')
                else m')
          (chunks (downloads m h)) m)"

subsection \<open>Stall detection: the progress callback\<close>

text \<open>
  \<open>makeProgressCB(job, download)\<close> applied to a byte count. \<open>starving\<close> is what the speed
  calculator's \<open>addMeasure\<close> returns (\<open>None\<close> for neither \<open>true\<close> nor \<open>false\<close>), \<open>now\<close>
  is \<open>Date.now()\<close>. Calling \<open>restart\<close> on a worker that is not in the table, or that
  has no response yet, throws, and the statement after it is not reached.
\<close>

definition makeProgressCB :: "nat \<Rightarrow> nat \<Rightarrow> nat \<Rightarrow> bool option \<Rightarrow> int \<Rightarrow> manager \<Rightarrow> manager" where
  "makeProgressCB r h bytes starving now m0 =
     (let wid = workerId (jobs m0 r);
          m = emit [AddMeasure wid bytes] m0
      in case starving of
           Some True \<Rightarrow>
             (let n = (case mSlowWorkers m wid of None \<Rightarrow> 0 | Some c \<Rightarrow> c) + 1;
                  m1 = m\<lparr>mSlowWorkers := (mSlowWorkers m)(wid := Some n)\<rparr>
              in if n > 15
                    \<and> (case started (downloads m1 h) of None \<Rightarrow> False
                        | Some t \<Rightarrow> now - t < 15 * 60 * 1000)
                 then
                   (case (if isBusy m1 wid then restart (the wid) m1 else None) of
                      None \<Rightarrow> emit [Throw (TypeError ''restart'')] m1
                    | Some m2 \<Rightarrow> m2\<lparr>mSlowWorkers := (mSlowWorkers m2)(wid := None)\<rparr>)
                 else m1)
         | Some False \<Rightarrow> m\<lparr>mSlowWorkers := (mSlowWorkers m)(wid := None)\<rparr>
         | None \<Rightarrow> m)"

subsection \<open>Writing: \<open>makeDataCB\<close>, \<open>doWriteBuffer\<close>, \<open>writeBuffer\<close>\<close>

text \<open>
  The data callback up to the point where it hands the buffer to the assembler;
  \<open>assemblerClosed\<close> is what \<open>assembler.isClosed()\<close> answers. The acknowledgement
  arrives later (\<open>written\<close>).
\<close>

definition dataCB :: "nat \<Rightarrow> nat \<Rightarrow> int \<Rightarrow> string \<Rightarrow> manager \<Rightarrow> manager" where
  "dataCB h w offs buf m =
     (if assemblerClosed (downloads m h)
      then emit [Later (T_writeRejected w (ProcessCanceled ''file already closed''))] m
      else emit [AddChunk h offs buf,
                 Later (T_written w (length buf) (received_d (downloads m h)))] m)"

definition doWriteBuffer :: "nat \<Rightarrow> string \<Rightarrow> manager \<Rightarrow> manager" where
  "doWriteBuffer w buf m =
     (let r = mJob (workers m w);
          len = int (length buf);
          m1 = dataCB (mDownload (workers m w)) w (offset (jobs m r)) buf m
      in updJob r (\<lambda>j. j\<lparr>received_j := received_j j + len,
                          offset := offset j + len,
                          size_j := size_j j - len\<rparr>) m1)"

text \<open>
  \<open>writeBuffer\<close> merges the buffers and writes them as one. (Where \<open>Buffer.concat\<close>
  fails for lack of memory the code writes the same buffers one after the other; that
  path is not modelled.)
\<close>

definition writeBuffer :: "nat \<Rightarrow> manager \<Rightarrow> manager" where
  "writeBuffer w m =
     (if mBuffers (workers m w) = [] then m
      else doWriteBuffer w (concat (mBuffers (workers m w)))
             (updWorker w (\<lambda>k. k\<lparr>mBuffers := []\<rparr>) m))"

text \<open>The acknowledgement of a write of \<open>len\<close> bytes: both \<open>then\<close> handlers.\<close>

definition written :: "nat \<Rightarrow> nat \<Rightarrow> int \<Rightarrow> manager \<Rightarrow> manager" where
  "written w len receivedNow m =
     (let h = mDownload (workers m w);
          r = mJob (workers m w);
          m1 = updDownload h (\<lambda>d. d\<lparr>received_d := received_d d + int len\<rparr>) m;
          m2 = updDownload h (\<lambda>d.
                 (case size_d d of
                    Some s \<Rightarrow> (if received_d d > s then d\<lparr>size_d := Some (received_d d)\<rparr> else d)
                  | None \<Rightarrow> d)) m1;
          m3 = emit [ProgressCB h receivedNow (size_d (downloads m2 h))
                       (tempName (downloads m2 h))] m2
      in updJob r (\<lambda>j. j\<lparr>confirmedReceived := confirmedReceived j + int len,
                          confirmedOffset := confirmedOffset j + int len,
                          confirmedSize := confirmedSize j - int len\<rparr>) m3)"

subsection \<open>The worker: errors, completion, \<open>assignJob\<close>\<close>

definition handleError :: "nat \<Rightarrow> err \<Rightarrow> manager \<Rightarrow> manager" where
  "handleError w e m =
     (if mEnded (workers m w) then m
      else
        (let m1 = (if errorCB (jobs m (mJob (workers m w)))
                   then cancelDownload (mDownload (workers m w)) e m else m);
             m2 = (if mRequest (workers m1 w) \<noteq> None then requestAbort w m1 else m1)
         in if err_code e \<in> {Some ''ESOCKETTIMEDOUT'', Some ''ECONNRESET''}
               \<and> \<not> mEnded (workers m2 w)
               \<and> length (mDataHistory (workers m2 w)) > 0
            then emit [Later (T_assignJob w)] m2
            else mFinishCB w False (updWorker w (\<lambda>k. k\<lparr>mEnded := True\<rparr>) m2)))"

definition handleComplete :: "nat \<Rightarrow> manager \<Rightarrow> manager" where
  "handleComplete w m =
     (if mEnded (workers m w) then m
      else emit [Later (T_complete w)] (writeBuffer w m))"

text \<open>
  The continuation of \<open>handleComplete\<close>, once the last write is through. No job of
  these sources carries a \<open>completionCB\<close>.
\<close>

definition handleComplete_then :: "nat \<Rightarrow> manager \<Rightarrow> manager" where
  "handleComplete_then w m =
     (if mRestart (workers m w) \<and> size_j (jobs m (mJob (workers m w))) > 0
      then emit [Later (T_assignJob w)] (updWorker w (\<lambda>k. k\<lparr>mRestart := False\<rparr>) m)
      else snd (abort w False m))"

text \<open>
  \<open>assignJob(job, jobUrl)\<close>, with \<open>None\<close> for an undefined URL. The request itself
  is issued once the cookies are there (\<open>startDownload\<close>).
\<close>

definition assignJob :: "nat \<Rightarrow> string option \<Rightarrow> manager \<Rightarrow> manager" where
  "assignJob w jobUrl m =
     (let m1 = updWorker w (\<lambda>k. k\<lparr>mDataHistory := []\<rparr>) m
      in if size_j (jobs m1 (mJob (workers m1 w))) \<le> 0 then handleComplete w m1
         else (case jobUrl of
                 None \<Rightarrow> handleError w (ProcessCanceled ''No URL found for this download'') m1
               | Some u \<Rightarrow> emit [Later (T_startDownload w u)] m1))"

text \<open>
  \<open>startDownload\<close>: \<open>thrown\<close> is the exception of \<open>lib.request\<close>, if any; \<open>urlIn\<close> is
  the part of the URL before the first \<open><\<close>.
\<close>

definition startDownload :: "nat \<Rightarrow> string \<Rightarrow> err option \<Rightarrow> manager \<Rightarrow> manager" where
  "startDownload w jobUrl thrown m =
     (let j = jobs m (mJob (workers m w));
          urlIn = takeWhile (\<lambda>c. c \<noteq> CHR ''<'') jobUrl
      in case thrown of
           Some e \<Rightarrow> handleError w e m
         | None \<Rightarrow> emit [HttpGet w urlIn (offset j) (offset j + size_j j)]
                     (updWorker w (\<lambda>k. k\<lparr>mRequest := Some False\<rparr>) m))"

definition handleHTML :: "nat \<Rightarrow> string \<Rightarrow> manager \<Rightarrow> manager" where
  "handleHTML w inputUrl m =
     (let m1 = snd (abort w False m)
      in if errorCB (jobs m1 (mJob (workers m1 w)))
         then cancelDownload (mDownload (workers m1 w)) (DownloadIsHTML inputUrl) m1
         else m1)"

subsection \<open>The worker: incoming data\<close>

definition bufferLength :: "worker \<Rightarrow> nat" where
  "bufferLength k = sum_list (map length (mBuffers k))"

definition handleData :: "nat \<Rightarrow> string \<Rightarrow> bool option \<Rightarrow> int \<Rightarrow> manager \<Rightarrow> manager" where
  "handleData w buf starving now m =
     (if mEnded (workers m w) \<or> state (jobs m (mJob (workers m w))) \<in> {Paused, Finished}
      then (if mRequest (workers m w) = None then emit [Throw (TypeError ''abort'')] m
            else requestAbort w m)
      else if mRedirected (workers m w) then m
      else
        (let m1 = updWorker w (\<lambda>k. k\<lparr>mDataHistory := mDataHistory k @ [length buf],
                                      mBuffers := mBuffers k @ [buf]\<rparr>) m;
             n = bufferLength (workers m1 w)
         in if n \<ge> BUFFER_SIZE then
              (if \<not> mWriting (workers m1 w) then
                 makeProgressCB (mJob (workers m1 w)) (mDownload (workers m1 w)) n starving now
                   (emit [Later (T_writeDone w)]
                      (writeBuffer w (updWorker w (\<lambda>k. k\<lparr>mWriting := True\<rparr>) m1)))
               else if n \<ge> BUFFER_SIZE_CAP then
                 emit [ResponsePause w] (updWorker w (\<lambda>k. k\<lparr>mResponse := Some True\<rparr>) m1)
               else m1)
            else m1))"

subsection \<open>Chunk layout: \<open>updateDownloadSize\<close> and \<open>updateDownload\<close>\<close>

definition setChunkable :: "bool \<Rightarrow> download \<Rightarrow> download" where
  "setChunkable c d = (if c \<or> chunkable d = None then d\<lparr>chunkable := Some c\<rparr> else d)"

definition setSize :: "nat \<Rightarrow> int \<Rightarrow> manager \<Rightarrow> manager" where
  "setSize h n m =
     (if size_d (downloads m h) \<noteq> Some n
      then emit [SetTotalSize h n] (updDownload h (\<lambda>d. d\<lparr>size_d := Some n\<rparr>) m)
      else m)"

definition updateDownloadSize :: "nat \<Rightarrow> int \<Rightarrow> bool \<Rightarrow> manager \<Rightarrow> manager" where
  "updateDownloadSize h n c m = updDownload h (setChunkable c) (setSize h n m)"

text \<open>The object literal that \<open>updateDownload\<close> pushes.\<close>

definition newChunk :: "int \<Rightarrow> int \<Rightarrow> job" where
  "newChunk offs minSize =
     \<lparr>url = FirstResolved, confirmedOffset = offs, confirmedSize = minSize,
      confirmedReceived = 0, offset = offs, state = Init, received_j = 0,
      size_j = minSize, workerId = None, errorCB = False, responseCB = None,
      fileNameFromURL = None\<rparr>"

definition pushChunk :: "nat \<Rightarrow> job \<Rightarrow> manager \<Rightarrow> manager" where
  "pushChunk h j m =
     updDownload h (\<lambda>d. d\<lparr>chunks := chunks d @ [nextJob m]\<rparr>)
       (m\<lparr>nextJob := nextJob m + 1, jobs := (jobs m)(nextJob m := j)\<rparr>)"

text \<open>
  The \<open>while (offset < fileSize)\<close> loop. It ends only if the offset gets past the file
  size, so its result is an option: \<open>None\<close> is a loop that does not return.
\<close>

partial_function (option) chunkLoop :: "nat \<Rightarrow> int \<Rightarrow> int \<Rightarrow> int \<Rightarrow> manager \<Rightarrow> manager option" where
  "chunkLoop h chunkSize fileSize offs m =
     (if offs < fileSize
      then chunkLoop h chunkSize fileSize (offs + chunkSize)
             (pushChunk h (newChunk offs (min chunkSize (fileSize - offs))) m)
      else Some m)"

declare chunkLoop.simps [code]

text \<open>
  \<open>Math.min(remainingSize, Math.max(mMinChunkSize, Math.ceil(remainingSize / maxChunks)))\<close>
  for a positive \<open>remainingSize\<close>: the quotient by zero is \<open>Infinity\<close>, which leaves
  \<open>remainingSize\<close> as the minimum.
\<close>

definition chunkSizeFor :: "int \<Rightarrow> int \<Rightarrow> int" where
  "chunkSizeFor remainingSize maxChunks =
     (if maxChunks = 0 then remainingSize
      else min remainingSize (max MIN_CHUNK_SIZE (- ((- remainingSize) div maxChunks))))"

text \<open>
  The first block of \<open>updateDownload\<close>: a server file name that differs from the
  original one starts the reservation of a new name, which ends in a rename later.
\<close>

definition requestRename :: "nat \<Rightarrow> string option \<Rightarrow> manager \<Rightarrow> manager" where
  "requestRename h fileName m =
     (case fileName of
        Some n \<Rightarrow> (if n \<noteq> origName (downloads m h) \<and> finalName (downloads m h) = None
                   then emit [Later (T_rename h n)] m else m)
      | None \<Rightarrow> m)"

definition updateDownload ::
  "nat \<Rightarrow> int \<Rightarrow> string option \<Rightarrow> bool \<Rightarrow> manager \<Rightarrow> manager option" where
  "updateDownload h fileSize fileName c m =
     (let m1 = requestRename h fileName m;
          m2 = updDownload h (setChunkable c) m1;
          m3 = setSize h fileSize m2
      in if length (chunks (downloads m3 h)) > 1 then Some m3
         else if fileSize > MIN_CHUNK_SIZE \<and> c then
           (let remainingSize = fileSize - MIN_CHUNK_SIZE;
                maxChunks = min (mMaxChunks m3) (mMaxWorkers m3);
                chunkSize = chunkSizeFor remainingSize maxChunks
            in map_option tickQueue (chunkLoop h chunkSize fileSize (MIN_CHUNK_SIZE + 1) m3))
         else Some m3)"

subsection \<open>The worker: \<open>handleResponse\<close> and the redirect timer\<close>

definition startsWith :: "string \<Rightarrow> string \<Rightarrow> bool" where
  "startsWith s p = (take (length p) s = p)"

definition isHTMLHeader :: "response \<Rightarrow> bool" where
  "isHTMLHeader r = (case contentType r of None \<Rightarrow> False | Some ct \<Rightarrow> startsWith ct ''text/html'')"

text \<open>\<open>fileName || fallback\<close>: an empty name is falsy.\<close>

definition orElse :: "string option \<Rightarrow> string option \<Rightarrow> string option" where
  "orElse a b = (case a of Some n \<Rightarrow> (if n = [] then b else Some n) | None \<Rightarrow> b)"

text \<open>
  \<open>handleResponse\<close>. \<open>resolve\<close> is Node's \<open>url.resolve\<close>. The result is an option
  because the response callback may run the layout loop of \<open>updateDownload\<close>.
\<close>

definition handleResponse ::
  "(string \<Rightarrow> string \<Rightarrow> string) \<Rightarrow> nat \<Rightarrow> response \<Rightarrow> string \<Rightarrow> manager \<Rightarrow> manager option" where
  "handleResponse resolve w resp jobUrl m =
     (let r = mJob (workers m w); h = mDownload (workers m w) in
      if statusCode resp \<ge> 300 then
        (if statusCode resp \<in> {301, 302, 307, 308}
            \<and> mRedirectsFollowed (workers m w) < MAX_REDIRECT_FOLLOW
         then
           (let newUrl = resolve jobUrl (location resp)
            in Some (emit [Later (T_redirect w newUrl)]
                      (updWorker w (\<lambda>k. k\<lparr>mRedirected := True\<rparr>)
                        (updJob r (\<lambda>j. j\<lparr>url := Redirected newUrl\<rparr>) m))))
         else Some (handleError w
                      (HTTPError (statusCode resp) (statusMessage resp) jobUrl) m))
      else
        (let m1 = updDownload h (\<lambda>d. d\<lparr>headers := Some resp\<rparr>) m
         in if isHTMLHeader resp then Some (handleHTML w jobUrl m1)
            else
              (let c = (contentRange resp \<noteq> None)
               in case responseCB (jobs m1 r) of
                    None \<Rightarrow> Some m1
                  | Some cb \<Rightarrow>
                      (let chunkSize = (case contentLength resp of Some n \<Rightarrow> n | None \<Rightarrow> - 1);
                           fileSize = (case contentRange resp of Some t \<Rightarrow> t | None \<Rightarrow> chunkSize);
                           m2 = (if c then m1 else updJob r (\<lambda>j. j\<lparr>offset := 0\<rparr>) m1);
                           m3 = (if chunkSize \<noteq> size_j (jobs m2 r)
                                 then updJob r (\<lambda>j. j\<lparr>confirmedSize := chunkSize,
                                                        size_j := chunkSize\<rparr>) m2
                                 else m2);
                           fileName = orElse (dispositionName resp) None
                       in case cb of
                            UpdateDownload fallback \<Rightarrow>
                              updateDownload h fileSize
                                (if fallback
                                 then orElse fileName (fileNameFromURL (jobs m3 r))
                                 else fileName) c m3
                          | UpdateDownloadSize \<Rightarrow>
                              Some (updateDownloadSize h fileSize c m3)))))"

text \<open>The body of the \<open>setTimeout(..., 100)\<close> of the redirect branch.\<close>

definition redirect_timer :: "nat \<Rightarrow> string \<Rightarrow> manager \<Rightarrow> manager" where
  "redirect_timer w newUrl m =
     (let r = mJob (workers m w);
          m1 = updWorker w (\<lambda>k. k\<lparr>mRedirectsFollowed := mRedirectsFollowed k + 1,
                                    mRedirected := False\<rparr>) m;
          m2 = updJob r (\<lambda>j. j\<lparr>size_j := size_j j + received_j j\<rparr>) m1;
          m3 = updJob r (\<lambda>j. j\<lparr>confirmedSize := size_j j\<rparr>) m2;
          m4 = updJob r (\<lambda>j. j\<lparr>received_j := 0, offset := 0,
                              confirmedReceived := 0, confirmedOffset := 0\<rparr>) m3;
          m5 = updJob r (\<lambda>j. j\<lparr>state := Running\<rparr>) m4;
          m6 = updWorker w (\<lambda>k. k\<lparr>mEnded := False\<rparr>) m5
      in assignJob w (Some newUrl) m6)"

text \<open>
  The request's callback (the response has arrived) and the \<open>end\<close> of the body stream.
\<close>

definition request_callback ::
  "(string \<Rightarrow> string \<Rightarrow> string) \<Rightarrow> nat \<Rightarrow> response \<Rightarrow> string \<Rightarrow> manager \<Rightarrow> manager option" where
  "request_callback resolve w resp jobUrl m =
     handleResponse resolve w resp jobUrl (updWorker w (\<lambda>k. k\<lparr>mResponse := Some False\<rparr>) m)"

definition stream_end :: "nat \<Rightarrow> manager \<Rightarrow> manager" where
  "stream_end w m =
     requestAbort w (if \<not> mRedirected (workers m w) then handleComplete w m else m)"

subsection \<open>The public operations: \<open>pause\<close> and \<open>stop\<close>\<close>

definition findDownload :: "string \<Rightarrow> manager \<Rightarrow> nat option" where
  "findDownload ident m = find (\<lambda>h. id_d (downloads m h) = ident) (mQueue m)"

definition removeFromQueue :: "string \<Rightarrow> manager \<Rightarrow> manager" where
  "removeFromQueue ident m =
     m\<lparr>mQueue := filter (\<lambda>h. id_d (downloads m h) \<noteq> ident) (mQueue m)\<rparr>"

text \<open>The body of the second \<open>forEach\<close> of \<open>pause\<close>, for the chunk \<open>c\<close>.\<close>

definition pauseChunk :: "nat \<Rightarrow> IChunk list \<times> manager \<Rightarrow> IChunk list \<times> manager" where
  "pauseChunk c acc =
     (case acc of (unfinished, m) \<Rightarrow>
        (let j = jobs m c in
         if state j \<in> {Running, Paused} \<and> size_j j > 0 then
           (unfinished @
              [\<lparr>chunk_url = url j, chunk_size = confirmedSize j,
                chunk_offset = confirmedOffset j, chunk_received = confirmedReceived j\<rparr>],
            (case workerId j of
               Some w \<Rightarrow>
                 (if w \<in> set (mBusyWorkers m)
                  then (let m1 = pause_worker w m in stopWorker (workerId (jobs m1 c)) m1)
                  else m)
             | None \<Rightarrow> m))
         else (unfinished, m)))"

definition pause :: "string \<Rightarrow> manager \<Rightarrow> IChunk list option \<times> manager" where
  "pause ident m =
     (case findDownload ident m of
        None \<Rightarrow> (None, m)
      | Some h \<Rightarrow>
          (let m1 = fold (\<lambda>c m'. if state (jobs m' c) = Init
                                 then updJob c (\<lambda>j. j\<lparr>state := Paused\<rparr>) m' else m')
                      (chunks (downloads m h)) m
           in case fold pauseChunk (chunks (downloads m1 h)) ([], m1) of
                (unfinished, m2) \<Rightarrow> (Some unfinished, removeFromQueue ident m2)))"

definition stop :: "string \<Rightarrow> manager \<Rightarrow> manager" where
  "stop ident m =
     (case findDownload ident m of
        None \<Rightarrow> m
      | Some h \<Rightarrow>
          (let m1 = fold (\<lambda>c m'. if state (jobs m' c) = Init
                                 then updJob c (\<lambda>j. j\<lparr>state := Finished\<rparr>) m' else m')
                      (chunks (downloads m h)) m;
               m2 = (if find (\<lambda>c. state (jobs m1 c) \<noteq> Finished) (chunks (downloads m1 h)) \<noteq> None
                     then fold (\<lambda>c m'.
                            (case workerId (jobs m' c) of
                               Some w \<Rightarrow>
                                 (if state (jobs m' c) = Running \<and> w \<in> set (mBusyWorkers m')
                                  then cancel w m' else m')
                             | None \<Rightarrow> m'))
                          (chunks (downloads m1 h)) m1
                     else emit [FailedCB h UserCanceled] m1)
           in removeFromQueue ident m2))"

subsection \<open>The public operations: \<open>enqueue\<close> and \<open>resume\<close>\<close>

definition initChunk :: job where
  "initChunk =
     \<lparr>url = FirstResolved, confirmedOffset = 0, confirmedSize = MIN_CHUNK_SIZE,
      confirmedReceived = 0, offset = 0, state = Init, received_j = 0,
      size_j = MIN_CHUNK_SIZE, workerId = None, errorCB = True,
      responseCB = Some (UpdateDownload True), fileNameFromURL = None\<rparr>"

text \<open>
  \<open>enqueue\<close> up to the point where it hands over to the file system. \<open>nameOfUrl\<close> is
  \<open>decodeURI(path.basename(url.parse(baseUrl).pathname))\<close>, \<open>None\<close> where it throws. The
  result is the rejection, or the destination path and the name template that the
  promise chain goes on with.
\<close>

definition enqueue ::
  "(string \<Rightarrow> string option) \<Rightarrow> string \<Rightarrow> string list \<Rightarrow> string option \<Rightarrow> string option
     \<Rightarrow> manager \<Rightarrow> (err + string \<times> string) \<times> manager" where
  "enqueue nameOfUrl ident us fileName destinationPath m =
     (case us of
        [] \<Rightarrow> (Inl (Error ''No download urls''), m)
      | u # _ \<Rightarrow>
          (let baseUrl = takeWhile (\<lambda>c. c \<noteq> CHR ''<'') u
           in case (case orElse fileName None of
                      Some n \<Rightarrow> Some n
                    | None \<Rightarrow> nameOfUrl baseUrl) of
                None \<Rightarrow> (Inl (DataInvalid (''failed to parse url '' @ baseUrl)), m)
              | Some nameTemplate \<Rightarrow>
                  (Inr (case orElse destinationPath None of
                          Some p \<Rightarrow> p | None \<Rightarrow> mDownloadPath m,
                        nameTemplate), m)))"

text \<open>
  The end of the chain, once \<open>unusedName\<close> has reserved \<open>filePath\<close>: the download is
  built with its one initial chunk and queued. \<open>joinBase\<close> is
  \<open>path.join(destPath, path.basename(filePath))\<close>, \<open>now\<close> the time of \<open>new Date()\<close>.
\<close>

definition enqueue_queued ::
  "(string \<Rightarrow> string \<Rightarrow> string) \<Rightarrow> string \<Rightarrow> string list \<Rightarrow> string option \<Rightarrow> string \<Rightarrow> string
     \<Rightarrow> RedownloadMode \<Rightarrow> int \<Rightarrow> string \<Rightarrow> manager \<Rightarrow> manager" where
  "enqueue_queued joinBase ident us fileName destPath nameTemplate mode now fPath m =
     (let h = nextDownload m;
          d = \<lparr>id_d = ident, error = False, urls = us, origName = nameTemplate,
               tempName = fPath,
               finalName = (if fileName \<noteq> None then Some (joinBase destPath fPath) else None),
               received_d = 0, started = Some now, size_d = None, headers = None,
               assemblerProm = False, assemblerClosed = False, redownload = mode,
               chunks = [], chunkable = None\<rparr>;
          m1 = m\<lparr>nextDownload := h + 1, downloads := (downloads m)(h := d)\<rparr>;
          m2 = pushChunk h initChunk m1;
          m3 = m2\<lparr>mQueue := mQueue m2 @ [h]\<rparr>
      in tickQueue (emit [ProgressCB h 0 None fPath] m3))"

definition toJob :: "download \<Rightarrow> IChunk \<Rightarrow> bool \<Rightarrow> job" where
  "toJob d c first =
     \<lparr>url = FirstResolved, confirmedOffset = chunk_offset c, confirmedSize = chunk_size c,
      confirmedReceived = chunk_received c, offset = chunk_offset c, state = Init,
      received_j = chunk_received c, size_j = chunk_size c, workerId = None,
      errorCB = False,
      responseCB = (if size_d d = None then Some (UpdateDownload False)
                    else if first then Some (UpdateDownload True)
                    else Some UpdateDownloadSize),
      fileNameFromURL = None\<rparr>"

text \<open>\<open>resume\<close>; \<open>baseOf\<close> is \<open>path.basename\<close>. The result is the rejection, if any.\<close>

definition resume ::
  "(string \<Rightarrow> string) \<Rightarrow> string \<Rightarrow> string \<Rightarrow> string list \<Rightarrow> int \<Rightarrow> int option \<Rightarrow> int
     \<Rightarrow> IChunk list \<Rightarrow> manager \<Rightarrow> err option \<times> manager" where
  "resume baseOf ident fPath us rcvd sz startedAt cs m =
     (let h = nextDownload m;
          d = \<lparr>id_d = ident, error = False, urls = us, origName = baseOf fPath,
               tempName = fPath, finalName = None, received_d = rcvd,
               started = Some startedAt, size_d = sz, headers = None,
               assemblerProm = False, assemblerClosed = False, redownload = Always,
               chunks = [], chunkable = None\<rparr>;
          m1 = m\<lparr>nextDownload := h + 1, downloads := (downloads m)(h := d)\<rparr>;
          isPending = (rcvd = 0);
          m2 = fold (\<lambda>(idx, c). pushChunk h (toJob d c (isPending \<and> idx = 0)))
                 (zip [0 ..< length cs] cs) m1
      in case chunks (downloads m2 h) of
           [] \<Rightarrow> (Some (ProcessCanceled ''No unfinished chunks''), m2)
         | c0 # _ \<Rightarrow>
             (None, tickQueue ((updJob c0 (\<lambda>j. j\<lparr>errorCB := True\<rparr>) m2)
                                 \<lparr>mQueue := mQueue m2 @ [h]\<rparr>)))"

section \<open>Filename reservation: \<open>unusedName\<close>\<close>

text \<open>
  The file system as \<open>unusedName\<close> meets it: the paths that exist, and the failures
  other than \<open>EEXIST\<close> that opening or closing a path runs into (\<open>None\<close> where there is
  none). An exclusive open of a path that exists fails with \<open>EEXIST\<close>; otherwise it
  creates the file.
\<close>

record filesystem =
  files :: "string set"
  openFault :: "string \<Rightarrow> err option"
  closeFault :: "string \<Rightarrow> err option"

text \<open>
  \<open>fs.openAsync(fullPath, 'wx')\<close> followed by \<open>fs.closeAsync\<close>, whose \<open>EBADF\<close> is
  ignored: the error that reaches the \<open>catch\<close> handler, if any, and the file system
  after the attempt.
\<close>

definition reserve :: "filesystem \<Rightarrow> string \<Rightarrow> err option \<times> filesystem" where
  "reserve fs p =
     (case openFault fs p of
        Some e \<Rightarrow> (Some e, fs)
      | None \<Rightarrow>
          (if p \<in> files fs then (Some (SysError ''EEXIST''), fs)
           else (case closeFault fs p of
                   Some e \<Rightarrow> (if err_code e \<noteq> Some ''EBADF'' then Some e else None,
                              fs\<lparr>files := insert p (files fs)\<rparr>)
                 | None \<Rightarrow> (None, fs\<lparr>files := insert p (files fs)\<rparr>))))"

text \<open>The decimal digits of a counter, as the template string writes them.\<close>

fun showNat :: "nat \<Rightarrow> string" where
  "showNat n = (if n < 10 then [''0123456789'' ! n]
                else showNat (n div 10) @ [''0123456789'' ! (n mod 10)])"

text \<open>
  The functions of Node's \<open>path\<close> module that \<open>unusedName\<close> calls, and the
  substitution of \<open>INVALID_FILENAME_RE\<close> by \<open>_\<close>; they are given.
\<close>

record path_lib =
  path_join :: "string \<Rightarrow> string \<Rightarrow> string"
  path_extname :: "string \<Rightarrow> string"
  path_basename :: "string \<Rightarrow> string \<Rightarrow> string"
  sanitizeFilename :: "string \<Rightarrow> string"

definition tryName :: "string \<Rightarrow> string \<Rightarrow> nat \<Rightarrow> string" where
  "tryName base ext counter = base @ ''.'' @ showNat counter @ ext"

text \<open>
  The function \<open>loop\<close> of \<open>unusedName\<close>, with the variables it closes over as
  arguments: \<open>counter\<close>, \<open>first\<close> and \<open>fullPath\<close> change from one round to the next.
  \<open>cb\<close> is \<open>this.mFileExistsCB\<close>, answering \<open>Inr\<close> of a boolean or failing with \<open>Inl\<close>
  of an error. The loop goes on as long as the paths it tries exist, so the result is
  an option.
\<close>

partial_function (option) unusedName_loop ::
  "path_lib \<Rightarrow> (string \<Rightarrow> err + bool) option \<Rightarrow> RedownloadMode \<Rightarrow> string \<Rightarrow> string
     \<Rightarrow> string \<Rightarrow> string \<Rightarrow> nat \<Rightarrow> bool \<Rightarrow> string \<Rightarrow> filesystem
     \<Rightarrow> ((err + string) \<times> filesystem) option" where
  "unusedName_loop lib cb mode destination fileName base ext counter first fullPath fs =
     (let failure = fst (reserve fs fullPath);
          fs' = snd (reserve fs fullPath);
          counter' = counter + 1;
          fullPath' = path_join lib destination (tryName base ext counter')
      in if failure = None then Some (Inr fullPath, fs')
         else if err_code (the failure) = Some ''EEXIST'' then
           (if first \<and> cb \<noteq> None then
              (if mode = Always then
                 unusedName_loop lib cb mode destination fileName base ext
                   counter' False fullPath' fs'
               else if mode = Never then Some (Inl (AlreadyDownloaded fileName), fs')
               else if mode = Replace then Some (Inr fullPath', fs')
               else if the cb fileName = Inr True then
                 unusedName_loop lib cb mode destination fileName base ext
                   counter' False fullPath' fs'
               else if the cb fileName = Inr False then Some (Inl UserCanceled, fs')
               else Some (Inl (projl (the cb fileName)), fs'))
            else unusedName_loop lib cb mode destination fileName base ext
                   counter' first fullPath' fs')
         else Some (Inl (the failure), fs'))"

declare unusedName_loop.simps [code]

definition unusedName ::
  "path_lib \<Rightarrow> (string \<Rightarrow> err + bool) option \<Rightarrow> string \<Rightarrow> string \<Rightarrow> RedownloadMode
     \<Rightarrow> filesystem \<Rightarrow> ((err + string) \<times> filesystem) option" where
  "unusedName lib cb destination fileName0 mode fs =
     (let fileName1 = sanitizeFilename lib fileName0;
          fileName = (if fileName1 = [] then ''unnamed'' else fileName1);
          ext = path_extname lib fileName;
          base = path_basename lib fileName ext
      in unusedName_loop lib cb mode destination fileName base ext 0 True
           (path_join lib destination fileName) fs)"

section \<open>Reference terms and example states\<close>

text \<open>
  The layout of the additional chunks in closed form, to compare the loop of
  \<open>updateDownload\<close> with: \<open>chunkCount\<close> chunks, the \<open>k\<close>-th at \<open>offs + k * chunkSize\<close>.
\<close>

definition chunkCount :: "int \<Rightarrow> int \<Rightarrow> int \<Rightarrow> nat" where
  "chunkCount chunkSize fileSize offs = nat ((fileSize - offs + chunkSize - 1) div chunkSize)"

definition layout :: "int \<Rightarrow> int \<Rightarrow> int \<Rightarrow> job list" where
  "layout chunkSize fileSize offs =
     map (\<lambda>k. newChunk (offs + int k * chunkSize)
                 (min chunkSize (fileSize - (offs + int k * chunkSize))))
       [0 ..< chunkCount chunkSize fileSize offs]"

text \<open>
  A manager with one queued download of one running chunk, served by worker \<open>0\<close>, with
  room for four workers and four chunks.
\<close>

definition example_job :: job where
  "example_job = initChunk\<lparr>state := Running, workerId := Some 0\<rparr>"

definition example_download :: download where
  "example_download =
     \<lparr>id_d = ''dl-1'', error = False, urls = [''https://host/mod.zip''],
      origName = ''mod.zip'', tempName = ''/downloads/mod.zip'', finalName = None,
      received_d = 0, started = Some 0, size_d = None, headers = None,
      assemblerProm = True, assemblerClosed = False, redownload = Ask,
      chunks = [0], chunkable = None\<rparr>"

definition example_worker :: worker where
  "example_worker =
     \<lparr>mJob = 0, mDownload = 0, mRequest = Some False, mResponse = Some False,
      mBuffers = [], mDataHistory = [], mEnded = False, mWriting = False,
      mRestart = False, mRedirected = False, mRedirectsFollowed = 0\<rparr>"

definition example_manager :: manager where
  "example_manager =
     \<lparr>mDownloadPath = ''/downloads'', mMaxWorkers = 4, mMaxChunks = 4,
      mBusyWorkers = [0], mSlowWorkers = (\<lambda>_. None), mQueue = [0], mNextId = 1,
      nextJob = 1, nextDownload = 1, jobs = (\<lambda>_. example_job),
      downloads = (\<lambda>_. example_download), workers = (\<lambda>_. example_worker),
      effects = []\<rparr>"

text \<open>Whether an error is of the class \<open>DataInvalid\<close>.\<close>

fun isDataInvalid :: "err \<Rightarrow> bool" where
  "isDataInvalid (DataInvalid _) = True"
| "isDataInvalid _ = False"




text \<open>
  What a tick of the scheduler may change: it appends effects, turns jobs from \<open>Init\<close>
  to \<open>Running\<close> giving them a worker id, and marks downloads as having their assembler
  requested. Everything else stays.
\<close>

definition scheduled :: "manager \<Rightarrow> manager \<Rightarrow> bool" where
  "scheduled m m' \<longleftrightarrow>
     (\<exists>es. effects m' = effects m @ es)
   \<and> (\<forall>r. jobs m' r = jobs m r
          \<or> (state (jobs m r) = Init
              \<and> jobs m' r = (jobs m r)\<lparr>state := Running, workerId := workerId (jobs m' r)\<rparr>))
   \<and> (\<forall>h. downloads m' h = (downloads m h)\<lparr>assemblerProm := assemblerProm (downloads m' h)\<rparr>)
   \<and> workers m' = workers m
   \<and> mBusyWorkers m' = mBusyWorkers m
   \<and> mSlowWorkers m' = mSlowWorkers m
   \<and> mQueue m' = mQueue m
   \<and> mMaxWorkers m' = mMaxWorkers m
   \<and> mMaxChunks m' = mMaxChunks m
   \<and> nextJob m' = nextJob m
   \<and> nextDownload m' = nextDownload m"

text \<open>Every chunk of the download \<open>h\<close> other than \<open>r\<close> is paused or finished.\<close>

definition othersTerminal :: "manager \<Rightarrow> nat \<Rightarrow> nat \<Rightarrow> bool" where
  "othersTerminal m h r =
     list_all (\<lambda>c. c = r \<or> state (jobs m c) = Paused \<or> state (jobs m c) = Finished)
       (chunks (downloads m h))"


text \<open>The state in which \<open>abort\<close> calls the finish callback.\<close>

definition ending :: "nat \<Rightarrow> manager \<Rightarrow> manager" where
  "ending w m =
     updWorker w (\<lambda>k. k\<lparr>mEnded := True\<rparr>)
       (if mRequest (workers m w) \<noteq> None then requestAbort w m else m)"

text \<open>What \<open>pause\<close> does to a chunk \<open>c\<close> whose worker \<open>w\<close> is in the table.\<close>

definition pauseStep :: "nat \<Rightarrow> nat \<Rightarrow> manager \<Rightarrow> manager" where
  "pauseStep c w m = (let m1 = pause_worker w m in stopWorker (workerId (jobs m1 c)) m1)"

text \<open>What pausing the workers of a download leaves as it was.\<close>

definition pause_rel :: "manager \<Rightarrow> manager \<Rightarrow> bool" where
  "pause_rel m m' \<longleftrightarrow>
     (\<forall>c. state (jobs m c) \<noteq> Init \<longrightarrow>
            jobs m' c = jobs m c \<or> jobs m' c = (jobs m c)\<lparr>state := Paused\<rparr>)
   \<and> (\<forall>w. mJob (workers m' w) = mJob (workers m w))
   \<and> (\<forall>w. mEnded (workers m w) \<longrightarrow> mEnded (workers m' w))
   \<and> set (mBusyWorkers m') \<subseteq> set (mBusyWorkers m)
   \<and> mQueue m' = mQueue m
   \<and> (\<forall>h. id_d (downloads m' h) = id_d (downloads m h)
          \<and> chunks (downloads m' h) = chunks (downloads m h))"

text \<open>The chunks that \<open>pause\<close> writes a checkpoint for.\<close>

definition unfinished :: "manager \<Rightarrow> nat \<Rightarrow> bool" where
  "unfinished m c \<longleftrightarrow> state (jobs m c) \<in> {Running, Paused} \<and> 0 < size_j (jobs m c)"

text \<open>
  A manager whose one download has not been started: its only chunk is still in state
  \<open>Init\<close> and there is no worker.
\<close>

definition example_queued :: manager where
  "example_queued =
     example_manager\<lparr>mBusyWorkers := [], mNextId := 0, jobs := (\<lambda>_. initChunk)\<rparr>"

text \<open>
  A manager whose running chunk has written 512 KiB, of which the assembler has
  acknowledged 256 KiB.
\<close>

definition example_inflight :: manager where
  "example_inflight =
     example_manager\<lparr>jobs := (\<lambda>_. example_job\<lparr>offset := 524288, received_j := 524288,
          size_j := 20447232, confirmedOffset := 262144, confirmedReceived := 262144,
          confirmedSize := 20709376\<rparr>)\<rparr>"

text \<open>The first loop of \<open>pause\<close>: the chunks not yet started are paused.\<close>

definition pauseInit :: "nat list \<Rightarrow> manager \<Rightarrow> manager" where
  "pauseInit cs m =
     fold (\<lambda>c m'. if state (jobs m' c) = Init
                   then updJob c (\<lambda>j. j\<lparr>state := Paused\<rparr>) m' else m') cs m"

text \<open>
  A path that exists (an exclusive open fails with \<open>EEXIST\<close>), and a path that can be
  reserved (the open creates the file and the close succeeds or fails with \<open>EBADF\<close>).
\<close>

definition occupied :: "filesystem \<Rightarrow> string \<Rightarrow> bool" where
  "occupied fs p \<longleftrightarrow> openFault fs p = None \<and> p \<in> files fs"

definition reservable :: "filesystem \<Rightarrow> string \<Rightarrow> bool" where
  "reservable fs p \<longleftrightarrow>
     openFault fs p = None \<and> p \<notin> files fs
     \<and> (case closeFault fs p of None \<Rightarrow> True | Some e \<Rightarrow> err_code e = Some ''EBADF'')"

text \<open>The name \<open>unusedName\<close> works with, and the candidate of a counter.\<close>

definition cleanName :: "path_lib \<Rightarrow> string \<Rightarrow> string" where
  "cleanName lib fileName0 =
     (if sanitizeFilename lib fileName0 = [] then ''unnamed'' else sanitizeFilename lib fileName0)"

definition candidate :: "path_lib \<Rightarrow> string \<Rightarrow> string \<Rightarrow> nat \<Rightarrow> string" where
  "candidate lib destination fileName counter =
     path_join lib destination
       (tryName (path_basename lib fileName (path_extname lib fileName))
          (path_extname lib fileName) counter)"

text \<open>
  A simple instance of the library for the examples: paths joined with a slash, the
  extension from the last dot on, nothing to sanitise.
\<close>

definition lastDot :: "string \<Rightarrow> string" where
  "lastDot s = (if CHR ''.'' \<in> set s then CHR ''.'' # rev (takeWhile (\<lambda>c. c \<noteq> CHR ''.'') (rev s)) else [])"

definition example_lib :: path_lib where
  "example_lib =
     \<lparr>path_join = (\<lambda>d n. d @ ''/'' @ n),
      path_extname = lastDot,
      path_basename = (\<lambda>n e. take (length n - length e) n),
      sanitizeFilename = (\<lambda>n. n)\<rparr>"

definition example_fs :: filesystem where
  "example_fs =
     \<lparr>files = {''/downloads/mod.zip'', ''/downloads/mod.1.zip''},
      openFault = (\<lambda>_. None), closeFault = (\<lambda>_. None)\<rparr>"

text \<open>
  A manager whose worker \<open>0\<close> serves an additional chunk, as \<open>updateDownload\<close> lays them
  out: it starts at 20 MiB + 1 and has neither a response nor an error callback.
\<close>

definition example_second :: manager where
  "example_second =
     example_manager\<lparr>jobs := (\<lambda>_. (newChunk 20971521 20971520)
                                     \<lparr>state := Running, workerId := Some 0\<rparr>)\<rparr>"

text \<open>
  A manager whose worker \<open>0\<close> serves a chunk rebuilt by \<open>resume\<close> from a checkpoint at
  30 MiB.
\<close>

definition example_resumed :: manager where
  "example_resumed =
     example_manager\<lparr>jobs := (\<lambda>_. (toJob example_download
          \<lparr>chunk_url = FirstResolved, chunk_size = 52428800, chunk_offset = 31457280,
           chunk_received = 31457280\<rparr> True)\<lparr>state := Running, workerId := Some 0\<rparr>)\<rparr>"

text \<open>Responses: a redirect, and a plain success without a Content-Range header.\<close>

definition example_302 :: response where
  "example_302 =
     \<lparr>statusCode = 302, statusMessage = ''Found'', location = ''https://mirror/mod.zip'',
      contentType = None, contentRange = None, contentLength = None,
      dispositionName = None\<rparr>"

definition example_200 :: response where
  "example_200 =
     \<lparr>statusCode = 200, statusMessage = ''OK'', location = [],
      contentType = Some ''application/zip'', contentRange = None,
      contentLength = Some 1000, dispositionName = None\<rparr>"

text \<open>The size the response gives a job: its Content-Length, or \<open>-1\<close> without one.\<close>

definition lengthOf :: "response \<Rightarrow> int" where
  "lengthOf resp = (case contentLength resp of Some n \<Rightarrow> n | None \<Rightarrow> - 1)"

subsection \<open>\<open>handleResponse\<close>: redirects\<close>

definition isRedirect :: "response \<Rightarrow> bool" where
  "isRedirect resp \<longleftrightarrow> statusCode resp \<in> {301, 302, 307, 308}"

text \<open>The example manager after a first buffer of 1000 bytes has reached worker \<open>0\<close>.\<close>

definition example_receiving :: manager where
  "example_receiving = updWorker 0 (\<lambda>k. k\<lparr>mDataHistory := [1000]\<rparr>) example_manager"

text \<open>The same for the worker of an additional chunk, which has no error callback.\<close>

definition example_second_receiving :: manager where
  "example_second_receiving = updWorker 0 (\<lambda>k. k\<lparr>mDataHistory := [1000]\<rparr>) example_second"

text \<open>A plain success whose Content-Length is the 20 MiB the first chunk asks for.\<close>

definition example_200_whole :: response where
  "example_200_whole = example_200\<lparr>contentLength := Some 20971520\<rparr>"

text \<open>
  Modelled from the spec: the file assembler is not among these sources; once its
  \<open>close()\<close> has returned, \<open>is_closed()\<close> answers true.
\<close>

definition assembler_closed :: "nat \<Rightarrow> manager \<Rightarrow> manager" where
  "assembler_closed h m = updDownload h (\<lambda>d. d\<lparr>assemblerClosed := True\<rparr>) m"

text \<open>
  A run of the worker of an additional chunk: its request is answered with a redirect; within
  the 100 ms before the timer the download is paused, which ends the worker, and the
  assembler closes; the timer fires and issues the new request; the new response is a
  plain success; five bytes of body arrive and the stream ends.
\<close>

definition run_redirected :: manager where
  "run_redirected =
     the (handleResponse (\<lambda>b l. l) 0 example_302 ''https://host/mod.zip'' example_second)"

definition run_paused :: manager where
  "run_paused = assembler_closed 0 (pause_worker 0 run_redirected)"

definition run_revived :: manager where
  "run_revived =
     startDownload 0 ''https://mirror/mod.zip'' None
       (redirect_timer 0 ''https://mirror/mod.zip'' run_paused)"

definition run_answered :: manager where
  "run_answered =
     the (request_callback (\<lambda>b l. l) 0 example_200_whole ''https://mirror/mod.zip'' run_revived)"

definition run_ended :: manager where
  "run_ended = stream_end 0 (handleData 0 ''hello'' None 0 run_answered)"




section \<open>Properties\<close>

subsection \<open>The chunk layout of \<open>updateDownload\<close>\<close>

lemma chunkCount_done: 
  assumes "0 < cs" "\<not> offs < fs" shows "chunkCount cs fs offs = 0"
proof -
  let ?x = "fs - offs + cs - 1"
  have "?x < cs" using assms by simp
  have "?x div cs \<le> 0"
  proof (cases "?x < 0")
    case True
    then show ?thesis using assms(1) by (simp add: pos_imp_zdiv_neg_iff less_imp_le)
  next
    case False
    then have "?x div cs = 0" using \<open>?x < cs\<close> by simp
    then show ?thesis by simp
  qed
  then show ?thesis unfolding chunkCount_def by simp
qed

lemma chunkCount_step: 
  assumes "0 < cs" "offs < fs" shows "chunkCount cs fs offs = Suc (chunkCount cs fs (offs + cs))"
proof -
  have e: "fs - offs + cs - 1 = (fs - (offs + cs) + cs - 1) + cs" by simp
  have "(fs - offs + cs - 1) div cs = (fs - (offs + cs) + cs - 1) div cs + 1"
    unfolding e using assms(1) by (simp del: add_diff_cancel)
  moreover have "0 \<le> (fs - (offs + cs) + cs - 1) div cs"
    using assms by (simp add: pos_imp_zdiv_nonneg_iff)
  ultimately show ?thesis unfolding chunkCount_def by (simp add: nat_add_distrib)
qed


lemma layout_done: "0 < cs \<Longrightarrow> \<not> offs < fs \<Longrightarrow> layout cs fs offs = []"
  by (simp add: layout_def chunkCount_done)

lemma layout_step:
  assumes "0 < cs" "offs < fs"
  shows "layout cs fs offs = newChunk offs (min cs (fs - offs)) # layout cs fs (offs + cs)"
proof -
  have "[0 ..< Suc (chunkCount cs fs (offs + cs))]
          = 0 # map Suc [0 ..< chunkCount cs fs (offs + cs)]"
    by (simp add: upt_conv_Cons map_Suc_upt del: upt_Suc)
  then show ?thesis
    unfolding layout_def chunkCount_step [OF assms]
    by (simp add: algebra_simps del: upt_Suc)
qed

lemma chunkLoop_layout:
  assumes "0 < cs"
  shows "chunkLoop h cs fs offs m = Some (fold (pushChunk h) (layout cs fs offs) m)"
proof (induction "chunkCount cs fs offs" arbitrary: offs m)
  case 0
  have "\<not> offs < fs"
  proof
    assume "offs < fs"
    from chunkCount_step [OF assms this] 0 show False by simp
  qed
  then show ?case
    using assms by (subst chunkLoop.simps) (simp add: layout_done)
next
  case (Suc n)
  have lt: "offs < fs"
  proof (rule ccontr)
    assume "\<not> offs < fs"
    from chunkCount_done [OF assms this] Suc(2) show False by simp
  qed
  have "n = chunkCount cs fs (offs + cs)"
    using chunkCount_step [OF assms lt] Suc(2) by simp
  from Suc(1) [OF this] show ?case
    using lt by (subst chunkLoop.simps) (simp add: layout_step [OF assms lt])
qed

lemma pushChunk_nextJob: "nextJob (pushChunk h j m) = Suc (nextJob m)"
  by (simp add: pushChunk_def updDownload_def)

lemma pushChunk_chunks:
  "chunks (downloads (pushChunk h j m) h) = chunks (downloads m h) @ [nextJob m]"
  by (simp add: pushChunk_def updDownload_def)

lemma pushChunk_jobs: "jobs (pushChunk h j m) = (jobs m)(nextJob m := j)"
  by (simp add: pushChunk_def updDownload_def)

lemma fold_pushChunk_nextJob:
  "nextJob (fold (pushChunk h) js m) = nextJob m + length js"
  by (induction js arbitrary: m) (simp_all add: pushChunk_nextJob)

lemma fold_pushChunk_chunks:
  "chunks (downloads (fold (pushChunk h) js m) h)
     = chunks (downloads m h) @ [nextJob m ..< nextJob m + length js]"
proof (induction js arbitrary: m)
  case Nil
  then show ?case by simp
next
  case (Cons j js)
  have "nextJob m # [Suc (nextJob m) ..< Suc (nextJob m + length js)]
          = [nextJob m ..< Suc (nextJob m + length js)]"
    by (simp add: upt_conv_Cons del: upt_Suc)
  then show ?case
    by (simp add: Cons.IH pushChunk_nextJob pushChunk_chunks del: upt_Suc)
qed

lemma fold_pushChunk_old:
  "r < nextJob m \<Longrightarrow> jobs (fold (pushChunk h) js m) r = jobs m r"
  by (induction js arbitrary: m) (simp_all add: pushChunk_nextJob pushChunk_jobs)

lemma fold_pushChunk_new:
  "k < length js \<Longrightarrow> jobs (fold (pushChunk h) js m) (nextJob m + k) = js ! k"
proof (induction js arbitrary: m k)
  case Nil
  then show ?case by simp
next
  case (Cons j js)
  show ?case
  proof (cases k)
    case 0
    then show ?thesis
      by (simp add: fold_pushChunk_old pushChunk_nextJob pushChunk_jobs)
  next
    case (Suc k')
    then have "k' < length js" using Cons.prems by simp
    from Cons.IH [OF this, of "pushChunk h j m"] show ?thesis
      using Suc by (simp add: pushChunk_nextJob)
  qed
qed

lemma length_layout: "length (layout cs fs offs) = chunkCount cs fs offs"
  by (simp add: layout_def)

lemma chunkCount_bounds:
  assumes "0 < cs"
  shows "(\<forall>k < chunkCount cs fs offs. offs + int k * cs < fs)
          \<and> fs \<le> offs + int (chunkCount cs fs offs) * cs"
proof (induction "chunkCount cs fs offs" arbitrary: offs)
  case 0
  have "\<not> offs < fs"
  proof
    assume "offs < fs"
    from chunkCount_step [OF assms this] 0 show False by simp
  qed
  then show ?case using 0 [symmetric] by simp
next
  case (Suc n)
  have lt: "offs < fs"
  proof (rule ccontr)
    assume "\<not> offs < fs"
    from chunkCount_done [OF assms this] Suc(2) show False by simp
  qed
  have n: "n = chunkCount cs fs (offs + cs)"
    using chunkCount_step [OF assms lt] Suc(2) by simp
  note IH = Suc(1) [OF n]
  have "offs + int k * cs < fs" if "k < Suc n" for k
  proof (cases k)
    case 0
    then show ?thesis using lt by simp
  next
    case (Suc k')
    then have "k' < chunkCount cs fs (offs + cs)" using that n by simp
    with IH have "offs + cs + int k' * cs < fs" by blast
    then show ?thesis using Suc by (simp add: algebra_simps)
  qed
  moreover have "fs \<le> offs + int (Suc n) * cs"
    using IH n by (simp add: algebra_simps)
  ultimately show ?case using Suc(2) [symmetric] by simp
qed

lemma chunkSizeFor_pos: "0 < r \<Longrightarrow> 0 < chunkSizeFor r c"
  by (auto simp: chunkSizeFor_def MIN_CHUNK_SIZE_def less_max_iff_disj)

lemma chunkSizeFor_ceiling:
  "c \<noteq> 0 \<Longrightarrow> chunkSizeFor r c = min r (max MIN_CHUNK_SIZE \<lceil>real_of_int r / real_of_int c\<rceil>)"
  by (simp add: chunkSizeFor_def ceiling_divide_eq_div)


lemma head_chunks:
  "chunks (downloads (setSize h n (updDownload h (setChunkable c) (requestRename h f m))) h)
     = chunks (downloads m h)"
  by (simp add: setSize_def updDownload_def setChunkable_def requestRename_def emit_def
      split: option.splits)

lemma head_jobs:
  "jobs (setSize h n (updDownload h (setChunkable c) (requestRename h f m))) = jobs m"
  by (simp add: setSize_def updDownload_def setChunkable_def requestRename_def emit_def
      split: option.splits)

lemma head_nextJob:
  "nextJob (setSize h n (updDownload h (setChunkable c) (requestRename h f m))) = nextJob m"
  by (simp add: setSize_def updDownload_def setChunkable_def requestRename_def emit_def
      split: option.splits)

lemma head_limits:
  "mMaxChunks (setSize h n (updDownload h (setChunkable c) (requestRename h f m))) = mMaxChunks m"
  "mMaxWorkers (setSize h n (updDownload h (setChunkable c) (requestRename h f m))) = mMaxWorkers m"
  by (simp_all add: setSize_def updDownload_def setChunkable_def requestRename_def emit_def
      split: option.splits)

lemma chunkCount_pos: "0 < cs \<Longrightarrow> (0 < chunkCount cs fs offs) = (offs < fs)"
  using chunkCount_bounds [of cs fs offs] by (cases "chunkCount cs fs offs") auto

text \<open>
  C1, as amended. With at most one chunk so far, a file size above \<open>MIN_CHUNK_SIZE\<close> and
  a chunkable server, \<open>updateDownload\<close> returns, having appended \<open>n\<close> chunks before it
  ticks the scheduler, with
  \<open>cs = min(remaining, max(MIN_CHUNK_SIZE, ceil(remaining / max_chunks)))\<close> for
  \<open>remaining = file_size - MIN_CHUNK_SIZE\<close> and
  \<open>max_chunks = min(mMaxChunks, mMaxWorkers)\<close>: the \<open>k\<close>-th new chunk is in state \<open>Init\<close>,
  at offset \<open>MIN_CHUNK_SIZE + 1 + k * cs\<close>, of size \<open>min(cs, file_size - offset)\<close>, every
  such offset is below the file size and the next one is not; the chunks there were are
  untouched (with no chunk or no worker allowed the quotient is infinite and \<open>cs\<close> is
  \<open>remaining\<close>). Because the first offset is \<open>MIN_CHUNK_SIZE + 1\<close>, chunks are added exactly
  when the file size is above \<open>MIN_CHUNK_SIZE + 1\<close>: a file of \<open>MIN_CHUNK_SIZE + 1\<close> bytes
  keeps its one chunk. In every other case (more than one chunk already, a size of at
  most \<open>MIN_CHUNK_SIZE\<close>, a server that is not chunkable) no chunk is added and no job
  changes.
\<close>

theorem updateDownload_layout:
  assumes m3: "m3 = setSize h fileSize (updDownload h (setChunkable c) (requestRename h fileName m))"
    and cs: "cs = chunkSizeFor (fileSize - MIN_CHUNK_SIZE) (min (mMaxChunks m) (mMaxWorkers m))"
    and n: "n = chunkCount cs fileSize (MIN_CHUNK_SIZE + 1)"
    and m': "m' = fold (pushChunk h) (layout cs fileSize (MIN_CHUNK_SIZE + 1)) m3"
  shows "(length (chunks (downloads m h)) \<le> 1 \<and> MIN_CHUNK_SIZE < fileSize \<and> c \<longrightarrow>
            updateDownload h fileSize fileName c m = Some (tickQueue m')
          \<and> chunks (downloads m' h) = chunks (downloads m h) @ [nextJob m ..< nextJob m + n]
          \<and> (\<forall>k<n. jobs m' (nextJob m + k)
                       = newChunk (MIN_CHUNK_SIZE + 1 + int k * cs)
                           (min cs (fileSize - (MIN_CHUNK_SIZE + 1 + int k * cs)))
                    \<and> state (jobs m' (nextJob m + k)) = Init
                    \<and> MIN_CHUNK_SIZE + 1 + int k * cs < fileSize)
          \<and> fileSize \<le> MIN_CHUNK_SIZE + 1 + int n * cs
          \<and> (0 < n) = (MIN_CHUNK_SIZE + 1 < fileSize)
          \<and> (\<forall>r<nextJob m. jobs m' r = jobs m r))
       \<and> (\<not> (length (chunks (downloads m h)) \<le> 1 \<and> MIN_CHUNK_SIZE < fileSize \<and> c) \<longrightarrow>
            updateDownload h fileSize fileName c m = Some m3
          \<and> chunks (downloads m3 h) = chunks (downloads m h) \<and> jobs m3 = jobs m)
       \<and> (min (mMaxChunks m) (mMaxWorkers m) \<noteq> 0 \<longrightarrow>
            cs = min (fileSize - MIN_CHUNK_SIZE)
                   (max MIN_CHUNK_SIZE
                      \<lceil>real_of_int (fileSize - MIN_CHUNK_SIZE)
                          / real_of_int (min (mMaxChunks m) (mMaxWorkers m))\<rceil>))
       \<and> (min (mMaxChunks m) (mMaxWorkers m) = 0 \<longrightarrow> cs = fileSize - MIN_CHUNK_SIZE)"
proof (intro conjI impI)
  assume a: "length (chunks (downloads m h)) \<le> 1 \<and> MIN_CHUNK_SIZE < fileSize \<and> c"
  then have pos: "0 < cs" unfolding cs by (simp add: chunkSizeFor_pos)
  have len: "length (layout cs fileSize (MIN_CHUNK_SIZE + 1)) = n"
    by (simp add: n length_layout)
  show "updateDownload h fileSize fileName c m = Some (tickQueue m')"
    using a unfolding updateDownload_def m3 [symmetric] Let_def
    by (simp add: m3 head_chunks head_limits cs [symmetric] chunkLoop_layout [OF pos] m')
  show "chunks (downloads m' h) = chunks (downloads m h) @ [nextJob m ..< nextJob m + n]"
    unfolding m' fold_pushChunk_chunks len by (simp add: m3 head_chunks head_nextJob)
  show "\<forall>k<n. jobs m' (nextJob m + k)
                 = newChunk (MIN_CHUNK_SIZE + 1 + int k * cs)
                     (min cs (fileSize - (MIN_CHUNK_SIZE + 1 + int k * cs)))
              \<and> state (jobs m' (nextJob m + k)) = Init
              \<and> MIN_CHUNK_SIZE + 1 + int k * cs < fileSize"
  proof (intro allI impI)
    fix k assume k: "k < n"
    have "jobs m' (nextJob m3 + k) = layout cs fileSize (MIN_CHUNK_SIZE + 1) ! k"
      unfolding m' using k len by (intro fold_pushChunk_new) simp
    then have j: "jobs m' (nextJob m + k)
                 = newChunk (MIN_CHUNK_SIZE + 1 + int k * cs)
                     (min cs (fileSize - (MIN_CHUNK_SIZE + 1 + int k * cs)))"
      using k by (simp add: m3 head_nextJob layout_def n [symmetric])
    moreover have "MIN_CHUNK_SIZE + 1 + int k * cs < fileSize"
      using chunkCount_bounds [OF pos, of fileSize "MIN_CHUNK_SIZE + 1"] k n by blast
    ultimately show "jobs m' (nextJob m + k)
                 = newChunk (MIN_CHUNK_SIZE + 1 + int k * cs)
                     (min cs (fileSize - (MIN_CHUNK_SIZE + 1 + int k * cs)))
              \<and> state (jobs m' (nextJob m + k)) = Init
              \<and> MIN_CHUNK_SIZE + 1 + int k * cs < fileSize"
      by (simp add: newChunk_def)
  qed
  show "fileSize \<le> MIN_CHUNK_SIZE + 1 + int n * cs"
    using chunkCount_bounds [OF pos, of fileSize "MIN_CHUNK_SIZE + 1"] n by blast
  show "(0 < n) = (MIN_CHUNK_SIZE + 1 < fileSize)"
    unfolding n by (rule chunkCount_pos [OF pos])
  show "\<forall>r<nextJob m. jobs m' r = jobs m r"
    unfolding m' by (simp add: fold_pushChunk_old m3 head_nextJob head_jobs)
next
  assume a: "\<not> (length (chunks (downloads m h)) \<le> 1 \<and> MIN_CHUNK_SIZE < fileSize \<and> c)"
  then show "updateDownload h fileSize fileName c m = Some m3"
    unfolding updateDownload_def m3 [symmetric] Let_def
    by (auto simp: m3 head_chunks)
  show "chunks (downloads m3 h) = chunks (downloads m h)"
    by (simp add: m3 head_chunks)
  show "jobs m3 = jobs m"
    by (simp add: m3 head_jobs)
next
  assume "min (mMaxChunks m) (mMaxWorkers m) \<noteq> 0"
  then show "cs = min (fileSize - MIN_CHUNK_SIZE)
                   (max MIN_CHUNK_SIZE
                      \<lceil>real_of_int (fileSize - MIN_CHUNK_SIZE)
                          / real_of_int (min (mMaxChunks m) (mMaxWorkers m))\<rceil>)"
    unfolding cs by (rule chunkSizeFor_ceiling)
next
  assume "min (mMaxChunks m) (mMaxWorkers m) = 0"
  then show "cs = fileSize - MIN_CHUNK_SIZE"
    unfolding cs by (simp add: chunkSizeFor_def)
qed


text \<open>
  The 80 MiB file of the specification's second scenario, with four chunks and four
  workers allowed: three chunks of 20 MiB are added at 20 MiB + 1, 40 MiB + 1 and
  60 MiB + 1, the last one byte short.
\<close>

theorem updateDownload_layout_witness:
  "(let m' = fold (pushChunk 0) (layout 20971520 83886080 (MIN_CHUNK_SIZE + 1))
               (setSize 0 83886080
                  (updDownload 0 (setChunkable True) (requestRename 0 None example_manager)))
    in updateDownload 0 83886080 None True example_manager = Some (tickQueue m')
       \<and> chunks (downloads m' 0) = [0, 1, 2, 3]
       \<and> map (\<lambda>r. (offset (jobs m' r), size_j (jobs m' r), state (jobs m' r))) [1, 2, 3]
           = [(20971521, 20971520, Init), (41943041, 20971520, Init),
              (62914561, 20971519, Init)])"
proof -
  have cs: "chunkSizeFor (83886080 - MIN_CHUNK_SIZE)
              (min (mMaxChunks example_manager) (mMaxWorkers example_manager)) = 20971520"
    by (simp add: chunkSizeFor_def MIN_CHUNK_SIZE_def example_manager_def)
  have n: "chunkCount 20971520 83886080 (MIN_CHUNK_SIZE + 1) = 3"
    by (simp add: chunkCount_def MIN_CHUNK_SIZE_def)
  have pre: "length (chunks (downloads example_manager 0)) \<le> 1 \<and> MIN_CHUNK_SIZE < 83886080 \<and> True"
    by (simp add: example_manager_def example_download_def MIN_CHUNK_SIZE_def)
  note t = updateDownload_layout [OF refl cs [symmetric] n [symmetric] refl,
      of 0 True None]
  from t pre have
    "updateDownload 0 83886080 None True example_manager
       = Some (tickQueue (fold (pushChunk 0) (layout 20971520 83886080 (MIN_CHUNK_SIZE + 1))
               (setSize 0 83886080
                  (updDownload 0 (setChunkable True) (requestRename 0 None example_manager)))))"
    and "chunks (downloads (fold (pushChunk 0) (layout 20971520 83886080 (MIN_CHUNK_SIZE + 1))
               (setSize 0 83886080
                  (updDownload 0 (setChunkable True) (requestRename 0 None example_manager)))) 0)
         = chunks (downloads example_manager 0)
             @ [nextJob example_manager ..< nextJob example_manager + 3]"
    and "\<forall>k<3. jobs (fold (pushChunk 0) (layout 20971520 83886080 (MIN_CHUNK_SIZE + 1))
               (setSize 0 83886080
                  (updDownload 0 (setChunkable True) (requestRename 0 None example_manager))))
              (nextJob example_manager + k)
            = newChunk (MIN_CHUNK_SIZE + 1 + int k * 20971520)
                (min 20971520 (83886080 - (MIN_CHUNK_SIZE + 1 + int k * 20971520)))"
    by blast+
  then show ?thesis
    by (simp add: Let_def example_manager_def example_download_def newChunk_def
        MIN_CHUNK_SIZE_def eval_nat_numeral All_less_Suc upt_rec)
qed

text \<open>
  C1, as stated, fails: a chunkable file of \<open>MIN_CHUNK_SIZE + 1\<close> bytes is above
  \<open>MIN_CHUNK_SIZE\<close>, and the download does not grow: the loop starts at the file size
  and adds nothing.
\<close>

theorem updateDownload_one_byte_over:
  "MIN_CHUNK_SIZE < 20971521
   \<and> chunks (downloads example_manager 0) = [0]
   \<and> map_option (\<lambda>m'. chunks (downloads m' 0))
        (updateDownload 0 20971521 None True example_manager) = Some [0]
   \<and> map_option (\<lambda>m'. size_d (downloads m' 0))
        (updateDownload 0 20971521 None True example_manager) = Some (Some 20971521)"
  by code_simp

subsection \<open>\<open>enqueue\<close> with no URL\<close>

text \<open>
  C9, as amended. For every call to \<open>enqueue\<close> with an empty URL list the promise is
  rejected with a plain \<open>Error\<close> whose message is "No download urls", and the manager
  is left as it was: nothing is queued.
\<close>

theorem enqueue_empty_rejects:
  "enqueue nameOfUrl ident [] fileName destinationPath m = (Inl (Error ''No download urls''), m)"
  by (simp add: enqueue_def)

text \<open>
  C9, as stated, fails: the error of the rejection is not a \<open>DataInvalid\<close>.
\<close>

theorem enqueue_empty_not_DataInvalid:
  "\<not> (case fst (enqueue (\<lambda>u. Some u) ''dl-2'' [] None None example_manager) of
         Inl e \<Rightarrow> isDataInvalid e
       | Inr p \<Rightarrow> False)"
  by (simp add: enqueue_def)

text \<open>\<open>DataInvalid\<close> is what a first URL that does not parse is rejected with.\<close>

lemma enqueue_unparsable:
  "fst (enqueue (\<lambda>u. None) ''dl-2'' [''::''] None None example_manager)
     = Inl (DataInvalid ''failed to parse url ::'')"
  by (simp add: enqueue_def orElse_def)

subsection \<open>Stall detection\<close>





subsection \<open>What the scheduler changes\<close>

lemma scheduled_refl: "scheduled m m"
  by (simp add: scheduled_def)

lemma scheduled_trans:
  assumes "scheduled m1 m2" "scheduled m2 m3"
  shows "scheduled m1 m3"
proof -
  have j: "jobs m3 r = jobs m1 r
          \<or> (state (jobs m1 r) = Init
              \<and> jobs m3 r = (jobs m1 r)\<lparr>state := Running, workerId := workerId (jobs m3 r)\<rparr>)" for r
  proof -
    from assms(1) have a: "jobs m2 r = jobs m1 r
          \<or> (state (jobs m1 r) = Init
              \<and> jobs m2 r = (jobs m1 r)\<lparr>state := Running, workerId := workerId (jobs m2 r)\<rparr>)"
      unfolding scheduled_def by blast
    from assms(2) have b: "jobs m3 r = jobs m2 r
          \<or> (state (jobs m2 r) = Init
              \<and> jobs m3 r = (jobs m2 r)\<lparr>state := Running, workerId := workerId (jobs m3 r)\<rparr>)"
      unfolding scheduled_def by blast
    from a show ?thesis
    proof
      assume "jobs m2 r = jobs m1 r"
      with b show ?thesis by simp
    next
      assume c: "state (jobs m1 r) = Init
              \<and> jobs m2 r = (jobs m1 r)\<lparr>state := Running, workerId := workerId (jobs m2 r)\<rparr>"
      then have "state (jobs m2 r) = Running"
        by (metis job.select_convs(6) job.surjective job.update_convs(6) job.update_convs(9))
      with b have "jobs m3 r = jobs m2 r" by simp
      with c show ?thesis by simp
    qed
  qed
  have d: "downloads m3 h = (downloads m1 h)\<lparr>assemblerProm := assemblerProm (downloads m3 h)\<rparr>" for h
  proof -
    from assms(1) have a: "downloads m2 h = (downloads m1 h)\<lparr>assemblerProm := assemblerProm (downloads m2 h)\<rparr>"
      unfolding scheduled_def by blast
    from assms(2) have b: "downloads m3 h = (downloads m2 h)\<lparr>assemblerProm := assemblerProm (downloads m3 h)\<rparr>"
      unfolding scheduled_def by blast
    show ?thesis by (subst b, subst a) simp
  qed
  from assms obtain es1 es2 where "effects m2 = effects m1 @ es1" "effects m3 = effects m2 @ es2"
    unfolding scheduled_def by blast
  then have "effects m3 = effects m1 @ (es1 @ es2)" by simp
  then have e: "\<exists>es. effects m3 = effects m1 @ es" by blast
  from assms have rest: "workers m3 = workers m1 \<and> mBusyWorkers m3 = mBusyWorkers m1
     \<and> mSlowWorkers m3 = mSlowWorkers m1 \<and> mQueue m3 = mQueue m1
     \<and> mMaxWorkers m3 = mMaxWorkers m1 \<and> mMaxChunks m3 = mMaxChunks m1
     \<and> nextJob m3 = nextJob m1 \<and> nextDownload m3 = nextDownload m1"
    unfolding scheduled_def by simp
  show ?thesis
    unfolding scheduled_def using j d e rest by blast
qed

lemma scheduled_startJob: "scheduled m (startJob h r m)"
  by (simp add: scheduled_def startJob_def emit_def updDownload_def)

lemma scheduled_startWorker: "scheduled m (startWorker h m)"
proof (cases "find (\<lambda>r. state (jobs m r) = Init) (chunks (downloads m h))")
  case None
  then show ?thesis
    by (simp add: startWorker_def Let_def emit_def scheduled_def)
next
  case (Some r)
  then have i: "state (jobs m r) = Init" by (auto simp: find_Some_iff)
  let ?m1 = "updJob r (\<lambda>j. j\<lparr>state := Running, workerId := Some (mNextId m)\<rparr>)
               (emit [InitCounter (mNextId m)] (m\<lparr>mNextId := mNextId m + 1\<rparr>))"
  have "scheduled m ?m1"
    using i by (simp add: scheduled_def updJob_def emit_def)
  moreover have "scheduled ?m1 (startJob h r ?m1)" by (rule scheduled_startJob)
  ultimately have "scheduled m (startJob h r ?m1)" by (rule scheduled_trans)
  then show ?thesis
    using Some by (simp add: startWorker_def Let_def emit_def)
qed

lemma scheduled_startChunks: "scheduled m (snd (startChunks h n f m))"
proof (induction n arbitrary: f m)
  case 0
  then show ?case by (simp add: scheduled_refl)
next
  case (Suc n)
  show ?case
  proof (cases "f > 0")
    case True
    have "scheduled m (startWorker h m)" by (rule scheduled_startWorker)
    moreover have "scheduled (startWorker h m) (snd (startChunks h n (f - 1) (startWorker h m)))"
      by (rule Suc.IH)
    ultimately show ?thesis using True by (simp add: scheduled_trans)
  next
    case False
    then show ?thesis by (simp add: scheduled_refl)
  qed
qed

lemma scheduled_tickLoop: "scheduled m (tickLoop hs f m)"
proof (induction hs arbitrary: f m)
  case Nil
  then show ?case by (simp add: scheduled_refl)
next
  case (Cons h hs)
  show ?case
  proof (cases "f > 0")
    case True
    obtain f' m' where s: "startChunks h
                (countIf (chunks (downloads m h)) (\<lambda>r. state (jobs m r) = Init)) f m = (f', m')"
      by (cases "startChunks h
                (countIf (chunks (downloads m h)) (\<lambda>r. state (jobs m r) = Init)) f m")
    have "scheduled m m'"
      using scheduled_startChunks [of m h _ f] s by (metis snd_conv)
    moreover have "scheduled m' (tickLoop hs f' m')" by (rule Cons.IH)
    ultimately show ?thesis using True s by (simp add: scheduled_trans)
  next
    case False
    then show ?thesis by (simp add: scheduled_refl)
  qed
qed

lemma scheduled_tickQueue: "scheduled m (tickQueue m)"
  unfolding tickQueue_def by (rule scheduled_tickLoop)

lemma scheduled_job: "scheduled m m' \<Longrightarrow> state (jobs m r) \<noteq> Init \<Longrightarrow> jobs m' r = jobs m r"
  unfolding scheduled_def by blast

lemma scheduled_download:
  assumes "scheduled m m'"
  shows "error (downloads m' h) = error (downloads m h)"
    and "chunks (downloads m' h) = chunks (downloads m h)"
    and "tempName (downloads m' h) = tempName (downloads m h)"
    and "id_d (downloads m' h) = id_d (downloads m h)"
proof -
  from assms have
    d: "downloads m' h = (downloads m h)\<lparr>assemblerProm := assemblerProm (downloads m' h)\<rparr>"
    unfolding scheduled_def by blast
  show "error (downloads m' h) = error (downloads m h)" by (subst d) simp
  show "chunks (downloads m' h) = chunks (downloads m h)" by (subst d) simp
  show "tempName (downloads m' h) = tempName (downloads m h)" by (subst d) simp
  show "id_d (downloads m' h) = id_d (downloads m h)" by (subst d) simp
qed

lemma scheduled_effects: "scheduled m m' \<Longrightarrow> \<exists>es. effects m' = effects m @ es"
  unfolding scheduled_def by blast

subsection \<open>\<open>finishChunk\<close>\<close>

lemma find_active:
  assumes "s = Paused \<or> s = Finished"
  shows "(find (\<lambda>c. state (((jobs m)(r := (jobs m r)\<lparr>state := s\<rparr>)) c) \<notin> {Paused, Finished}) cs = None)
           = list_all (\<lambda>c. c = r \<or> state (jobs m c) = Paused \<or> state (jobs m c) = Finished) cs"
  using assms by (induction cs) auto

lemma before_tick_state:
  "state (jobs (finishChunk_before_tick h r i m) r)
     = (if i \<or> size_j (jobs m r) > 0 then Paused else Finished)"
  by (simp add: finishChunk_before_tick_def Let_def stopWorker_def emit_def updJob_def
      updDownload_def)

lemma before_tick_jobs:
  "jobs (finishChunk_before_tick h r i m)
     = (jobs m)(r := (jobs m r)\<lparr>state := (if i \<or> size_j (jobs m r) > 0 then Paused else Finished)\<rparr>)"
  by (simp add: finishChunk_before_tick_def Let_def stopWorker_def emit_def updJob_def
      updDownload_def)

lemma before_tick_error:
  "error (downloads (finishChunk_before_tick h r i m) h)
     = (error (downloads m h) \<or> (\<not> i \<and> size_j (jobs m r) > 0))"
  by (simp add: finishChunk_before_tick_def Let_def stopWorker_def emit_def updJob_def
      updDownload_def)

lemma before_tick_effects:
  "effects (finishChunk_before_tick h r i m)
     = effects m @ [StopCounter (workerId (jobs m r))]
         @ (if othersTerminal m h r
            then [AssemblerClose h, Later (T_finish h (tempName (downloads m h)))] else [])"
  by (auto simp: finishChunk_before_tick_def Let_def stopWorker_def emit_def updJob_def
      updDownload_def othersTerminal_def find_None_iff list_all_iff)

lemma before_tick_download:
  "chunks (downloads (finishChunk_before_tick h r i m) h') = chunks (downloads m h')"
  "tempName (downloads (finishChunk_before_tick h r i m) h') = tempName (downloads m h')"
  by (simp_all add: finishChunk_before_tick_def Let_def stopWorker_def emit_def updJob_def
      updDownload_def)





lemma finishChunk_jobs:
  "jobs (finishChunk h r i m) c = jobs m c
   \<or> (state (jobs m c) = Init \<and> c \<noteq> r
       \<and> jobs (finishChunk h r i m) c
           = (jobs m c)\<lparr>state := Running, workerId := workerId (jobs (finishChunk h r i m) c)\<rparr>)
   \<or> (c = r \<and> jobs (finishChunk h r i m) c
           = (jobs m c)\<lparr>state := (if i \<or> 0 < size_j (jobs m r) then Paused else Finished)\<rparr>)"
proof -
  let ?b = "finishChunk_before_tick h r i m"
  have sch: "scheduled ?b (finishChunk h r i m)"
    unfolding finishChunk_def by (rule scheduled_tickQueue)
  show ?thesis
  proof (cases "c = r")
    case True
    have "state (jobs ?b r) \<noteq> Init" by (simp add: before_tick_state)
    from scheduled_job [OF sch this] show ?thesis
      using True by (simp add: before_tick_jobs)
  next
    case False
    then have b: "jobs ?b c = jobs m c" by (simp add: before_tick_jobs)
    from sch have "jobs (finishChunk h r i m) c = jobs ?b c
          \<or> (state (jobs ?b c) = Init
              \<and> jobs (finishChunk h r i m) c
                  = (jobs ?b c)\<lparr>state := Running,
                                 workerId := workerId (jobs (finishChunk h r i m) c)\<rparr>)"
      unfolding scheduled_def by blast
    then show ?thesis using False b by auto
  qed
qed





subsection \<open>What ending a worker changes\<close>

lemma before_tick_frame:
  "workers (finishChunk_before_tick h r i m) = workers m"
  "mQueue (finishChunk_before_tick h r i m) = mQueue m"
  "set (mBusyWorkers (finishChunk_before_tick h r i m)) \<subseteq> set (mBusyWorkers m)"
  "id_d (downloads (finishChunk_before_tick h r i m) h') = id_d (downloads m h')"
  "mBusyWorkers (finishChunk_before_tick h r i m)
     = (case workerId (jobs m r) of None \<Rightarrow> mBusyWorkers m
        | Some w \<Rightarrow> removeAll w (mBusyWorkers m))"
  by (auto simp: finishChunk_before_tick_def Let_def stopWorker_def emit_def updJob_def
      updDownload_def split: option.splits)

lemma scheduled_frame:
  assumes "scheduled m m'"
  shows "workers m' = workers m" "mQueue m' = mQueue m" "mBusyWorkers m' = mBusyWorkers m"
  using assms unfolding scheduled_def by simp_all

lemma finishChunk_frame:
  "workers (finishChunk h r i m) = workers m"
  "mQueue (finishChunk h r i m) = mQueue m"
  "set (mBusyWorkers (finishChunk h r i m)) \<subseteq> set (mBusyWorkers m)"
  "id_d (downloads (finishChunk h r i m) h') = id_d (downloads m h')"
  "chunks (downloads (finishChunk h r i m) h') = chunks (downloads m h')"
  "mBusyWorkers (finishChunk h r i m)
     = (case workerId (jobs m r) of None \<Rightarrow> mBusyWorkers m
        | Some w \<Rightarrow> removeAll w (mBusyWorkers m))"
proof -
  let ?b = "finishChunk_before_tick h r i m"
  have sch: "scheduled ?b (finishChunk h r i m)"
    unfolding finishChunk_def by (rule scheduled_tickQueue)
  show "workers (finishChunk h r i m) = workers m"
    using scheduled_frame(1) [OF sch] by (simp add: before_tick_frame)
  show "mQueue (finishChunk h r i m) = mQueue m"
    using scheduled_frame(2) [OF sch] by (simp add: before_tick_frame)
  show "set (mBusyWorkers (finishChunk h r i m)) \<subseteq> set (mBusyWorkers m)"
    using scheduled_frame(3) [OF sch] before_tick_frame(3) [of h r i m] by simp
  show "id_d (downloads (finishChunk h r i m) h') = id_d (downloads m h')"
    using scheduled_download(4) [OF sch] by (simp add: before_tick_frame)
  show "chunks (downloads (finishChunk h r i m) h') = chunks (downloads m h')"
    using scheduled_download(2) [OF sch] by (simp add: before_tick_download)
  show "mBusyWorkers (finishChunk h r i m)
     = (case workerId (jobs m r) of None \<Rightarrow> mBusyWorkers m
        | Some w \<Rightarrow> removeAll w (mBusyWorkers m))"
    using scheduled_frame(3) [OF sch] by (simp add: before_tick_frame)
qed

lemma finishChunk_effects: "\<exists>es. effects (finishChunk h r i m) = effects m @ es"
proof -
  have "scheduled (finishChunk_before_tick h r i m) (finishChunk h r i m)"
    unfolding finishChunk_def by (rule scheduled_tickQueue)
  from scheduled_effects [OF this] show ?thesis
    by (auto simp: before_tick_effects)
qed

lemma ending_frame:
  "jobs (ending w m) = jobs m"
  "downloads (ending w m) = downloads m"
  "mQueue (ending w m) = mQueue m"
  "mBusyWorkers (ending w m) = mBusyWorkers m"
  "mJob (workers (ending w m) w') = mJob (workers m w')"
  "mDownload (workers (ending w m) w') = mDownload (workers m w')"
  "mEnded (workers (ending w m) w)"
  "w' \<noteq> w \<Longrightarrow> workers (ending w m) w' = workers m w'"
  by (simp_all add: ending_def updWorker_def requestAbort_def emit_def)

lemma abort_live:
  "\<not> mEnded (workers m w) \<Longrightarrow>
     abort w p m = (True, finishChunk (mDownload (workers m w)) (mJob (workers m w)) p (ending w m))"
  by (simp add: abort_def Let_def mFinishCB_def ending_def updWorker_def requestAbort_def
      emit_def)

lemma abort_ended: "mEnded (workers m w) \<Longrightarrow> abort w p m = (False, m)"
  by (simp add: abort_def)

lemma pause_worker_cases:
  "pause_worker w m = m
   \<or> (\<not> mEnded (workers m w)
       \<and> (\<exists>f es. pause_worker w m
             = emit es (updWorker w f
                 (finishChunk (mDownload (workers m w)) (mJob (workers m w)) True (ending w m)))
           \<and> (\<forall>k. mJob (f k) = mJob k \<and> mDownload (f k) = mDownload k
                    \<and> mEnded (f k) = mEnded k)))"
proof (cases "mEnded (workers m w)")
  case True
  then show ?thesis by (simp add: pause_worker_def abort_ended)
next
  case False
  let ?m1 = "finishChunk (mDownload (workers m w)) (mJob (workers m w)) True (ending w m)"
  show ?thesis
  proof (cases "mResponse (workers ?m1 w) \<noteq> None")
    case True
    have "pause_worker w m = emit [ResponsePause w]
            (updWorker w (\<lambda>k. k\<lparr>mResponse := Some True\<rparr>) ?m1)"
      using False True by (simp add: pause_worker_def abort_live)
    moreover have "\<forall>k. mJob (k\<lparr>mResponse := Some True\<rparr>) = mJob k
                     \<and> mDownload (k\<lparr>mResponse := Some True\<rparr>) = mDownload k
                     \<and> mEnded (k\<lparr>mResponse := Some True\<rparr>) = mEnded k"
      by simp
    ultimately show ?thesis using False by blast
  next
    case nr: False
    have "pause_worker w m = emit [] (updWorker w (\<lambda>k. k) ?m1)"
      using False nr by (simp add: pause_worker_def abort_live emit_def updWorker_def)
    then show ?thesis using False by blast
  qed
qed

lemma pauseStep_jobs:
  assumes "state (jobs m c') \<noteq> Init"
  shows "jobs (pauseStep c w m) c' = jobs m c'
         \<or> (c' = mJob (workers m w) \<and> jobs (pauseStep c w m) c' = (jobs m c')\<lparr>state := Paused\<rparr>)"
proof -
  have st: "jobs (stopWorker x y) = jobs y" for x y
    by (simp add: stopWorker_def emit_def)
  from pause_worker_cases [of w m] show ?thesis
  proof
    assume "pause_worker w m = m"
    then show ?thesis by (simp add: pauseStep_def st)
  next
    assume "\<not> mEnded (workers m w)
       \<and> (\<exists>f es. pause_worker w m
             = emit es (updWorker w f
                 (finishChunk (mDownload (workers m w)) (mJob (workers m w)) True (ending w m)))
           \<and> (\<forall>k. mJob (f k) = mJob k \<and> mDownload (f k) = mDownload k
                    \<and> mEnded (f k) = mEnded k))"
    then obtain f es where p: "pause_worker w m
             = emit es (updWorker w f
                 (finishChunk (mDownload (workers m w)) (mJob (workers m w)) True (ending w m)))"
      by blast
    have j: "jobs (pauseStep c w m) c'
          = jobs (finishChunk (mDownload (workers m w)) (mJob (workers m w)) True (ending w m)) c'"
      by (simp add: pauseStep_def st p emit_def updWorker_def)
    from finishChunk_jobs [of "mDownload (workers m w)" "mJob (workers m w)" True "ending w m" c']
    show ?thesis
      using assms unfolding j by (auto simp: ending_frame)
  qed
qed

lemma pauseStep_frame:
  "mQueue (pauseStep c w m) = mQueue m"
  "set (mBusyWorkers (pauseStep c w m)) \<subseteq> set (mBusyWorkers m)"
  "id_d (downloads (pauseStep c w m) h) = id_d (downloads m h)"
  "chunks (downloads (pauseStep c w m) h) = chunks (downloads m h)"
  "mJob (workers (pauseStep c w m) w') = mJob (workers m w')"
  "mEnded (workers m w') \<Longrightarrow> mEnded (workers (pauseStep c w m) w')"
  "mEnded (workers (pauseStep c w m) w)"
proof -
  have st: "mQueue (stopWorker x y) = mQueue y" "downloads (stopWorker x y) = downloads y"
    "workers (stopWorker x y) = workers y"
    "set (mBusyWorkers (stopWorker x y)) \<subseteq> set (mBusyWorkers y)" for x y
    by (auto simp: stopWorker_def emit_def split: option.splits)
  have all: "mQueue (pauseStep c w m) = mQueue m
     \<and> set (mBusyWorkers (pauseStep c w m)) \<subseteq> set (mBusyWorkers m)
     \<and> id_d (downloads (pauseStep c w m) h) = id_d (downloads m h)
     \<and> chunks (downloads (pauseStep c w m) h) = chunks (downloads m h)
     \<and> mJob (workers (pauseStep c w m) w') = mJob (workers m w')
     \<and> (mEnded (workers m w') \<longrightarrow> mEnded (workers (pauseStep c w m) w'))
     \<and> mEnded (workers (pauseStep c w m) w)"
    using pause_worker_cases [of w m]
  proof
    assume e: "pause_worker w m = m"
    then have "mEnded (workers m w)"
      by (cases "mEnded (workers m w)")
        (auto simp: pause_worker_def abort_live split: if_splits
          dest: arg_cong [where f = "\<lambda>x. mEnded (workers x w)"]
          simp: finishChunk_frame ending_frame emit_def updWorker_def)
    then show ?thesis
      using st(4) [of "workerId (jobs m c)" m] by (simp add: pauseStep_def e st)
  next
    assume "\<not> mEnded (workers m w)
       \<and> (\<exists>f es. pause_worker w m
             = emit es (updWorker w f
                 (finishChunk (mDownload (workers m w)) (mJob (workers m w)) True (ending w m)))
           \<and> (\<forall>k. mJob (f k) = mJob k \<and> mDownload (f k) = mDownload k
                    \<and> mEnded (f k) = mEnded k))"
    then obtain f es where p: "pause_worker w m
             = emit es (updWorker w f
                 (finishChunk (mDownload (workers m w)) (mJob (workers m w)) True (ending w m)))"
      and f: "\<And>k. mJob (f k) = mJob k" "\<And>k. mEnded (f k) = mEnded k"
      by blast
    let ?fc = "finishChunk (mDownload (workers m w)) (mJob (workers m w)) True (ending w m)"
    have b: "set (mBusyWorkers (pauseStep c w m)) \<subseteq> set (mBusyWorkers ?fc)"
      using st(4) [of "workerId (jobs (pause_worker w m) c)" "pause_worker w m"]
      by (simp add: pauseStep_def p emit_def updWorker_def)
    have e: "mEnded (workers m w') \<longrightarrow> mEnded (workers (ending w m) w')"
      by (cases "w' = w") (simp_all add: ending_frame)
    show ?thesis
      using b finishChunk_frame(3) [of "mDownload (workers m w)" "mJob (workers m w)" True "ending w m"] e
      by (simp add: pauseStep_def st p emit_def updWorker_def f finishChunk_frame ending_frame)
  qed
  from all show "mQueue (pauseStep c w m) = mQueue m"
    "set (mBusyWorkers (pauseStep c w m)) \<subseteq> set (mBusyWorkers m)"
    "id_d (downloads (pauseStep c w m) h) = id_d (downloads m h)"
    "chunks (downloads (pauseStep c w m) h) = chunks (downloads m h)"
    "mJob (workers (pauseStep c w m) w') = mJob (workers m w')"
    "mEnded (workers m w') \<Longrightarrow> mEnded (workers (pauseStep c w m) w')"
    "mEnded (workers (pauseStep c w m) w)"
    by simp_all
qed

lemma pause_rel_refl: "pause_rel m m"
  by (simp add: pause_rel_def)

lemma pause_rel_trans:
  assumes "pause_rel m1 m2" "pause_rel m2 m3"
  shows "pause_rel m1 m3"
proof -
  have j: "jobs m3 c = jobs m1 c \<or> jobs m3 c = (jobs m1 c)\<lparr>state := Paused\<rparr>"
    if "state (jobs m1 c) \<noteq> Init" for c
  proof -
    from assms(1) that
    have a: "jobs m2 c = jobs m1 c \<or> jobs m2 c = (jobs m1 c)\<lparr>state := Paused\<rparr>"
      unfolding pause_rel_def by blast
    then have "state (jobs m2 c) \<noteq> Init" using that by auto
    with assms(2)
    have b: "jobs m3 c = jobs m2 c \<or> jobs m3 c = (jobs m2 c)\<lparr>state := Paused\<rparr>"
      unfolding pause_rel_def by blast
    from a b show ?thesis by auto
  qed
  from assms have rest: "(\<forall>w. mJob (workers m3 w) = mJob (workers m1 w))
   \<and> (\<forall>w. mEnded (workers m1 w) \<longrightarrow> mEnded (workers m3 w))
   \<and> set (mBusyWorkers m3) \<subseteq> set (mBusyWorkers m1)
   \<and> mQueue m3 = mQueue m1
   \<and> (\<forall>h. id_d (downloads m3 h) = id_d (downloads m1 h)
          \<and> chunks (downloads m3 h) = chunks (downloads m1 h))"
    unfolding pause_rel_def by auto
  show ?thesis
    unfolding pause_rel_def using j rest by blast
qed

lemma pause_rel_pauseStep: "pause_rel m (pauseStep c w m)"
  unfolding pause_rel_def
proof (intro conjI allI impI)
  fix c' assume "state (jobs m c') \<noteq> Init"
  from pauseStep_jobs [OF this, of c w]
  show "jobs (pauseStep c w m) c' = jobs m c'
        \<or> jobs (pauseStep c w m) c' = (jobs m c')\<lparr>state := Paused\<rparr>"
    by blast
qed (simp_all add: pauseStep_frame)

lemma pauseChunk_unfold:
  "pauseChunk c (acc, m) =
     (if unfinished m c
      then (acc @ [toStoredChunk (jobs m c)],
            (case workerId (jobs m c) of
               Some w \<Rightarrow> (if w \<in> set (mBusyWorkers m) then pauseStep c w m else m)
             | None \<Rightarrow> m))
      else (acc, m))"
  by (auto simp: pauseChunk_def toStoredChunk_def pauseStep_def Let_def unfinished_def
      split: option.splits)

lemma pause_rel_pauseChunk: "pause_rel m (snd (pauseChunk c (acc, m)))"
  by (simp add: pauseChunk_unfold pause_rel_refl pause_rel_pauseStep split: option.splits)

lemma pause_rel_fold: "pause_rel m (snd (fold pauseChunk cs (acc, m)))"
proof (induction cs arbitrary: acc m)
  case Nil
  then show ?case by (simp add: pause_rel_refl)
next
  case (Cons c cs)
  obtain acc' m' where p: "pauseChunk c (acc, m) = (acc', m')"
    by (cases "pauseChunk c (acc, m)")
  have "pause_rel m m'" using pause_rel_pauseChunk [of m c acc] p by simp
  moreover have "pause_rel m' (snd (fold pauseChunk cs (acc', m')))" by (rule Cons.IH)
  ultimately show ?case using p by (simp add: pause_rel_trans)
qed

lemma pauseStep_busy:
  assumes "mJob (workers m w) = c" "workerId (jobs m c) = Some w" "state (jobs m c) \<noteq> Init"
  shows "mBusyWorkers (pauseStep c w m) = removeAll w (mBusyWorkers m)"
proof -
  have st: "mBusyWorkers (stopWorker (Some w) y) = removeAll w (mBusyWorkers y)" for y
    by (simp add: stopWorker_def emit_def)
  from pauseStep_jobs [OF assms(3), of c w]
  have wid: "workerId (jobs (pauseStep c w m) c) = Some w"
    using assms(2) by auto
  have js: "jobs (pauseStep c w m) = jobs (pause_worker w m)"
    by (simp add: pauseStep_def stopWorker_def emit_def Let_def)
  have ps: "pauseStep c w m = stopWorker (Some w) (pause_worker w m)"
    using wid unfolding js by (simp add: pauseStep_def Let_def)
  from pause_worker_cases [of w m] show ?thesis
  proof
    assume "pause_worker w m = m"
    then show ?thesis by (simp add: ps st)
  next
    assume "\<not> mEnded (workers m w)
       \<and> (\<exists>f es. pause_worker w m
             = emit es (updWorker w f
                 (finishChunk (mDownload (workers m w)) (mJob (workers m w)) True (ending w m)))
           \<and> (\<forall>k. mJob (f k) = mJob k \<and> mDownload (f k) = mDownload k
                    \<and> mEnded (f k) = mEnded k))"
    then obtain f es where p: "pause_worker w m
             = emit es (updWorker w f
                 (finishChunk (mDownload (workers m w)) (mJob (workers m w)) True (ending w m)))"
      by blast
    show ?thesis
      unfolding ps st p
      by (simp add: emit_def updWorker_def finishChunk_frame(6) ending_frame assms)
  qed
qed

text \<open>One round of the second loop of \<open>pause\<close>, under the assumptions of the induction.\<close>

lemma pauseChunk_step:
  assumes c: "state (jobs m c) \<noteq> Init"
    and wf: "\<forall>w. workerId (jobs m c) = Some w \<longrightarrow> w \<in> set (mBusyWorkers m)
                \<longrightarrow> mJob (workers m w) = c"
    and m': "m' = snd (pauseChunk c (acc, m))"
  shows "\<forall>c'. state (jobs m c') \<noteq> Init \<longrightarrow>
            jobs m' c' = jobs m c'
            \<or> (c' = c \<and> unfinished m c \<and> jobs m' c' = (jobs m c')\<lparr>state := Paused\<rparr>)"
    and "\<forall>w. unfinished m c \<and> workerId (jobs m c) = Some w \<and> w \<in> set (mBusyWorkers m)
            \<longrightarrow> mEnded (workers m' w) \<and> mBusyWorkers m' = removeAll w (mBusyWorkers m)"
    and "(\<forall>w. \<not> (unfinished m c \<and> workerId (jobs m c) = Some w \<and> w \<in> set (mBusyWorkers m)))
            \<longrightarrow> m' = m"
proof -
  show "\<forall>c'. state (jobs m c') \<noteq> Init \<longrightarrow>
            jobs m' c' = jobs m c'
            \<or> (c' = c \<and> unfinished m c \<and> jobs m' c' = (jobs m c')\<lparr>state := Paused\<rparr>)"
  proof (intro allI impI)
    fix c' assume n: "state (jobs m c') \<noteq> Init"
    show "jobs m' c' = jobs m c'
            \<or> (c' = c \<and> unfinished m c \<and> jobs m' c' = (jobs m c')\<lparr>state := Paused\<rparr>)"
    proof (cases "unfinished m c")
      case False
      then show ?thesis by (simp add: m' pauseChunk_unfold)
    next
      case True
      show ?thesis
      proof (cases "workerId (jobs m c)")
        case None
        then show ?thesis using True by (simp add: m' pauseChunk_unfold)
      next
        case (Some w)
        show ?thesis
        proof (cases "w \<in> set (mBusyWorkers m)")
          case False
          then show ?thesis using True Some by (simp add: m' pauseChunk_unfold)
        next
          case busy: True
          with wf Some have "mJob (workers m w) = c" by blast
          with pauseStep_jobs [OF n, of c w] show ?thesis
            using True Some busy by (auto simp: m' pauseChunk_unfold)
        qed
      qed
    qed
  qed
  show "\<forall>w. unfinished m c \<and> workerId (jobs m c) = Some w \<and> w \<in> set (mBusyWorkers m)
            \<longrightarrow> mEnded (workers m' w) \<and> mBusyWorkers m' = removeAll w (mBusyWorkers m)"
  proof (intro allI impI)
    fix w
    assume a: "unfinished m c \<and> workerId (jobs m c) = Some w \<and> w \<in> set (mBusyWorkers m)"
    with wf have j: "mJob (workers m w) = c" by blast
    have "m' = pauseStep c w m" using a by (simp add: m' pauseChunk_unfold)
    then show "mEnded (workers m' w) \<and> mBusyWorkers m' = removeAll w (mBusyWorkers m)"
      using a pauseStep_busy [OF j _ c] by (simp add: pauseStep_frame(7))
  qed
  show "(\<forall>w. \<not> (unfinished m c \<and> workerId (jobs m c) = Some w \<and> w \<in> set (mBusyWorkers m)))
            \<longrightarrow> m' = m"
    by (auto simp: m' pauseChunk_unfold split: option.splits)
qed

lemma fold_pauseChunk:
  assumes "\<forall>c \<in> set cs. state (jobs m c) \<noteq> Init"
    and "\<forall>c \<in> set cs. \<forall>w. workerId (jobs m c) = Some w \<longrightarrow> w \<in> set (mBusyWorkers m)
            \<longrightarrow> mJob (workers m w) = c"
  shows "fst (fold pauseChunk cs (acc, m))
           = acc @ map (\<lambda>c. toStoredChunk (jobs m c)) (filter (unfinished m) cs)
       \<and> (\<forall>c \<in> set cs. \<forall>w. unfinished m c \<and> workerId (jobs m c) = Some w
              \<and> w \<in> set (mBusyWorkers m)
            \<longrightarrow> mEnded (workers (snd (fold pauseChunk cs (acc, m))) w)
                \<and> w \<notin> set (mBusyWorkers (snd (fold pauseChunk cs (acc, m)))))"
  using assms
proof (induction cs arbitrary: acc m)
  case Nil
  then show ?case by simp
next
  case (Cons c cs)
  let ?m' = "snd (pauseChunk c (acc, m))"
  let ?acc' = "fst (pauseChunk c (acc, m))"
  let ?end = "snd (fold pauseChunk cs (?acc', ?m'))"
  have c: "state (jobs m c) \<noteq> Init" using Cons.prems(1) by simp
  have wfc: "\<forall>w. workerId (jobs m c) = Some w \<longrightarrow> w \<in> set (mBusyWorkers m)
                \<longrightarrow> mJob (workers m w) = c"
    using Cons.prems(2) by simp
  note step = pauseChunk_step [OF c wfc refl, of acc]
  have rel: "pause_rel m ?m'" by (rule pause_rel_pauseChunk)
  have rel2: "pause_rel ?m' ?end"
    using pause_rel_fold [of ?m' cs ?acc'] by simp
  have same: "toStoredChunk (jobs ?m' c') = toStoredChunk (jobs m c')
              \<and> unfinished ?m' c' = unfinished m c'
              \<and> workerId (jobs ?m' c') = workerId (jobs m c')
              \<and> state (jobs ?m' c') \<noteq> Init"
    if "c' \<in> set cs" for c'
  proof -
    have "state (jobs m c') \<noteq> Init" using Cons.prems(1) that by simp
    with step(1) have "jobs ?m' c' = jobs m c'
            \<or> (c' = c \<and> unfinished m c \<and> jobs ?m' c' = (jobs m c')\<lparr>state := Paused\<rparr>)"
      by blast
    then show ?thesis
      using \<open>state (jobs m c') \<noteq> Init\<close>
      by (auto simp: toStoredChunk_def unfinished_def)
  qed
  have busy': "set (mBusyWorkers ?m') \<subseteq> set (mBusyWorkers m)"
    using rel unfolding pause_rel_def by blast
  have mjob: "mJob (workers ?m' w) = mJob (workers m w)" for w
    using rel unfolding pause_rel_def by blast
  have p1: "\<forall>c' \<in> set cs. state (jobs ?m' c') \<noteq> Init"
    using same by blast
  have p2: "\<forall>c' \<in> set cs. \<forall>w. workerId (jobs ?m' c') = Some w
              \<longrightarrow> w \<in> set (mBusyWorkers ?m') \<longrightarrow> mJob (workers ?m' w) = c'"
    using same busy' mjob Cons.prems(2) by (metis list.set_intros(2) subsetD)
  note IH = Cons.IH [OF p1 p2, of ?acc']
  have f: "fold pauseChunk (c # cs) (acc, m) = fold pauseChunk cs (?acc', ?m')"
    by simp
  have acc': "?acc' = acc @ (if unfinished m c then [toStoredChunk (jobs m c)] else [])"
    by (simp add: pauseChunk_unfold)
  have m1: "map (\<lambda>c. toStoredChunk (jobs ?m' c)) (filter (unfinished ?m') cs)
            = map (\<lambda>c. toStoredChunk (jobs m c)) (filter (unfinished m) cs)"
  proof -
    have "filter (unfinished ?m') cs = filter (unfinished m) cs"
      using same by (intro filter_cong) auto
    moreover have "map (\<lambda>c. toStoredChunk (jobs ?m' c)) (filter (unfinished m) cs)
            = map (\<lambda>c. toStoredChunk (jobs m c)) (filter (unfinished m) cs)"
      using same by (intro map_cong) auto
    ultimately show ?thesis by simp
  qed
  have first: "fst (fold pauseChunk (c # cs) (acc, m))
           = acc @ map (\<lambda>c. toStoredChunk (jobs m c)) (filter (unfinished m) (c # cs))"
    unfolding f using IH m1 acc' by simp
  have second: "mEnded (workers ?end w) \<and> w \<notin> set (mBusyWorkers ?end)"
    if c': "c' \<in> set (c # cs)" and u: "unfinished m c'"
       and w: "workerId (jobs m c') = Some w" and b: "w \<in> set (mBusyWorkers m)" for c' w
  proof (cases "unfinished m c \<and> workerId (jobs m c) = Some w")
    case True
    with step(2) b have "mEnded (workers ?m' w)"
      and "mBusyWorkers ?m' = removeAll w (mBusyWorkers m)"
      by blast+
    then have "mEnded (workers ?m' w)" "w \<notin> set (mBusyWorkers ?m')" by simp_all
    with rel2 show ?thesis unfolding pause_rel_def by blast
  next
    case False
    then have "c' \<noteq> c" using u w by auto
    then have in_cs: "c' \<in> set cs" using c' by simp
    have keep: "w \<in> set (mBusyWorkers ?m')"
    proof (cases "\<exists>w'. unfinished m c \<and> workerId (jobs m c) = Some w'
                        \<and> w' \<in> set (mBusyWorkers m)")
      case True
      then obtain w' where w': "unfinished m c \<and> workerId (jobs m c) = Some w'
                        \<and> w' \<in> set (mBusyWorkers m)" by blast
      with False have "w' \<noteq> w" by auto
      moreover from step(2) w' have "mBusyWorkers ?m' = removeAll w' (mBusyWorkers m)"
        by blast
      ultimately show ?thesis using b by simp
    next
      case False
      with step(3) have "?m' = m" by blast
      then show ?thesis using b by simp
    qed
    from IH in_cs same [OF in_cs] u w keep show ?thesis by (metis)
  qed
  show ?case
    unfolding f [symmetric] using first second
    by (metis (mono_tags, lifting) f)
qed

lemma pauseInit_Cons:
  "pauseInit (c # cs) m
     = pauseInit cs (if state (jobs m c) = Init
                     then updJob c (\<lambda>j. j\<lparr>state := Paused\<rparr>) m else m)"
  by (simp add: pauseInit_def)

lemma pauseInit_jobs:
  "jobs (pauseInit cs m) c'
     = (if c' \<in> set cs \<and> state (jobs m c') = Init
        then (jobs m c')\<lparr>state := Paused\<rparr> else jobs m c')"
proof (induction cs arbitrary: m)
  case Nil
  then show ?case by (simp add: pauseInit_def)
next
  case (Cons c cs)
  show ?case
    unfolding pauseInit_Cons Cons.IH by (auto simp: updJob_def)
qed

lemma pauseInit_frame:
  "downloads (pauseInit cs m) = downloads m"
  "workers (pauseInit cs m) = workers m"
  "mBusyWorkers (pauseInit cs m) = mBusyWorkers m"
  "mQueue (pauseInit cs m) = mQueue m"
proof (induction cs arbitrary: m)
  case Nil
  {
    case 1 show ?case by (simp add: pauseInit_def)
  next
    case 2 show ?case by (simp add: pauseInit_def)
  next
    case 3 show ?case by (simp add: pauseInit_def)
  next
    case 4 show ?case by (simp add: pauseInit_def)
  }
next
  case (Cons c cs)
  {
    case 1 show ?case unfolding pauseInit_Cons Cons.IH by (simp add: updJob_def)
  next
    case 2 show ?case unfolding pauseInit_Cons Cons.IH by (simp add: updJob_def)
  next
    case 3 show ?case unfolding pauseInit_Cons Cons.IH by (simp add: updJob_def)
  next
    case 4 show ?case unfolding pauseInit_Cons Cons.IH by (simp add: updJob_def)
  }
qed

subsection \<open>\<open>pause\<close>\<close>

lemma finishChunk_job_r:
  "jobs (finishChunk h r i m) r
     = (jobs m r)\<lparr>state := (if i \<or> 0 < size_j (jobs m r) then Paused else Finished)\<rparr>"
proof -
  let ?b = "finishChunk_before_tick h r i m"
  have sch: "scheduled ?b (finishChunk h r i m)"
    unfolding finishChunk_def by (rule scheduled_tickQueue)
  have "state (jobs ?b r) \<noteq> Init" by (simp add: before_tick_state)
  from scheduled_job [OF sch this] show ?thesis by (simp add: before_tick_jobs)
qed

lemma finishChunk_interrupted_error:
  "error (downloads (finishChunk h r True m) h') = error (downloads m h')"
proof -
  let ?b = "finishChunk_before_tick h r True m"
  have sch: "scheduled ?b (finishChunk h r True m)"
    unfolding finishChunk_def by (rule scheduled_tickQueue)
  have "downloads ?b = downloads m"
    by (simp add: finishChunk_before_tick_def Let_def stopWorker_def emit_def updJob_def)
  with scheduled_download(1) [OF sch, of h'] show ?thesis by simp
qed

lemma ending_effects:
  "effects (ending w m)
     = effects m @ (if mRequest (workers m w) \<noteq> None then [RequestAbort w] else [])"
  by (simp add: ending_def updWorker_def requestAbort_def emit_def)

lemma ending_response: "mResponse (workers (ending w m) w') = mResponse (workers m w')"
  by (simp add: ending_def updWorker_def requestAbort_def emit_def)

lemma pause_worker_live:
  assumes "\<not> mEnded (workers m w)"
  shows "pause_worker w m
           = (if mResponse (workers m w) \<noteq> None
              then emit [ResponsePause w]
                     (updWorker w (\<lambda>k. k\<lparr>mResponse := Some True\<rparr>)
                        (finishChunk (mDownload (workers m w)) (mJob (workers m w)) True
                           (ending w m)))
              else finishChunk (mDownload (workers m w)) (mJob (workers m w)) True
                     (ending w m))"
  using assms
  by (simp add: pause_worker_def abort_live finishChunk_frame(1) ending_response)

lemma pause_worker_ended: "mEnded (workers m w) \<Longrightarrow> pause_worker w m = m"
  by (simp add: pause_worker_def abort_ended)

text \<open>What \<open>pause\<close> does to the worker \<open>w\<close> of the chunk \<open>c\<close>, where it has not ended.\<close>

lemma pauseStep_live:
  assumes live: "\<not> mEnded (workers m w)" and job: "mJob (workers m w) = c"
    and wid: "workerId (jobs m c) = Some w"
  shows "state (jobs (pauseStep c w m) c) = Paused"
    and "\<exists>es. effects (pauseStep c w m) = effects m @ es
            \<and> StopCounter (Some w) \<in> set es
            \<and> (mRequest (workers m w) \<noteq> None \<longrightarrow> RequestAbort w \<in> set es)
            \<and> (mResponse (workers m w) \<noteq> None \<longrightarrow> ResponsePause w \<in> set es)"
proof -
  let ?fc = "finishChunk (mDownload (workers m w)) c True (ending w m)"
  let ?pw = "pause_worker w m"
  have pw: "?pw = (if mResponse (workers m w) \<noteq> None
              then emit [ResponsePause w]
                     (updWorker w (\<lambda>k. k\<lparr>mResponse := Some True\<rparr>) ?fc)
              else ?fc)"
    using pause_worker_live [OF live] job by simp
  have jfc: "jobs ?fc c = (jobs m c)\<lparr>state := Paused\<rparr>"
    by (simp add: finishChunk_job_r ending_frame)
  have jpw: "jobs ?pw = jobs ?fc"
    unfolding pw by (simp add: emit_def updWorker_def)
  have ps: "pauseStep c w m = stopWorker (Some w) ?pw"
    using wid by (simp add: pauseStep_def Let_def jpw jfc)
  show "state (jobs (pauseStep c w m) c) = Paused"
    unfolding ps by (simp add: stopWorker_def emit_def jpw jfc)
  from finishChunk_effects [of "mDownload (workers m w)" c True "ending w m"]
  obtain es1 where es1: "effects ?fc = effects (ending w m) @ es1" by blast
  have epw: "effects ?pw = effects ?fc
               @ (if mResponse (workers m w) \<noteq> None then [ResponsePause w] else [])"
    unfolding pw by (simp add: emit_def updWorker_def)
  have "effects (pauseStep c w m)
          = effects m @ ((if mRequest (workers m w) \<noteq> None then [RequestAbort w] else [])
              @ es1 @ (if mResponse (workers m w) \<noteq> None then [ResponsePause w] else [])
              @ [StopCounter (Some w)])"
    unfolding ps by (simp add: stopWorker_def emit_def epw es1 ending_effects)
  then show "\<exists>es. effects (pauseStep c w m) = effects m @ es
            \<and> StopCounter (Some w) \<in> set es
            \<and> (mRequest (workers m w) \<noteq> None \<longrightarrow> RequestAbort w \<in> set es)
            \<and> (mResponse (workers m w) \<noteq> None \<longrightarrow> ResponsePause w \<in> set es)"
    by (intro exI [where x = "(if mRequest (workers m w) \<noteq> None then [RequestAbort w] else [])
              @ es1 @ (if mResponse (workers m w) \<noteq> None then [ResponsePause w] else [])
              @ [StopCounter (Some w)]"]) simp
qed

text \<open>Where the worker had ended, only the slot is released.\<close>

lemma pauseStep_ended:
  assumes "mEnded (workers m w)" and "workerId (jobs m c) = Some w"
  shows "pauseStep c w m = stopWorker (Some w) m"
  using assms by (simp add: pauseStep_def Let_def pause_worker_ended)

lemma pauseStep_effects: "\<exists>es. effects (pauseStep c w m) = effects m @ es"
proof (cases "mEnded (workers m w)")
  case True
  then show ?thesis
    by (simp add: pauseStep_def Let_def pause_worker_ended stopWorker_def emit_def)
next
  case False
  let ?fc = "finishChunk (mDownload (workers m w)) (mJob (workers m w)) True (ending w m)"
  from finishChunk_effects [of "mDownload (workers m w)" "mJob (workers m w)" True "ending w m"]
  obtain es1 where es1: "effects ?fc = effects (ending w m) @ es1" by blast
  show ?thesis
    unfolding pauseStep_def Let_def pause_worker_live [OF False]
    by (simp add: stopWorker_def emit_def updWorker_def es1 ending_effects)
qed

lemma pauseStep_other:
  assumes "w' \<noteq> w"
  shows "workers (pauseStep c w m) w' = workers m w'"
proof (cases "mEnded (workers m w)")
  case True
  then show ?thesis
    by (simp add: pauseStep_def Let_def pause_worker_ended stopWorker_def emit_def)
next
  case False
  show ?thesis
    unfolding pauseStep_def Let_def pause_worker_live [OF False]
    using assms
    by (simp add: stopWorker_def emit_def updWorker_def finishChunk_frame(1) ending_frame)
qed

lemma pauseStep_error: "error (downloads (pauseStep c w m) h) = error (downloads m h)"
proof (cases "mEnded (workers m w)")
  case True
  then show ?thesis
    by (simp add: pauseStep_def Let_def pause_worker_ended stopWorker_def emit_def)
next
  case False
  show ?thesis
    unfolding pauseStep_def Let_def pause_worker_live [OF False]
    by (simp add: stopWorker_def emit_def updWorker_def finishChunk_interrupted_error
        ending_frame)
qed

lemma pauseChunk_effects: "\<exists>es. effects (snd (pauseChunk c (acc, m))) = effects m @ es"
  using pauseStep_effects by (simp add: pauseChunk_unfold split: option.splits)

lemma pauseChunk_error:
  "error (downloads (snd (pauseChunk c (acc, m))) h) = error (downloads m h)"
  by (simp add: pauseChunk_unfold pauseStep_error split: option.splits)

lemma fold_pauseChunk_effects:
  "\<exists>es. effects (snd (fold pauseChunk cs (acc, m))) = effects m @ es"
proof (induction cs arbitrary: acc m)
  case Nil
  then show ?case by simp
next
  case (Cons c cs)
  obtain acc' m' where p: "pauseChunk c (acc, m) = (acc', m')"
    by (cases "pauseChunk c (acc, m)")
  from pauseChunk_effects [of c acc m] p obtain es1 where "effects m' = effects m @ es1"
    by auto
  moreover from Cons.IH [of acc' m'] obtain es2 where
    "effects (snd (fold pauseChunk cs (acc', m'))) = effects m' @ es2" by blast
  ultimately show ?case using p by simp
qed

lemma fold_pauseChunk_error:
  "error (downloads (snd (fold pauseChunk cs (acc, m))) h) = error (downloads m h)"
proof (induction cs arbitrary: acc m)
  case Nil
  then show ?case by simp
next
  case (Cons c cs)
  obtain acc' m' where p: "pauseChunk c (acc, m) = (acc', m')"
    by (cases "pauseChunk c (acc, m)")
  have "error (downloads m' h) = error (downloads m h)"
    using pauseChunk_error [of c acc m h] p by simp
  then show ?case using Cons.IH [of acc' m'] p by simp
qed

lemma finishChunk_slow:
  "mSlowWorkers (finishChunk h r i m) = (mSlowWorkers m)(workerId (jobs m r) := None)"
proof -
  let ?b = "finishChunk_before_tick h r i m"
  have sch: "scheduled ?b (finishChunk h r i m)"
    unfolding finishChunk_def by (rule scheduled_tickQueue)
  then have "mSlowWorkers (finishChunk h r i m) = mSlowWorkers ?b"
    unfolding scheduled_def by simp
  then show ?thesis
    by (simp add: finishChunk_before_tick_def Let_def stopWorker_def emit_def updJob_def
        updDownload_def)
qed

lemma pauseStep_slow_keep:
  assumes "mSlowWorkers m x = None"
  shows "mSlowWorkers (pauseStep c w m) x = None"
proof (cases "mEnded (workers m w)")
  case True
  then show ?thesis
    using assms by (simp add: pauseStep_def Let_def pause_worker_ended stopWorker_def emit_def)
next
  case False
  show ?thesis
    unfolding pauseStep_def Let_def pause_worker_live [OF False]
    using assms
    by (simp add: stopWorker_def emit_def updWorker_def finishChunk_slow ending_def
        requestAbort_def)
qed

lemma pauseStep_slow_clear:
  assumes "workerId (jobs m c) = Some w" and "state (jobs m c) \<noteq> Init"
  shows "mSlowWorkers (pauseStep c w m) (Some w) = None"
proof -
  from pauseStep_jobs [OF assms(2), of c w]
  have "workerId (jobs (pauseStep c w m) c) = Some w"
    using assms(1) by auto
  moreover have "jobs (pauseStep c w m) = jobs (pause_worker w m)"
    by (simp add: pauseStep_def stopWorker_def emit_def Let_def)
  ultimately have "pauseStep c w m = stopWorker (Some w) (pause_worker w m)"
    by (simp add: pauseStep_def Let_def)
  then show ?thesis by (simp add: stopWorker_def emit_def)
qed

lemma pauseChunk_slow_keep:
  "mSlowWorkers m x = None \<Longrightarrow> mSlowWorkers (snd (pauseChunk c (acc, m))) x = None"
  by (simp add: pauseChunk_unfold pauseStep_slow_keep split: option.splits)

lemma fold_pauseChunk_slow_keep:
  "mSlowWorkers m x = None \<Longrightarrow> mSlowWorkers (snd (fold pauseChunk cs (acc, m))) x = None"
proof (induction cs arbitrary: acc m)
  case Nil
  then show ?case by simp
next
  case (Cons c cs)
  obtain acc' m' where p: "pauseChunk c (acc, m) = (acc', m')"
    by (cases "pauseChunk c (acc, m)")
  have "mSlowWorkers m' x = None"
    using pauseChunk_slow_keep [OF Cons.prems, of c acc] p by simp
  from Cons.IH [OF this, of acc'] show ?case using p by simp
qed

text \<open>
  The second loop of \<open>pause\<close>, followed for one chunk \<open>c\<close> with bytes remaining whose
  worker \<open>w\<close> is in the table.
\<close>

lemma fold_pauseChunk_worker:
  assumes "\<forall>c \<in> set cs. state (jobs m c) \<noteq> Init"
    and "\<forall>c \<in> set cs. \<forall>w. workerId (jobs m c) = Some w \<longrightarrow> w \<in> set (mBusyWorkers m)
            \<longrightarrow> mJob (workers m w) = c"
    and "c \<in> set cs" and "unfinished m c" and "workerId (jobs m c) = Some w"
    and "w \<in> set (mBusyWorkers m)"
  shows "mSlowWorkers (snd (fold pauseChunk cs (acc, m))) (Some w) = None
       \<and> (\<exists>es. effects (snd (fold pauseChunk cs (acc, m))) = effects m @ es
           \<and> StopCounter (Some w) \<in> set es
           \<and> (\<not> mEnded (workers m w) \<longrightarrow>
                state (jobs (snd (fold pauseChunk cs (acc, m))) c) = Paused
              \<and> (mRequest (workers m w) \<noteq> None \<longrightarrow> RequestAbort w \<in> set es)
              \<and> (mResponse (workers m w) \<noteq> None \<longrightarrow> ResponsePause w \<in> set es)))"
  using assms
proof (induction cs arbitrary: acc m)
  case Nil
  then show ?case by simp
next
  case (Cons c0 cs)
  let ?m' = "snd (pauseChunk c0 (acc, m))"
  let ?acc' = "fst (pauseChunk c0 (acc, m))"
  let ?end = "snd (fold pauseChunk cs (?acc', ?m'))"
  have f: "fold pauseChunk (c0 # cs) (acc, m) = fold pauseChunk cs (?acc', ?m')"
    by simp
  have c0: "state (jobs m c0) \<noteq> Init" using Cons.prems(1) by simp
  have wfc0: "\<forall>w. workerId (jobs m c0) = Some w \<longrightarrow> w \<in> set (mBusyWorkers m)
                \<longrightarrow> mJob (workers m w) = c0"
    using Cons.prems(2) by simp
  have wfc: "mJob (workers m w) = c"
    using Cons.prems(2,3,5,6) by blast
  note step = pauseChunk_step [OF c0 wfc0 refl, of acc]
  have rel: "pause_rel m ?m'" by (rule pause_rel_pauseChunk)
  have rel2: "pause_rel ?m' ?end"
    using pause_rel_fold [of ?m' cs ?acc'] by simp
  from fold_pauseChunk_effects [of cs ?acc' ?m'] obtain es2 where
    es2: "effects ?end = effects ?m' @ es2" by auto
  show ?case
  proof (cases "unfinished m c0 \<and> workerId (jobs m c0) = Some w")
    case True
    with wfc0 Cons.prems(6) have "mJob (workers m w) = c0" by blast
    with wfc have cc: "c = c0" by simp
    have m': "?m' = pauseStep c0 w m"
      using True Cons.prems(6) by (simp add: pauseChunk_unfold)
    have "\<exists>es1. effects ?m' = effects m @ es1
           \<and> StopCounter (Some w) \<in> set es1
           \<and> (\<not> mEnded (workers m w) \<longrightarrow>
                state (jobs ?m' c) = Paused
              \<and> (mRequest (workers m w) \<noteq> None \<longrightarrow> RequestAbort w \<in> set es1)
              \<and> (mResponse (workers m w) \<noteq> None \<longrightarrow> ResponsePause w \<in> set es1))"
    proof (cases "mEnded (workers m w)")
      case e: True
      have "effects ?m' = effects m @ [StopCounter (Some w)]"
        unfolding m' using pauseStep_ended [OF e, of c0] True
        by (simp add: stopWorker_def emit_def)
      then show ?thesis using e by simp
    next
      case False
      from pauseStep_live [OF False] wfc cc True show ?thesis
        unfolding m' by blast
    qed
    then obtain es1 where es1: "effects ?m' = effects m @ es1"
      "StopCounter (Some w) \<in> set es1"
      "\<not> mEnded (workers m w) \<longrightarrow>
                state (jobs ?m' c) = Paused
              \<and> (mRequest (workers m w) \<noteq> None \<longrightarrow> RequestAbort w \<in> set es1)
              \<and> (mResponse (workers m w) \<noteq> None \<longrightarrow> ResponsePause w \<in> set es1)"
      by blast
    have keepPaused: "state (jobs ?end c) = Paused" if "state (jobs ?m' c) = Paused"
    proof -
      from that have "state (jobs ?m' c) \<noteq> Init" by simp
      with rel2 have "jobs ?end c = jobs ?m' c \<or> jobs ?end c = (jobs ?m' c)\<lparr>state := Paused\<rparr>"
        unfolding pause_rel_def by blast
      with that show ?thesis by auto
    qed
    have "effects ?end = effects m @ (es1 @ es2)" using es1(1) es2 by simp
    moreover have "StopCounter (Some w) \<in> set (es1 @ es2)" using es1(2) by simp
    moreover have "\<not> mEnded (workers m w) \<longrightarrow>
                state (jobs ?end c) = Paused
              \<and> (mRequest (workers m w) \<noteq> None \<longrightarrow> RequestAbort w \<in> set (es1 @ es2))
              \<and> (mResponse (workers m w) \<noteq> None \<longrightarrow> ResponsePause w \<in> set (es1 @ es2))"
      using es1(3) keepPaused by simp
    moreover have "mSlowWorkers ?end (Some w) = None"
    proof -
      have "mSlowWorkers ?m' (Some w) = None"
        unfolding m' using True c0 by (intro pauseStep_slow_clear) auto
      then show ?thesis by (rule fold_pauseChunk_slow_keep)
    qed
    ultimately show ?thesis unfolding f by blast
  next
    case False
    then have "c \<noteq> c0" using Cons.prems(4,5) by auto
    then have in_cs: "c \<in> set cs" using Cons.prems(3) by simp
    have same: "unfinished ?m' c' = unfinished m c'
              \<and> workerId (jobs ?m' c') = workerId (jobs m c')
              \<and> state (jobs ?m' c') \<noteq> Init"
      if "c' \<in> set cs" for c'
    proof -
      have "state (jobs m c') \<noteq> Init" using Cons.prems(1) that by simp
      with step(1) have "jobs ?m' c' = jobs m c'
            \<or> (c' = c0 \<and> unfinished m c0 \<and> jobs ?m' c' = (jobs m c')\<lparr>state := Paused\<rparr>)"
        by blast
      then show ?thesis
        using \<open>state (jobs m c') \<noteq> Init\<close>
        by (auto simp: unfinished_def)
    qed
    have busy': "set (mBusyWorkers ?m') \<subseteq> set (mBusyWorkers m)"
      using rel unfolding pause_rel_def by blast
    have mjob: "mJob (workers ?m' v) = mJob (workers m v)" for v
      using rel unfolding pause_rel_def by blast
    have p1: "\<forall>c' \<in> set cs. state (jobs ?m' c') \<noteq> Init"
      using same by blast
    have p2: "\<forall>c' \<in> set cs. \<forall>v. workerId (jobs ?m' c') = Some v
              \<longrightarrow> v \<in> set (mBusyWorkers ?m') \<longrightarrow> mJob (workers ?m' v) = c'"
      using same busy' mjob Cons.prems(2) by (metis list.set_intros(2) subsetD)
    have active: "(\<exists>w0. w0 \<noteq> w \<and> ?m' = pauseStep c0 w0 m
                        \<and> mBusyWorkers ?m' = removeAll w0 (mBusyWorkers m))
                  \<or> ?m' = m"
    proof (cases "\<exists>w0. unfinished m c0 \<and> workerId (jobs m c0) = Some w0
                        \<and> w0 \<in> set (mBusyWorkers m)")
      case True
      then obtain w0 where w0: "unfinished m c0 \<and> workerId (jobs m c0) = Some w0
                        \<and> w0 \<in> set (mBusyWorkers m)" by blast
      with False have "w0 \<noteq> w" by auto
      moreover from step(2) w0 have "mBusyWorkers ?m' = removeAll w0 (mBusyWorkers m)"
        by blast
      moreover have "?m' = pauseStep c0 w0 m" using w0 by (simp add: pauseChunk_unfold)
      ultimately show ?thesis by blast
    next
      case False
      with step(3) show ?thesis by blast
    qed
    have keep: "w \<in> set (mBusyWorkers ?m')"
      using active Cons.prems(6) by auto
    have wk: "workers ?m' w = workers m w"
      using active pauseStep_other [of w] by auto
    from pauseChunk_effects [of c0 acc m] obtain es1 where
      es1: "effects ?m' = effects m @ es1" by blast
    have u: "unfinished ?m' c" "workerId (jobs ?m' c) = Some w"
      using same [OF in_cs] Cons.prems(4,5) by simp_all
    from Cons.IH [OF p1 p2 in_cs u keep, of ?acc']
    have sl: "mSlowWorkers ?end (Some w) = None" by blast
    from Cons.IH [OF p1 p2 in_cs u keep, of ?acc'] obtain es where
      es: "effects ?end = effects ?m' @ es" "StopCounter (Some w) \<in> set es"
      "\<not> mEnded (workers ?m' w) \<longrightarrow>
                state (jobs ?end c) = Paused
              \<and> (mRequest (workers ?m' w) \<noteq> None \<longrightarrow> RequestAbort w \<in> set es)
              \<and> (mResponse (workers ?m' w) \<noteq> None \<longrightarrow> ResponsePause w \<in> set es)"
      by blast
    have "effects ?end = effects m @ (es1 @ es)" using es1 es(1) by simp
    moreover have "StopCounter (Some w) \<in> set (es1 @ es)" using es(2) by simp
    moreover have "\<not> mEnded (workers m w) \<longrightarrow>
                state (jobs ?end c) = Paused
              \<and> (mRequest (workers m w) \<noteq> None \<longrightarrow> RequestAbort w \<in> set (es1 @ es))
              \<and> (mResponse (workers m w) \<noteq> None \<longrightarrow> ResponsePause w \<in> set (es1 @ es))"
      using es(3) unfolding wk by simp
    ultimately show ?thesis unfolding f using sl by blast
  qed
qed

lemma pauseInit_effects: "effects (pauseInit cs m) = effects m"
proof (induction cs arbitrary: m)
  case Nil
  then show ?case by (simp add: pauseInit_def)
next
  case (Cons c cs)
  show ?case unfolding pauseInit_Cons Cons.IH by (simp add: updJob_def)
qed

text \<open>
  C4, as amended. For a download found in the queue, each of whose started chunks has
  its own worker under its worker id: \<open>pause\<close> turns the chunks in state \<open>Init\<close> to
  \<open>Paused\<close>; it returns, in chunk order, a checkpoint of the confirmed counters (and the
  URL producer) for every chunk with bytes remaining that is running or paused, those
  just paused included, that is for every such chunk that is not finished. The worker
  of such a chunk, where the table of busy workers has it, is paused and its slot
  released: a worker that had not ended aborts its request, where it has one, and ends
  with its chunk finished as interrupted, so that the chunk is paused, and its response,
  where it has one, is paused; in every case the worker is ended and out of the table,
  its speed counter stopped and its slow counter cleared. No download gets its error
  flag changed; and the downloads of that id are removed from the queue.
\<close>

theorem pause_checkpoints:
  assumes found: "findDownload ident m = Some h"
    and wf: "\<forall>c \<in> set (chunks (downloads m h)). \<forall>w.
               workerId (jobs m c) = Some w \<longrightarrow> w \<in> set (mBusyWorkers m)
               \<longrightarrow> mJob (workers m w) = c"
    and res: "pause ident m = (result, m')"
  shows "result = Some (map (\<lambda>c. \<lparr>chunk_url = url (jobs m c),
                                    chunk_size = confirmedSize (jobs m c),
                                    chunk_offset = confirmedOffset (jobs m c),
                                    chunk_received = confirmedReceived (jobs m c)\<rparr>)
                    (filter (\<lambda>c. state (jobs m c) \<in> {Init, Running, Paused}
                                  \<and> 0 < size_j (jobs m c))
                       (chunks (downloads m h))))
       \<and> mQueue m' = filter (\<lambda>h'. id_d (downloads m h') \<noteq> ident) (mQueue m)
       \<and> (\<forall>c \<in> set (chunks (downloads m h)).
             state (jobs m c) = Init \<longrightarrow> state (jobs m' c) = Paused)
       \<and> (\<forall>c \<in> set (chunks (downloads m h)). \<forall>w.
             state (jobs m c) \<in> {Init, Running, Paused} \<and> 0 < size_j (jobs m c)
             \<and> workerId (jobs m c) = Some w \<and> w \<in> set (mBusyWorkers m)
             \<longrightarrow> mEnded (workers m' w) \<and> w \<notin> set (mBusyWorkers m')
               \<and> mSlowWorkers m' (Some w) = None
               \<and> (\<exists>es. effects m' = effects m @ es
                     \<and> StopCounter (Some w) \<in> set es
                     \<and> (\<not> mEnded (workers m w) \<longrightarrow>
                          state (jobs m' c) = Paused
                        \<and> (mRequest (workers m w) \<noteq> None \<longrightarrow> RequestAbort w \<in> set es)
                        \<and> (mResponse (workers m w) \<noteq> None
                             \<longrightarrow> ResponsePause w \<in> set es))))
       \<and> (\<forall>h'. error (downloads m' h') = error (downloads m h'))"
proof -
  let ?cs = "chunks (downloads m h)"
  let ?m1 = "pauseInit ?cs m"
  let ?m2 = "snd (fold pauseChunk ?cs ([], ?m1))"
  have "pause ident m = (Some (fst (fold pauseChunk ?cs ([], ?m1))), removeFromQueue ident ?m2)"
    using found
    by (simp add: pause_def pauseInit_def [symmetric] pauseInit_frame split: prod.splits)
  with res have r: "result = Some (fst (fold pauseChunk ?cs ([], ?m1)))"
    and m': "m' = removeFromQueue ident ?m2"
    by simp_all
  have a1: "\<forall>c \<in> set ?cs. state (jobs ?m1 c) \<noteq> Init"
    by (simp add: pauseInit_jobs)
  have a2: "\<forall>c \<in> set ?cs. \<forall>w. workerId (jobs ?m1 c) = Some w
              \<longrightarrow> w \<in> set (mBusyWorkers ?m1) \<longrightarrow> mJob (workers ?m1 w) = c"
    using wf by (simp add: pauseInit_jobs pauseInit_frame)
  note fp = fold_pauseChunk [OF a1 a2, of "[]"]
  have rel: "pause_rel ?m1 ?m2" by (rule pause_rel_fold)
  have u: "unfinished ?m1 c
            = (state (jobs m c) \<in> {Init, Running, Paused} \<and> 0 < size_j (jobs m c))"
    if "c \<in> set ?cs" for c
    using that by (auto simp: unfinished_def pauseInit_jobs)
  have t: "toStoredChunk (jobs ?m1 c) = toStoredChunk (jobs m c)" for c
    by (simp add: toStoredChunk_def pauseInit_jobs)
  have 1: "result = Some (map (\<lambda>c. \<lparr>chunk_url = url (jobs m c),
                                    chunk_size = confirmedSize (jobs m c),
                                    chunk_offset = confirmedOffset (jobs m c),
                                    chunk_received = confirmedReceived (jobs m c)\<rparr>)
                    (filter (\<lambda>c. state (jobs m c) \<in> {Init, Running, Paused}
                                  \<and> 0 < size_j (jobs m c)) ?cs))"
  proof -
    have "filter (unfinished ?m1) ?cs
            = filter (\<lambda>c. state (jobs m c) \<in> {Init, Running, Paused}
                                  \<and> 0 < size_j (jobs m c)) ?cs"
      using u by (intro filter_cong) auto
    then show ?thesis
      using fp unfolding r t by (simp add: toStoredChunk_def)
  qed
  have 2: "mQueue m' = filter (\<lambda>h'. id_d (downloads m h') \<noteq> ident) (mQueue m)"
  proof -
    from rel have "mQueue ?m2 = mQueue m" "\<And>h'. id_d (downloads ?m2 h') = id_d (downloads m h')"
      unfolding pause_rel_def by (simp_all add: pauseInit_frame)
    then show ?thesis unfolding m' by (simp add: removeFromQueue_def)
  qed
  have j': "jobs m' = jobs ?m2"
    unfolding m' by (simp add: removeFromQueue_def)
  have 3: "state (jobs m' c) = Paused" if "c \<in> set ?cs" "state (jobs m c) = Init" for c
  proof -
    have p: "state (jobs ?m1 c) = Paused" using that by (simp add: pauseInit_jobs)
    then have "state (jobs ?m1 c) \<noteq> Init" by simp
    with rel have "jobs ?m2 c = jobs ?m1 c \<or> jobs ?m2 c = (jobs ?m1 c)\<lparr>state := Paused\<rparr>"
      unfolding pause_rel_def by blast
    with p have "state (jobs ?m2 c) = Paused" by auto
    then show ?thesis unfolding j' by simp
  qed
  have w': "workers m' = workers ?m2" "mBusyWorkers m' = mBusyWorkers ?m2"
    unfolding m' by (simp_all add: removeFromQueue_def)
  have e': "effects m' = effects ?m2"
    unfolding m' by (simp add: removeFromQueue_def)
  have s': "mSlowWorkers m' = mSlowWorkers ?m2"
    unfolding m' by (simp add: removeFromQueue_def)
  have 4: "mEnded (workers m' w) \<and> w \<notin> set (mBusyWorkers m')
               \<and> mSlowWorkers m' (Some w) = None
               \<and> (\<exists>es. effects m' = effects m @ es
                     \<and> StopCounter (Some w) \<in> set es
                     \<and> (\<not> mEnded (workers m w) \<longrightarrow>
                          state (jobs m' c) = Paused
                        \<and> (mRequest (workers m w) \<noteq> None \<longrightarrow> RequestAbort w \<in> set es)
                        \<and> (mResponse (workers m w) \<noteq> None
                             \<longrightarrow> ResponsePause w \<in> set es)))"
    if "c \<in> set ?cs"
      "state (jobs m c) \<in> {Init, Running, Paused} \<and> 0 < size_j (jobs m c)
             \<and> workerId (jobs m c) = Some w \<and> w \<in> set (mBusyWorkers m)" for c w
  proof -
    have un: "unfinished ?m1 c" using u [OF that(1)] that(2) by simp
    have wi: "workerId (jobs ?m1 c) = Some w" using that(2) by (simp add: pauseInit_jobs)
    have bu: "w \<in> set (mBusyWorkers ?m1)" using that(2) by (simp add: pauseInit_frame)
    from un wi bu have "mEnded (workers m' w) \<and> w \<notin> set (mBusyWorkers m')"
      using fp that(1) unfolding w' by blast
    moreover from fold_pauseChunk_worker [OF a1 a2 that(1) un wi bu, of "[]"]
    have "mSlowWorkers m' (Some w) = None" unfolding s' by blast
    moreover from fold_pauseChunk_worker [OF a1 a2 that(1) un wi bu, of "[]"]
    have "\<exists>es. effects m' = effects m @ es
                     \<and> StopCounter (Some w) \<in> set es
                     \<and> (\<not> mEnded (workers m w) \<longrightarrow>
                          state (jobs m' c) = Paused
                        \<and> (mRequest (workers m w) \<noteq> None \<longrightarrow> RequestAbort w \<in> set es)
                        \<and> (mResponse (workers m w) \<noteq> None
                             \<longrightarrow> ResponsePause w \<in> set es))"
      unfolding e' j' by (simp add: pauseInit_frame pauseInit_effects)
    ultimately show ?thesis by blast
  qed
  have 5: "error (downloads m' h') = error (downloads m h')" for h'
    unfolding m'
    by (simp add: removeFromQueue_def fold_pauseChunk_error pauseInit_frame)
  from 1 2 3 4 5 show ?thesis by blast
qed

text \<open>
  The running chunk of the example is written down with what the assembler has
  acknowledged, not with what the worker has handed over; its worker is paused: the
  request aborted, the chunk paused without an error, the response paused and the slot
  released.
\<close>

theorem pause_checkpoints_witness:
  "fst (pause ''dl-1'' example_inflight)
     = Some [\<lparr>chunk_url = FirstResolved, chunk_size = 20709376, chunk_offset = 262144,
              chunk_received = 262144\<rparr>]
   \<and> mQueue (snd (pause ''dl-1'' example_inflight)) = []
   \<and> mEnded (workers (snd (pause ''dl-1'' example_inflight)) 0)
   \<and> 0 \<notin> set (mBusyWorkers (snd (pause ''dl-1'' example_inflight)))
   \<and> state (jobs (snd (pause ''dl-1'' example_inflight)) 0) = Paused
   \<and> RequestAbort 0 \<in> set (effects (snd (pause ''dl-1'' example_inflight)))
   \<and> ResponsePause 0 \<in> set (effects (snd (pause ''dl-1'' example_inflight)))
   \<and> StopCounter (Some 0) \<in> set (effects (snd (pause ''dl-1'' example_inflight)))
   \<and> \<not> error (downloads (snd (pause ''dl-1'' example_inflight)) 0)"
proof -
  let ?m' = "snd (pause ''dl-1'' example_inflight)"
  have found: "findDownload ''dl-1'' example_inflight = Some 0"
    by (simp add: findDownload_def example_inflight_def example_manager_def
        example_download_def)
  have cs: "chunks (downloads example_inflight 0) = [0]"
    by (simp add: example_inflight_def example_manager_def example_download_def)
  have wf: "\<forall>c \<in> set (chunks (downloads example_inflight 0)). \<forall>w.
               workerId (jobs example_inflight c) = Some w
               \<longrightarrow> w \<in> set (mBusyWorkers example_inflight)
               \<longrightarrow> mJob (workers example_inflight w) = c"
    by (simp add: example_inflight_def example_manager_def example_download_def
        example_job_def example_worker_def initChunk_def)
  have j: "state (jobs example_inflight 0) = Running"
    "size_j (jobs example_inflight 0) = 20447232"
    "workerId (jobs example_inflight 0) = Some 0"
    "url (jobs example_inflight 0) = FirstResolved"
    "confirmedSize (jobs example_inflight 0) = 20709376"
    "confirmedOffset (jobs example_inflight 0) = 262144"
    "confirmedReceived (jobs example_inflight 0) = 262144"
    "0 \<in> set (mBusyWorkers example_inflight)"
    "mQueue example_inflight = [0]"
    "id_d (downloads example_inflight 0) = ''dl-1''"
    by (simp_all add: example_inflight_def example_manager_def example_download_def
        example_job_def initChunk_def toStoredChunk_def)
  have k: "\<not> mEnded (workers example_inflight 0)" "mRequest (workers example_inflight 0) \<noteq> None"
    "mResponse (workers example_inflight 0) \<noteq> None" "effects example_inflight = []"
    "\<not> error (downloads example_inflight 0)"
    by (simp_all add: example_inflight_def example_manager_def example_download_def
        example_worker_def)
  note t = pause_checkpoints [OF found wf prod.collapse [symmetric]]
  from t have 1: "fst (pause ''dl-1'' example_inflight)
     = Some [\<lparr>chunk_url = FirstResolved, chunk_size = 20709376, chunk_offset = 262144,
              chunk_received = 262144\<rparr>]"
    by (simp add: cs j)
  from t have 2: "mQueue ?m' = []" by (simp add: cs j)
  from t have "\<forall>c \<in> set (chunks (downloads example_inflight 0)). \<forall>w.
             state (jobs example_inflight c) \<in> {Init, Running, Paused}
             \<and> 0 < size_j (jobs example_inflight c)
             \<and> workerId (jobs example_inflight c) = Some w
             \<and> w \<in> set (mBusyWorkers example_inflight)
             \<longrightarrow> mEnded (workers ?m' w) \<and> w \<notin> set (mBusyWorkers ?m')
               \<and> (\<exists>es. effects ?m' = effects example_inflight @ es
                     \<and> StopCounter (Some w) \<in> set es
                     \<and> (\<not> mEnded (workers example_inflight w) \<longrightarrow>
                          state (jobs ?m' c) = Paused
                        \<and> (mRequest (workers example_inflight w) \<noteq> None
                             \<longrightarrow> RequestAbort w \<in> set es)
                        \<and> (mResponse (workers example_inflight w) \<noteq> None
                             \<longrightarrow> ResponsePause w \<in> set es)))"
    by blast
  then have "mEnded (workers ?m' 0) \<and> 0 \<notin> set (mBusyWorkers ?m')
               \<and> (\<exists>es. effects ?m' = effects example_inflight @ es
                     \<and> StopCounter (Some 0) \<in> set es
                     \<and> state (jobs ?m' 0) = Paused
                     \<and> RequestAbort 0 \<in> set es
                     \<and> ResponsePause 0 \<in> set es)"
    using j k by (simp add: cs)
  then have 3: "mEnded (workers ?m' 0) \<and> 0 \<notin> set (mBusyWorkers ?m')
               \<and> state (jobs ?m' 0) = Paused
               \<and> RequestAbort 0 \<in> set (effects ?m')
               \<and> ResponsePause 0 \<in> set (effects ?m')
               \<and> StopCounter (Some 0) \<in> set (effects ?m')"
    using k(4) by auto
  from t have "error (downloads ?m' 0) = error (downloads example_inflight 0)" by blast
  then have 4: "\<not> error (downloads ?m' 0)" using k(5) by simp
  from 1 2 3 4 show ?thesis by blast
qed

text \<open>
  C4, as stated, fails: the chunk of a download that has not started is not running,
  and \<open>pause\<close> still returns its checkpoint.
\<close>

theorem pause_checkpoints_not_only_running:
  "fst (pause ''dl-1'' example_queued)
     \<noteq> Some (map (\<lambda>c. toStoredChunk (jobs example_queued c))
               (filter (\<lambda>c. state (jobs example_queued c) = Running
                             \<and> 0 < size_j (jobs example_queued c))
                  (chunks (downloads example_queued 0))))"
  by (simp add: pause_def findDownload_def pauseChunk_def removeFromQueue_def updJob_def
      example_queued_def example_manager_def example_download_def initChunk_def
      MIN_CHUNK_SIZE_def Let_def)

subsection \<open>Filename reservation\<close>

lemma reserve_occupied: "occupied fs p \<Longrightarrow> reserve fs p = (Some (SysError ''EEXIST''), fs)"
  by (simp add: reserve_def occupied_def)

lemma reserve_reservable:
  "reservable fs p \<Longrightarrow> reserve fs p = (None, fs\<lparr>files := insert p (files fs)\<rparr>)"
  by (auto simp: reserve_def reservable_def split: option.splits)

lemma loop_suffix:
  assumes nc: "\<not> (first \<and> cb \<noteq> None)"
    and ck: "c \<le> k"
    and occ: "\<forall>j. c \<le> j \<and> j < k \<longrightarrow> occupied fs (path_join lib dest (tryName base ext j))"
    and free: "reservable fs (path_join lib dest (tryName base ext k))"
  shows "unusedName_loop lib cb mode dest name base ext c first
           (path_join lib dest (tryName base ext c)) fs
         = Some (Inr (path_join lib dest (tryName base ext k)),
                 fs\<lparr>files := insert (path_join lib dest (tryName base ext k)) (files fs)\<rparr>)"
  using ck occ
proof (induction "k - c" arbitrary: c)
  case 0
  then have "c = k" by simp
  then show ?case
    by (subst unusedName_loop.simps) (simp add: reserve_reservable [OF free] Let_def)
next
  case (Suc n)
  then have lt: "c < k" and n: "n = k - Suc c" by simp_all
  have o: "occupied fs (path_join lib dest (tryName base ext c))"
    using Suc.prems(2) lt by simp
  have "\<forall>j. Suc c \<le> j \<and> j < k \<longrightarrow> occupied fs (path_join lib dest (tryName base ext j))"
    using Suc.prems(2) by simp
  from Suc.hyps(1) [OF n _ this] lt
  have IH: "unusedName_loop lib cb mode dest name base ext (c + 1) first
           (path_join lib dest (tryName base ext (c + 1))) fs
         = Some (Inr (path_join lib dest (tryName base ext k)),
                 fs\<lparr>files := insert (path_join lib dest (tryName base ext k)) (files fs)\<rparr>)"
    by simp
  have cond: "(first \<and> cb \<noteq> None) = False" using nc by simp
  show ?case
    apply (subst unusedName_loop.simps)
    apply (simp only: reserve_occupied [OF o] Let_def fst_conv snd_conv option.distinct
        option.sel err_code.simps if_False if_True cond IH simp_thms)
    done
qed

lemma unusedName_first:
  assumes "occupied fs (path_join lib dest (cleanName lib fileName0))"
  shows "unusedName lib cb dest fileName0 mode fs =
     (let name = cleanName lib fileName0;
          next = unusedName_loop lib cb mode dest name
                   (path_basename lib name (path_extname lib name)) (path_extname lib name)
                   1 (if cb = None then True else False) (candidate lib dest name 1) fs
      in if cb \<noteq> None then
           (if mode = Always then next
            else if mode = Never then Some (Inl (AlreadyDownloaded name), fs)
            else if mode = Replace then Some (Inr (candidate lib dest name 1), fs)
            else if the cb name = Inr True then next
            else if the cb name = Inr False then Some (Inl UserCanceled, fs)
            else Some (Inl (projl (the cb name)), fs))
         else next)"
  unfolding unusedName_def cleanName_def [symmetric] Let_def
  apply (subst unusedName_loop.simps)
  apply (simp only: reserve_occupied [OF assms] Let_def fst_conv snd_conv option.distinct
        option.sel err_code.simps if_False if_True simp_thms candidate_def add_0)
  apply (cases "cb = None")
   apply (simp_all only: if_True if_False simp_thms)
  done

text \<open>
  C2, as amended. When the first candidate \<open>dir/name\<close> exists: with a
  \<open>file_exists_cb\<close> registered, the policy \<open>never\<close> rejects with
  \<open>AlreadyDownloaded(name)\<close>; the policy \<open>ask\<close> calls the callback with the name and
  rejects with \<open>UserCanceled\<close> on \<open>false\<close>; the policy \<open>always\<close>, and \<open>ask\<close> answered
  \<open>true\<close>, go on with the suffix loop, which reserves and returns \<open>dir/base.k.ext\<close> for
  the first counter \<open>k\<close> from 1 on whose candidate does not exist. With no callback
  registered the policy is not looked at and the suffix loop runs whatever it is.
\<close>

theorem unusedName_policy:
  assumes name: "name = cleanName lib fileName0"
    and first: "occupied fs (path_join lib dest name)"
  shows "(cb \<noteq> None \<and> mode = Never \<longrightarrow>
            unusedName lib cb dest fileName0 mode fs = Some (Inl (AlreadyDownloaded name), fs))
       \<and> (cb = Some f \<and> mode = Ask \<and> f name = Inr False \<longrightarrow>
            unusedName lib cb dest fileName0 mode fs = Some (Inl UserCanceled, fs))
       \<and> ((cb = None \<or> mode = Always \<or> (cb = Some f \<and> mode = Ask \<and> f name = Inr True))
            \<and> 1 \<le> k
            \<and> (\<forall>j. 1 \<le> j \<and> j < k \<longrightarrow> occupied fs (candidate lib dest name j))
            \<and> reservable fs (candidate lib dest name k) \<longrightarrow>
            unusedName lib cb dest fileName0 mode fs
              = Some (Inr (candidate lib dest name k),
                      fs\<lparr>files := insert (candidate lib dest name k) (files fs)\<rparr>))"
proof (intro conjI impI)
  note u = unusedName_first [OF first [unfolded name], of cb mode, folded name]
  show "unusedName lib cb dest fileName0 mode fs = Some (Inl (AlreadyDownloaded name), fs)"
    if "cb \<noteq> None \<and> mode = Never"
    using that unfolding u Let_def by simp
  show "unusedName lib cb dest fileName0 mode fs = Some (Inl UserCanceled, fs)"
    if "cb = Some f \<and> mode = Ask \<and> f name = Inr False"
    using that unfolding u Let_def by simp
  show "unusedName lib cb dest fileName0 mode fs
              = Some (Inr (candidate lib dest name k),
                      fs\<lparr>files := insert (candidate lib dest name k) (files fs)\<rparr>)"
    if a: "(cb = None \<or> mode = Always \<or> (cb = Some f \<and> mode = Ask \<and> f name = Inr True))
            \<and> 1 \<le> k
            \<and> (\<forall>j. 1 \<le> j \<and> j < k \<longrightarrow> occupied fs (candidate lib dest name j))
            \<and> reservable fs (candidate lib dest name k)"
  proof -
    have nc: "\<not> ((if cb = None then True else False) \<and> cb \<noteq> None)" by simp
    have l: "unusedName_loop lib cb mode dest name
                   (path_basename lib name (path_extname lib name)) (path_extname lib name)
                   1 (if cb = None then True else False) (candidate lib dest name 1) fs
          = Some (Inr (candidate lib dest name k),
                      fs\<lparr>files := insert (candidate lib dest name k) (files fs)\<rparr>)"
      using loop_suffix [OF nc, of 1 k fs lib dest
          "path_basename lib name (path_extname lib name)" "path_extname lib name" mode name] a
      unfolding candidate_def by blast
    show ?thesis
      using a unfolding u Let_def l by auto
  qed
qed

text \<open>
  \<open>mod.zip\<close> and \<open>mod.1.zip\<close> exist: with the policy \<open>always\<close> the name reserved is
  \<open>mod.2.zip\<close>.
\<close>

theorem unusedName_policy_witness:
  "unusedName example_lib (Some (\<lambda>n. Inr True)) ''/downloads'' ''mod.zip'' Always example_fs
     = Some (Inr ''/downloads/mod.2.zip'',
             example_fs\<lparr>files := insert ''/downloads/mod.2.zip'' (files example_fs)\<rparr>)
   \<and> unusedName example_lib (Some (\<lambda>n. Inr False)) ''/downloads'' ''mod.zip'' Ask example_fs
     = Some (Inl UserCanceled, example_fs)
   \<and> unusedName example_lib (Some (\<lambda>n. Inr False)) ''/downloads'' ''mod.zip'' Never example_fs
     = Some (Inl (AlreadyDownloaded ''mod.zip''), example_fs)"
proof -
  have n: "''mod.zip'' = cleanName example_lib ''mod.zip''"
    by (simp add: cleanName_def example_lib_def)
  have f: "occupied example_fs (path_join example_lib ''/downloads'' ''mod.zip'')"
    by (simp add: occupied_def example_fs_def example_lib_def)
  have c: "candidate example_lib ''/downloads'' ''mod.zip'' 1 = ''/downloads/mod.1.zip''"
    "candidate example_lib ''/downloads'' ''mod.zip'' 2 = ''/downloads/mod.2.zip''"
    by (simp_all add: candidate_def example_lib_def lastDot_def tryName_def)
  have o: "\<forall>j. 1 \<le> j \<and> j < 2 \<longrightarrow> occupied example_fs (candidate example_lib ''/downloads'' ''mod.zip'' j)"
  proof (intro allI impI)
    fix j :: nat assume "1 \<le> j \<and> j < 2"
    then have j: "j = 1" by simp
    show "occupied example_fs (candidate example_lib ''/downloads'' ''mod.zip'' j)"
      unfolding j c by (simp add: occupied_def example_fs_def)
  qed
  have r: "reservable example_fs (candidate example_lib ''/downloads'' ''mod.zip'' 2)"
    by (simp add: c reservable_def example_fs_def)
  note t = unusedName_policy [OF n f]
  from t [of "Some (\<lambda>n. Inr True)" Always "\<lambda>n. Inr True" 2] o r
  have 1: "unusedName example_lib (Some (\<lambda>n. Inr True)) ''/downloads'' ''mod.zip'' Always example_fs
     = Some (Inr ''/downloads/mod.2.zip'',
             example_fs\<lparr>files := insert ''/downloads/mod.2.zip'' (files example_fs)\<rparr>)"
    by (simp add: c)
  from t [of "Some (\<lambda>n. Inr False)" Ask "\<lambda>n. Inr False" 2]
  have 2: "unusedName example_lib (Some (\<lambda>n. Inr False)) ''/downloads'' ''mod.zip'' Ask example_fs
     = Some (Inl UserCanceled, example_fs)"
    by simp
  from t [of "Some (\<lambda>n. Inr False)" Never "\<lambda>n. Inr False" 2]
  have 3: "unusedName example_lib (Some (\<lambda>n. Inr False)) ''/downloads'' ''mod.zip'' Never example_fs
     = Some (Inl (AlreadyDownloaded ''mod.zip''), example_fs)"
    by simp
  from 1 2 3 show ?thesis by simp
qed

text \<open>
  C2, as stated, fails twice. With no callback registered the policy \<open>never\<close> does not
  reject: the next free name is reserved. And with the policy \<open>replace\<close> the path
  returned is not the existing \<open>mod.zip\<close> but the first suffixed candidate, which the
  call has not created.
\<close>

theorem unusedName_policy_not_always_consulted:
  "map_option fst (unusedName example_lib None ''/downloads'' ''mod.zip'' Never example_fs)
     = Some (Inr ''/downloads/mod.2.zip'')
   \<and> unusedName example_lib (Some (\<lambda>n. Inr True)) ''/downloads'' ''mod.zip'' Replace
        (example_fs\<lparr>files := {''/downloads/mod.zip''}\<rparr>)
     = Some (Inr ''/downloads/mod.1.zip'', example_fs\<lparr>files := {''/downloads/mod.zip''}\<rparr>)"
proof -
  have c: "candidate example_lib ''/downloads'' ''mod.zip'' 1 = ''/downloads/mod.1.zip''"
    "path_join example_lib ''/downloads'' (tryName ''mod'' ''.zip'' 1) = ''/downloads/mod.1.zip''"
    "path_join example_lib ''/downloads'' (tryName ''mod'' ''.zip'' 2) = ''/downloads/mod.2.zip''"
    "cleanName example_lib ''mod.zip'' = ''mod.zip''"
    "path_extname example_lib ''mod.zip'' = ''.zip''"
    "path_basename example_lib ''mod.zip'' ''.zip'' = ''mod''"
    by (simp_all add: candidate_def example_lib_def lastDot_def tryName_def cleanName_def)
  have f: "occupied example_fs (path_join example_lib ''/downloads'' (cleanName example_lib ''mod.zip''))"
    by (simp add: occupied_def example_fs_def example_lib_def cleanName_def)
  have nc: "\<not> (True \<and> (None :: (string \<Rightarrow> err + bool) option) \<noteq> None)" by simp
  have o: "\<forall>j. 1 \<le> j \<and> j < 2 \<longrightarrow> occupied example_fs
             (path_join example_lib ''/downloads'' (tryName ''mod'' ''.zip'' j))"
  proof (intro allI impI)
    fix j :: nat assume "1 \<le> j \<and> j < 2"
    then have j: "j = 1" by simp
    show "occupied example_fs
             (path_join example_lib ''/downloads'' (tryName ''mod'' ''.zip'' j))"
      unfolding j c by (simp add: occupied_def example_fs_def)
  qed
  have r: "reservable example_fs
             (path_join example_lib ''/downloads'' (tryName ''mod'' ''.zip'' 2))"
    by (simp add: c reservable_def example_fs_def)
  have one: "(1::nat) \<le> 2" by simp
  from loop_suffix [OF nc one o r, of Never "''mod.zip''"]
  have 1: "map_option fst
             (unusedName example_lib None ''/downloads'' ''mod.zip'' Never example_fs)
           = Some (Inr ''/downloads/mod.2.zip'')"
    unfolding unusedName_first [OF f] Let_def by (simp add: c(2-6) candidate_def)
  have f2: "occupied (example_fs\<lparr>files := {''/downloads/mod.zip''}\<rparr>)
             (path_join example_lib ''/downloads'' (cleanName example_lib ''mod.zip''))"
    by (simp add: occupied_def example_fs_def example_lib_def cleanName_def)
  have 2: "unusedName example_lib (Some (\<lambda>n. Inr True)) ''/downloads'' ''mod.zip'' Replace
        (example_fs\<lparr>files := {''/downloads/mod.zip''}\<rparr>)
     = Some (Inr ''/downloads/mod.1.zip'', example_fs\<lparr>files := {''/downloads/mod.zip''}\<rparr>)"
    unfolding unusedName_first [OF f2] Let_def by (simp add: c del: One_nat_def)
  from 1 2 show ?thesis by simp
qed

subsection \<open>\<open>handleResponse\<close>: a success without Content-Range\<close>

lemma updateDownload_unchunkable:
  "\<exists>m'. updateDownload h n f False m = Some m' \<and> jobs m' = jobs m"
  by (simp add: updateDownload_def Let_def head_jobs)

lemma updateDownload_unchunkable':
  "jobs m = J \<Longrightarrow> \<exists>m'. updateDownload h n f False m = Some m' \<and> jobs m' = J"
  using updateDownload_unchunkable [of h n f m] by simp

lemma updateDownloadSize_jobs: "jobs (updateDownloadSize h n c m) = jobs m"
  by (simp add: updateDownloadSize_def setSize_def updDownload_def emit_def)

text \<open>
  C10, as amended. For every response with a status below 300 that is not HTML and
  carries no Content-Range header, on a job that has a response callback: the worker
  returns from the response with the job's offset set to 0 and its size (and confirmed
  size) set to the response's Content-Length where that differs from the size the job
  had, \<open>-1\<close> standing for a missing Content-Length; nothing else of the job and no
  other job changes.
\<close>

theorem handleResponse_unchunkable:
  assumes r: "r = mJob (workers m w)"
    and ok: "statusCode resp < 300" "\<not> isHTMLHeader resp"
    and nr: "contentRange resp = None"
    and cb: "responseCB (jobs m r) \<noteq> None"
  shows "\<exists>m'. handleResponse resolve w resp jobUrl m = Some m'
           \<and> jobs m' = (jobs m)(r :=
                (if lengthOf resp \<noteq> size_j (jobs m r)
                 then (jobs m r)\<lparr>offset := 0, confirmedSize := lengthOf resp,
                                  size_j := lengthOf resp\<rparr>
                 else (jobs m r)\<lparr>offset := 0\<rparr>))
           \<and> offset (jobs m' r) = 0 \<and> size_j (jobs m' r) = lengthOf resp"
proof -
  obtain cb' where cb': "responseCB (jobs m r) = Some cb'" using cb by auto
  let ?h = "mDownload (workers m w)"
  let ?m1 = "updDownload ?h (\<lambda>d. d\<lparr>headers := Some resp\<rparr>) m"
  let ?m2 = "updJob r (\<lambda>j. j\<lparr>offset := 0\<rparr>) ?m1"
  let ?m3 = "(if lengthOf resp \<noteq> size_j (jobs ?m2 r)
              then updJob r (\<lambda>j. j\<lparr>confirmedSize := lengthOf resp,
                                     size_j := lengthOf resp\<rparr>) ?m2
              else ?m2)"
  have j3: "jobs ?m3 = (jobs m)(r :=
                (if lengthOf resp \<noteq> size_j (jobs m r)
                 then (jobs m r)\<lparr>offset := 0, confirmedSize := lengthOf resp,
                                  size_j := lengthOf resp\<rparr>
                 else (jobs m r)\<lparr>offset := 0\<rparr>))"
    by (auto simp: updJob_def updDownload_def)
  have "\<exists>m'. handleResponse resolve w resp jobUrl m = Some m' \<and> jobs m' = jobs ?m3"
  proof (cases cb')
    case (UpdateDownload fallback)
    show ?thesis
      using ok nr cb' UpdateDownload
      unfolding handleResponse_def Let_def r [symmetric] lengthOf_def [symmetric]
      by (auto simp: updDownload_def updJob_def intro!: updateDownload_unchunkable')
  next
    case UpdateDownloadSize
    show ?thesis
      using ok nr cb' UpdateDownloadSize
      unfolding handleResponse_def Let_def r [symmetric] lengthOf_def [symmetric]
      by (simp add: updDownload_def updJob_def updateDownloadSize_jobs)
  qed
  then show ?thesis unfolding j3 by auto
qed

text \<open>
  The resumed chunk at 30 MiB gets a plain 200 of 1000 bytes: it now writes from 0 and
  expects 1000 bytes.
\<close>

theorem handleResponse_unchunkable_witness:
  "\<exists>m'. handleResponse (\<lambda>b l. l) 0 example_200 ''https://host/mod.zip'' example_resumed = Some m'
        \<and> offset (jobs m' 0) = 0 \<and> size_j (jobs m' 0) = 1000
        \<and> offset (jobs example_resumed 0) = 31457280"
proof -
  have r: "0 = mJob (workers example_resumed 0)"
    by (simp add: example_resumed_def example_manager_def example_worker_def)
  have ok: "statusCode example_200 < 300" "\<not> isHTMLHeader example_200"
    "contentRange example_200 = None" "lengthOf example_200 = 1000"
    by (simp_all add: example_200_def isHTMLHeader_def startsWith_def lengthOf_def)
  have cb: "responseCB (jobs example_resumed 0) \<noteq> None"
    "offset (jobs example_resumed 0) = 31457280"
    by (simp_all add: example_resumed_def example_manager_def toJob_def)
  from handleResponse_unchunkable [OF r ok(1-3) cb(1), of "\<lambda>b l. l" "''https://host/mod.zip''"]
  show ?thesis
    unfolding ok(4) using cb(2) by blast
qed

text \<open>
  C10, as stated, fails: the additional chunks have no response callback, and a
  response without Content-Range leaves such a job at its offset.
\<close>

theorem handleResponse_unchunkable_no_callback:
  "handleResponse (\<lambda>b l. l) 0 example_200 ''https://host/mod.zip'' example_second
     = Some (updDownload 0 (\<lambda>d. d\<lparr>headers := Some example_200\<rparr>) example_second)
   \<and> offset (jobs (updDownload 0 (\<lambda>d. d\<lparr>headers := Some example_200\<rparr>) example_second) 0)
       = 20971521"
  by (simp add: handleResponse_def Let_def example_200_def example_second_def
      example_manager_def example_worker_def isHTMLHeader_def startsWith_def newChunk_def
      updDownload_def)

lemma handleResponse_redirect:
  assumes "isRedirect resp" "mRedirectsFollowed (workers m w) < 2"
  shows "handleResponse resolve w resp jobUrl m
           = Some (emit [Later (T_redirect w (resolve jobUrl (location resp)))]
                    (updWorker w (\<lambda>k. k\<lparr>mRedirected := True\<rparr>)
                      (updJob (mJob (workers m w))
                         (\<lambda>j. j\<lparr>url := Redirected (resolve jobUrl (location resp))\<rparr>) m)))"
  using assms
  by (auto simp: handleResponse_def Let_def isRedirect_def MAX_REDIRECT_FOLLOW_def)

lemma handleResponse_http_error:
  assumes "300 \<le> statusCode resp" "\<not> (isRedirect resp \<and> mRedirectsFollowed (workers m w) < 2)"
  shows "handleResponse resolve w resp jobUrl m
           = Some (handleError w (HTTPError (statusCode resp) (statusMessage resp) jobUrl) m)"
  using assms
  by (auto simp: handleResponse_def Let_def isRedirect_def MAX_REDIRECT_FOLLOW_def)

text \<open>
  What the timer of a redirect does to the job when bytes remain to be fetched: the
  bytes received go back into the size, and every other counter is set to zero.
\<close>

lemma redirect_timer_job:
  assumes "r = mJob (workers m w)" "0 < size_j (jobs m r) + received_j (jobs m r)"
  shows "redirect_timer w newUrl m
           = emit [Later (T_startDownload w newUrl)]
               (updWorker w (\<lambda>k. k\<lparr>mRedirectsFollowed := mRedirectsFollowed k + 1,
                                    mRedirected := False, mEnded := False,
                                    mDataHistory := []\<rparr>)
                 (updJob r (\<lambda>j. j\<lparr>size_j := size_j j + received_j j,
                                    confirmedSize := size_j j + received_j j,
                                    received_j := 0, offset := 0, confirmedReceived := 0,
                                    confirmedOffset := 0, state := Running\<rparr>) m))"
  using assms
  by (simp add: redirect_timer_def Let_def assignJob_def updWorker_def updJob_def emit_def)

text \<open>
  C3. The worker of the second chunk of a download, which starts at 20 MiB + 1 and has
  received nothing, gets a 302: the location is resolved, the job's URL rebound and the
  timer set; when the timer runs, the redirect counter is 1 and the new request is on
  its way, but the job's offset is 0, not the 20 MiB + 1 it had before the request, and
  the request that follows asks for the bytes from 0 on.
\<close>

theorem redirect_resets_offset_to_zero:
  "handleResponse (\<lambda>b l. l) 0 example_302 ''https://host/mod.zip'' example_second
     = Some (emit [Later (T_redirect 0 ''https://mirror/mod.zip'')]
              (updWorker 0 (\<lambda>k. k\<lparr>mRedirected := True\<rparr>)
                (updJob 0 (\<lambda>j. j\<lparr>url := Redirected ''https://mirror/mod.zip''\<rparr>)
                   example_second)))
   \<and> offset (jobs example_second 0) = 20971521
   \<and> received_j (jobs example_second 0) = 0
   \<and> offset (jobs (redirect_timer 0 ''https://mirror/mod.zip''
         (emit [Later (T_redirect 0 ''https://mirror/mod.zip'')]
              (updWorker 0 (\<lambda>k. k\<lparr>mRedirected := True\<rparr>)
                (updJob 0 (\<lambda>j. j\<lparr>url := Redirected ''https://mirror/mod.zip''\<rparr>)
                   example_second)))) 0) = 0
   \<and> effects (startDownload 0 ''https://mirror/mod.zip'' None
        (redirect_timer 0 ''https://mirror/mod.zip''
         (emit [Later (T_redirect 0 ''https://mirror/mod.zip'')]
              (updWorker 0 (\<lambda>k. k\<lparr>mRedirected := True\<rparr>)
                (updJob 0 (\<lambda>j. j\<lparr>url := Redirected ''https://mirror/mod.zip''\<rparr>)
                   example_second)))))
      = [Later (T_redirect 0 ''https://mirror/mod.zip''),
         Later (T_startDownload 0 ''https://mirror/mod.zip''),
         HttpGet 0 ''https://mirror/mod.zip'' 0 20971520]"
proof -
  let ?m1 = "emit [Later (T_redirect 0 ''https://mirror/mod.zip'')]
              (updWorker 0 (\<lambda>k. k\<lparr>mRedirected := True\<rparr>)
                (updJob 0 (\<lambda>j. j\<lparr>url := Redirected ''https://mirror/mod.zip''\<rparr>)
                   example_second))"
  have w: "mJob (workers example_second 0) = 0" "mRedirectsFollowed (workers example_second 0) < 2"
    "effects example_second = []"
    by (simp_all add: example_second_def example_manager_def example_worker_def)
  have j: "offset (jobs example_second 0) = 20971521" "received_j (jobs example_second 0) = 0"
    "size_j (jobs example_second 0) = 20971520"
    by (simp_all add: example_second_def example_manager_def newChunk_def)
  have rd: "isRedirect example_302" "location example_302 = ''https://mirror/mod.zip''"
    by (simp_all add: isRedirect_def example_302_def)
  have 1: "handleResponse (\<lambda>b l. l) 0 example_302 ''https://host/mod.zip'' example_second
             = Some ?m1"
    using handleResponse_redirect [OF rd(1) w(2), of "\<lambda>b l. l" "''https://host/mod.zip''"]
    by (simp add: rd(2) w(1))
  have m1: "mJob (workers ?m1 0) = 0" "size_j (jobs ?m1 0) = 20971520"
    "received_j (jobs ?m1 0) = 0" "effects ?m1 = [Later (T_redirect 0 ''https://mirror/mod.zip'')]"
    by (simp_all add: emit_def updWorker_def updJob_def w j)
  have pos: "0 < size_j (jobs ?m1 0) + received_j (jobs ?m1 0)"
    unfolding m1 by simp
  note t = redirect_timer_job [OF m1(1) [symmetric] pos, of "''https://mirror/mod.zip''"]
  have 2: "offset (jobs (redirect_timer 0 ''https://mirror/mod.zip'' ?m1) 0) = 0"
    unfolding t by (simp add: emit_def updWorker_def updJob_def)
  have 3: "effects (startDownload 0 ''https://mirror/mod.zip'' None
             (redirect_timer 0 ''https://mirror/mod.zip'' ?m1))
      = [Later (T_redirect 0 ''https://mirror/mod.zip''),
         Later (T_startDownload 0 ''https://mirror/mod.zip''),
         HttpGet 0 ''https://mirror/mod.zip'' 0 20971520]"
    unfolding t startDownload_def Let_def
    by (simp add: emit_def updWorker_def updJob_def w j)
  from 1 j 2 3 show ?thesis by simp
qed

subsection \<open>Errors of a worker\<close>

lemma ending_live: "mEnded (workers (ending w m) w)"
  by (simp add: ending_def updWorker_def)

lemma fold_invariant:
  assumes "\<And>x s. P s \<Longrightarrow> P (f x s)" and "P s"
  shows "P (fold f xs s)"
  using assms(2) by (induction xs arbitrary: s) (simp_all add: assms(1))

lemma ending_history: "mDataHistory (workers (ending w m) w') = mDataHistory (workers m w')"
  by (simp add: ending_def updWorker_def requestAbort_def emit_def)

lemma cancel_frame:
  "mJob (workers (cancel v m) w) = mJob (workers m w)"
  "mDownload (workers (cancel v m) w) = mDownload (workers m w)"
  "mDataHistory (workers (cancel v m) w) = mDataHistory (workers m w)"
  "mEnded (workers m w) \<Longrightarrow> mEnded (workers (cancel v m) w)"
  "mEnded (workers (cancel v m) v)"
proof -
  show "mJob (workers (cancel v m) w) = mJob (workers m w)"
    by (cases "mEnded (workers m v)")
      (simp_all add: cancel_def abort_ended abort_live finishChunk_frame(1) ending_frame)
  show "mDownload (workers (cancel v m) w) = mDownload (workers m w)"
    by (cases "mEnded (workers m v)")
      (simp_all add: cancel_def abort_ended abort_live finishChunk_frame(1) ending_frame)
  show "mDataHistory (workers (cancel v m) w) = mDataHistory (workers m w)"
    by (cases "mEnded (workers m v)")
      (simp_all add: cancel_def abort_ended abort_live finishChunk_frame(1) ending_history)
  show "mEnded (workers (cancel v m) w)" if "mEnded (workers m w)"
    using that
    by (cases "mEnded (workers m v)"; cases "w = v")
      (simp_all add: cancel_def abort_ended abort_live finishChunk_frame(1) ending_frame)
  show "mEnded (workers (cancel v m) v)"
    by (cases "mEnded (workers m v)")
      (simp_all add: cancel_def abort_ended abort_live finishChunk_frame(1) ending_frame)
qed

text \<open>
  The loop of \<open>cancelDownload\<close> leaves a worker's job, download and history as they
  are, and an ended worker ended.
\<close>

lemma cancelDownload_frame:
  "mJob (workers (cancelDownload h e m) w) = mJob (workers m w)"
  "mDownload (workers (cancelDownload h e m) w) = mDownload (workers m w)"
  "mDataHistory (workers (cancelDownload h e m) w) = mDataHistory (workers m w)"
  "mEnded (workers m w) \<Longrightarrow> mEnded (workers (cancelDownload h e m) w)"
proof -
  let ?step = "\<lambda>c m'. if state (jobs m' c) = Running then
                  updJob c (\<lambda>j. j\<lparr>state := Paused\<rparr>)
                    (case workerId (jobs m' c) of
                       Some w \<Rightarrow> (if w \<in> set (mBusyWorkers m') then cancel w m' else m')
                     | None \<Rightarrow> m')
                else m'"
  have step: "mJob (workers (?step c s) w) = mJob (workers s w)
            \<and> mDownload (workers (?step c s) w) = mDownload (workers s w)
            \<and> mDataHistory (workers (?step c s) w) = mDataHistory (workers s w)
            \<and> (mEnded (workers s w) \<longrightarrow> mEnded (workers (?step c s) w))" for c s
    by (simp add: updJob_def cancel_frame split: option.splits)
  have inv: "mJob (workers (fold ?step cs m) w) = mJob (workers m w)
            \<and> mDownload (workers (fold ?step cs m) w) = mDownload (workers m w)
            \<and> mDataHistory (workers (fold ?step cs m) w) = mDataHistory (workers m w)
            \<and> (mEnded (workers m w) \<longrightarrow> mEnded (workers (fold ?step cs m) w))" for cs
    by (rule fold_invariant [where P = "\<lambda>s. mJob (workers s w) = mJob (workers m w)
            \<and> mDownload (workers s w) = mDownload (workers m w)
            \<and> mDataHistory (workers s w) = mDataHistory (workers m w)
            \<and> (mEnded (workers m w) \<longrightarrow> mEnded (workers s w))"])
      (use step in auto)
  show "mJob (workers (cancelDownload h e m) w) = mJob (workers m w)"
    "mDownload (workers (cancelDownload h e m) w) = mDownload (workers m w)"
    "mDataHistory (workers (cancelDownload h e m) w) = mDataHistory (workers m w)"
    "mEnded (workers m w) \<Longrightarrow> mEnded (workers (cancelDownload h e m) w)"
    using inv [of "chunks (downloads m h)"] by (simp_all add: cancelDownload_def emit_def)
qed

lemma cancelDownload_reports: "\<exists>es. effects (cancelDownload h e m) = es @ [FailedCB h e]"
  by (simp add: cancelDownload_def emit_def)

text \<open>The registered worker of a download's running first chunk is ended by the loop.\<close>

lemma cancelDownload_first:
  assumes "chunks (downloads m h) = r # rest" and "state (jobs m r) = Running"
    and "workerId (jobs m r) = Some w" and "w \<in> set (mBusyWorkers m)"
  shows "mEnded (workers (cancelDownload h e m) w)"
proof -
  let ?step = "\<lambda>c m'. if state (jobs m' c) = Running then
                  updJob c (\<lambda>j. j\<lparr>state := Paused\<rparr>)
                    (case workerId (jobs m' c) of
                       Some w \<Rightarrow> (if w \<in> set (mBusyWorkers m') then cancel w m' else m')
                     | None \<Rightarrow> m')
                else m'"
  have step: "mEnded (workers s w) \<Longrightarrow> mEnded (workers (?step c s) w)" for c s
    by (simp add: updJob_def cancel_frame split: option.splits)
  have first: "mEnded (workers (?step r m) w)"
    using assms by (simp add: updJob_def cancel_frame)
  have "mEnded (workers (fold ?step rest (?step r m)) w)"
    by (rule fold_invariant [where P = "\<lambda>s. mEnded (workers s w)"]) (use step first in auto)
  then show ?thesis
    using assms(1) by (simp add: cancelDownload_def emit_def)
qed

text \<open>
  C6, as amended. An error on a worker that has ended changes nothing. On a worker that
  has not ended, the error callback of the job, where it has one (the first chunk of a
  download: \<open>cancelDownload\<close>), runs first and reports the error through the failure
  callback; then the request is aborted. An error with the code \<open>ESOCKETTIMEDOUT\<close> or
  \<open>ECONNRESET\<close>, after at least one buffer of this attempt, on a worker that the callback
  has not ended, leaves the resolution of the URL followed by \<open>assignJob\<close> for later,
  the worker not ended; without a callback the job and its counters are as they were,
  and that \<open>assignJob\<close> issues the next request for a job with bytes remaining. Every
  other error ends the worker and calls the finish callback with \<open>false\<close>. Where the
  worker is the one registered in the table of busy workers for the running first chunk
  of its download, the callback ends it: the error is not retried, whatever its code.
\<close>

theorem handleError_retry:
  assumes r: "r = mJob (workers m w)" and h: "h = mDownload (workers m w)"
    and aborted: "aborted = (if mRequest (workers m w) \<noteq> None then requestAbort w m else m)"
    and retriable: "retriable
        = (err_code e \<in> {Some ''ESOCKETTIMEDOUT'', Some ''ECONNRESET''}
           \<and> mDataHistory (workers m w) \<noteq> [])"
    and called: "called = cancelDownload h e m"
  shows "(\<not> mEnded (workers m w) \<and> \<not> errorCB (jobs m r) \<and> retriable \<longrightarrow>
            handleError w e m = emit [Later (T_assignJob w)] aborted
          \<and> jobs (handleError w e m) = jobs m
          \<and> \<not> mEnded (workers (handleError w e m) w)
          \<and> (0 < size_j (jobs m r) \<longrightarrow>
               assignJob w (Some u) (handleError w e m)
                 = emit [Later (T_startDownload w u)]
                     (updWorker w (\<lambda>k. k\<lparr>mDataHistory := []\<rparr>) (handleError w e m))))
       \<and> (\<not> mEnded (workers m w) \<and> \<not> errorCB (jobs m r) \<and> \<not> retriable \<longrightarrow>
            handleError w e m = finishChunk h r False (ending w m)
          \<and> mEnded (workers (handleError w e m) w))
       \<and> (mEnded (workers m w) \<longrightarrow> handleError w e m = m)
       \<and> (\<not> mEnded (workers m w) \<and> errorCB (jobs m r) \<longrightarrow>
            (\<exists>es. effects called = es @ [FailedCB h e])
          \<and> handleError w e m
              = (if retriable \<and> \<not> mEnded (workers called w)
                 then emit [Later (T_assignJob w)]
                        (if mRequest (workers called w) \<noteq> None then requestAbort w called
                         else called)
                 else finishChunk h r False (ending w called))
          \<and> mEnded (workers (handleError w e m) w)
              = (\<not> retriable \<or> mEnded (workers called w))
          \<and> (chunks (downloads m h) = r # rest \<and> state (jobs m r) = Running
               \<and> workerId (jobs m r) = Some w \<and> w \<in> set (mBusyWorkers m) \<longrightarrow>
               mEnded (workers called w)
             \<and> handleError w e m = finishChunk h r False (ending w called)))"
proof (intro conjI impI)
  assume a: "\<not> mEnded (workers m w) \<and> \<not> errorCB (jobs m r) \<and> retriable"
  then show 1: "handleError w e m = emit [Later (T_assignJob w)] aborted"
    unfolding r retriable aborted
    by (auto simp: handleError_def Let_def requestAbort_def updWorker_def emit_def)
  show 2: "jobs (handleError w e m) = jobs m"
    unfolding 1 aborted by (simp add: emit_def requestAbort_def updWorker_def)
  show 3: "\<not> mEnded (workers (handleError w e m) w)"
    using a unfolding 1 aborted by (simp add: emit_def requestAbort_def updWorker_def)
  show "assignJob w (Some u) (handleError w e m)
                 = emit [Later (T_startDownload w u)]
                     (updWorker w (\<lambda>k. k\<lparr>mDataHistory := []\<rparr>) (handleError w e m))"
    if "0 < size_j (jobs m r)"
  proof -
    have "mJob (workers (handleError w e m) w) = r"
      unfolding 1 aborted r by (simp add: emit_def requestAbort_def updWorker_def)
    then show ?thesis
      using that 2 by (simp add: assignJob_def Let_def updWorker_def)
  qed
next
  assume a: "\<not> mEnded (workers m w) \<and> \<not> errorCB (jobs m r) \<and> \<not> retriable"
  then show 1: "handleError w e m = finishChunk h r False (ending w m)"
    unfolding r h retriable
    by (auto simp: handleError_def Let_def mFinishCB_def ending_def requestAbort_def
        updWorker_def emit_def)
  show "mEnded (workers (handleError w e m) w)"
    unfolding 1 by (simp add: finishChunk_frame(1) ending_live)
next
  assume "mEnded (workers m w)"
  then show "handleError w e m = m" by (simp add: handleError_def)
next
  assume a: "\<not> mEnded (workers m w) \<and> errorCB (jobs m r)"
  show "\<exists>es. effects called = es @ [FailedCB h e]"
    unfolding called by (rule cancelDownload_reports)
  let ?m2 = "if mRequest (workers called w) \<noteq> None then requestAbort w called else called"
  have w2: "mEnded (workers ?m2 w) = mEnded (workers called w)"
    "mDataHistory (workers ?m2 w) = mDataHistory (workers m w)"
    "mJob (workers ?m2 w) = r" "mDownload (workers ?m2 w) = h"
    unfolding called r h
    by (simp_all add: requestAbort_def updWorker_def emit_def cancelDownload_frame)
  have fin: "mFinishCB w False (updWorker w (\<lambda>k. k\<lparr>mEnded := True\<rparr>) ?m2)
               = finishChunk h r False (ending w called)"
    using w2(3,4)
    by (simp add: mFinishCB_def ending_def updWorker_def requestAbort_def emit_def)
  show 4: "handleError w e m
              = (if retriable \<and> \<not> mEnded (workers called w)
                 then emit [Later (T_assignJob w)] ?m2
                 else finishChunk h r False (ending w called))"
  proof -
    have "handleError w e m
            = (if err_code e \<in> {Some ''ESOCKETTIMEDOUT'', Some ''ECONNRESET''}
                  \<and> \<not> mEnded (workers ?m2 w) \<and> length (mDataHistory (workers ?m2 w)) > 0
               then emit [Later (T_assignJob w)] ?m2
               else mFinishCB w False (updWorker w (\<lambda>k. k\<lparr>mEnded := True\<rparr>) ?m2))"
      using a unfolding called r h by (simp add: handleError_def Let_def)
    then show ?thesis
      unfolding fin w2 retriable by auto
  qed
  show 5: "mEnded (workers (handleError w e m) w) = (\<not> retriable \<or> mEnded (workers called w))"
    unfolding 4 using w2(1)
    by (simp add: emit_def finishChunk_frame(1) ending_live)
  show "mEnded (workers called w)"
    if "chunks (downloads m h) = r # rest \<and> state (jobs m r) = Running
               \<and> workerId (jobs m r) = Some w \<and> w \<in> set (mBusyWorkers m)"
    unfolding called using that by (intro cancelDownload_first) auto
  then show "handleError w e m = finishChunk h r False (ending w called)"
    if "chunks (downloads m h) = r # rest \<and> state (jobs m r) = Running
               \<and> workerId (jobs m r) = Some w \<and> w \<in> set (mBusyWorkers m)"
    unfolding 4 using that by simp
qed

text \<open>
  The worker of a second chunk that has received a buffer retries after a connection
  reset and ends after a failed name lookup. The registered worker of a first chunk is
  ended by its error callback on a connection reset; taken out of the table it is not,
  and the reset is retried.
\<close>

theorem handleError_retry_witness:
  "handleError 0 (SysError ''ECONNRESET'') example_second_receiving
     = emit [Later (T_assignJob 0)] (requestAbort 0 example_second_receiving)
   \<and> \<not> mEnded (workers (handleError 0 (SysError ''ECONNRESET'') example_second_receiving) 0)
   \<and> mEnded (workers (handleError 0 (SysError ''ENOTFOUND'') example_second_receiving) 0)
   \<and> mEnded (workers (handleError 0 (SysError ''ECONNRESET'') example_receiving) 0)
   \<and> \<not> mEnded (workers (handleError 0 (SysError ''ECONNRESET'')
                            (example_receiving\<lparr>mBusyWorkers := []\<rparr>)) 0)"
proof -
  have w: "\<not> mEnded (workers example_second_receiving 0)"
    "mRequest (workers example_second_receiving 0) \<noteq> None"
    "mDataHistory (workers example_second_receiving 0) \<noteq> []"
    "mJob (workers example_second_receiving 0) = 0"
    by (simp_all add: example_second_receiving_def example_second_def example_manager_def
        example_worker_def updWorker_def)
  have j: "\<not> errorCB (jobs example_second_receiving 0)"
    by (simp add: example_second_receiving_def example_second_def example_manager_def
        newChunk_def updWorker_def)
  note a = handleError_retry [OF w(4) [symmetric] refl refl refl refl,
      where e = "SysError ''ECONNRESET''" and u = "[]" and rest = "[]"]
  note b = handleError_retry [OF w(4) [symmetric] refl refl refl refl,
      where e = "SysError ''ENOTFOUND''" and u = "[]" and rest = "[]"]
  have c: "err_code (SysError ''ECONNRESET'') \<in> {Some ''ESOCKETTIMEDOUT'', Some ''ECONNRESET''}"
    "err_code (SysError ''ENOTFOUND'') \<notin> {Some ''ESOCKETTIMEDOUT'', Some ''ECONNRESET''}"
    by simp_all
  have eq: "(if mRequest (workers example_second_receiving 0) \<noteq> None
             then requestAbort 0 example_second_receiving else example_second_receiving)
            = requestAbort 0 example_second_receiving"
    using w(2) by simp
  from a [unfolded eq] w j c(1) have 1: "handleError 0 (SysError ''ECONNRESET'') example_second_receiving
     = emit [Later (T_assignJob 0)] (requestAbort 0 example_second_receiving)
   \<and> \<not> mEnded (workers (handleError 0 (SysError ''ECONNRESET'') example_second_receiving) 0)"
    by blast
  from b w j c(2)
  have 2: "mEnded (workers (handleError 0 (SysError ''ENOTFOUND'') example_second_receiving) 0)"
    by blast
  have f: "\<not> mEnded (workers example_receiving 0)" "errorCB (jobs example_receiving 0)"
    "mJob (workers example_receiving 0) = 0" "mDownload (workers example_receiving 0) = 0"
    "chunks (downloads example_receiving 0) = [0]" "state (jobs example_receiving 0) = Running"
    "workerId (jobs example_receiving 0) = Some 0" "0 \<in> set (mBusyWorkers example_receiving)"
    "mDataHistory (workers example_receiving 0) \<noteq> []"
    by (simp_all add: example_receiving_def example_manager_def example_worker_def
        example_job_def example_download_def initChunk_def updWorker_def)
  note d = handleError_retry [OF f(3) [symmetric] refl refl refl refl,
      where e = "SysError ''ECONNRESET''" and u = "[]" and rest = "[]"]
  note d' = d [unfolded f(4)]
  from d' f have "mEnded (workers (cancelDownload 0 (SysError ''ECONNRESET'')
                                   example_receiving) 0)"
    by blast
  with d' f have 3: "mEnded (workers (handleError 0 (SysError ''ECONNRESET'') example_receiving) 0)"
    by blast
  let ?x = "example_receiving\<lparr>mBusyWorkers := []\<rparr>"
  have g: "\<not> mEnded (workers ?x 0)" "errorCB (jobs ?x 0)"
    "mJob (workers ?x 0) = 0" "mDownload (workers ?x 0) = 0"
    "mDataHistory (workers ?x 0) \<noteq> []"
    using f by simp_all
  have live: "\<not> mEnded (workers (cancelDownload 0 (SysError ''ECONNRESET'') ?x) 0)"
    by code_simp
  note x = handleError_retry [OF g(3) [symmetric] refl refl refl refl,
      where e = "SysError ''ECONNRESET''" and u = "[]" and rest = "[]"]
  from x [unfolded g(4)] g c(1) live
  have 4: "\<not> mEnded (workers (handleError 0 (SysError ''ECONNRESET'') ?x) 0)"
    by blast
  from 1 2 3 4 show ?thesis by (intro conjI) blast+
qed

text \<open>
  C6, as stated, fails for the first chunk of a download: its error callback cancels
  the download, which ends the worker, so that after a connection reset with a buffer
  received nothing is retried; the finish callback has run, twice.
\<close>

theorem handleError_first_chunk_not_retried:
  "mDataHistory (workers example_receiving 0) = [1000]
   \<and> \<not> mEnded (workers example_receiving 0)
   \<and> mEnded (workers (handleError 0 (SysError ''ECONNRESET'') example_receiving) 0)
   \<and> effects (handleError 0 (SysError ''ECONNRESET'') example_receiving)
       = [RequestAbort 0, StopCounter (Some 0), AssemblerClose 0,
          Later (T_finish 0 ''/downloads/mod.zip''),
          FailedCB 0 (SysError ''ECONNRESET''), RequestAbort 0,
          StopCounter (Some 0), AssemblerClose 0,
          Later (T_finish 0 ''/downloads/mod.zip'')]"
  by code_simp

subsection \<open>A worker that has ended\<close>

lemma handleData_buffers:
  assumes "\<not> mEnded (workers m w)"
    and "state (jobs m (mJob (workers m w))) \<notin> {Paused, Finished}"
    and "\<not> mRedirected (workers m w)"
    and "bufferLength (workers m w) + length buf < BUFFER_SIZE"
  shows "handleData w buf starving now m
           = updWorker w (\<lambda>k. k\<lparr>mDataHistory := mDataHistory k @ [length buf],
                                  mBuffers := mBuffers k @ [buf]\<rparr>) m"
  using assms by (simp add: handleData_def Let_def bufferLength_def updWorker_def)

text \<open>
  C8, as amended. While the ended flag of a worker is set, \<open>abort\<close> returns false and
  changes nothing, \<open>handleError\<close> and \<open>handleComplete\<close> change nothing (no error is
  reported, no finish callback runs), and \<open>handleData\<close> drops the buffer: it only
  aborts the request once more, no job, download or buffer list changes and the flag
  stays set. \<open>abort\<close> on a worker that has not ended sets the flag and calls the finish
  callback. The flag does not stay set for good: the timer of a redirect clears it when
  it re-issues the request.
\<close>

theorem ended_worker_drops:
  assumes r: "r = mJob (workers m w)" and h: "h = mDownload (workers m w)"
    and d: "m' = handleData w buf starving now m"
  shows "(mEnded (workers m w) \<longrightarrow>
            abort w paused m = (False, m) \<and> handleError w e m = m \<and> handleComplete w m = m
          \<and> m' = (if mRequest (workers m w) = None then emit [Throw (TypeError ''abort'')] m
                  else requestAbort w m)
          \<and> jobs m' = jobs m \<and> downloads m' = downloads m
          \<and> mBuffers (workers m' w) = mBuffers (workers m w)
          \<and> mEnded (workers m' w))
       \<and> (\<not> mEnded (workers m w) \<longrightarrow>
            abort w paused m = (True, finishChunk h r paused (ending w m))
          \<and> mEnded (workers (snd (abort w paused m)) w))
       \<and> (0 < size_j (jobs m r) + received_j (jobs m r) \<longrightarrow>
            \<not> mEnded (workers (redirect_timer w newUrl m) w))"
proof (intro conjI impI)
  assume e: "mEnded (workers m w)"
  show "abort w paused m = (False, m)" using e by (rule abort_ended)
  show "handleError w e m = m" using e by (simp add: handleError_def)
  show "handleComplete w m = m" using e by (simp add: handleComplete_def)
  show 1: "m' = (if mRequest (workers m w) = None then emit [Throw (TypeError ''abort'')] m
                  else requestAbort w m)"
    unfolding d using e by (simp add: handleData_def)
  show "jobs m' = jobs m" unfolding 1 by (simp add: emit_def requestAbort_def updWorker_def)
  show "downloads m' = downloads m"
    unfolding 1 by (simp add: emit_def requestAbort_def updWorker_def)
  show "mBuffers (workers m' w) = mBuffers (workers m w)"
    unfolding 1 by (simp add: emit_def requestAbort_def updWorker_def)
  show "mEnded (workers m' w)"
    unfolding 1 using e by (simp add: emit_def requestAbort_def updWorker_def)
next
  assume n: "\<not> mEnded (workers m w)"
  show 2: "abort w paused m = (True, finishChunk h r paused (ending w m))"
    unfolding r h using n by (rule abort_live)
  show "mEnded (workers (snd (abort w paused m)) w)"
    unfolding 2 by (simp add: finishChunk_frame(1) ending_live)
next
  assume "0 < size_j (jobs m r) + received_j (jobs m r)"
  from redirect_timer_job [OF r this, of newUrl]
  show "\<not> mEnded (workers (redirect_timer w newUrl m) w)"
    by (simp add: emit_def updWorker_def updJob_def)
qed

text \<open>
  The paused worker of the run ignores a late error and a late buffer; the live worker
  of the example is ended by \<open>abort\<close>; the timer of the redirect clears the flag of the
  paused worker.
\<close>

theorem ended_worker_drops_witness:
  "handleError 0 (SysError ''ECONNRESET'') run_paused = run_paused
   \<and> jobs (handleData 0 ''hello'' None 0 run_paused) = jobs run_paused
   \<and> mBuffers (workers (handleData 0 ''hello'' None 0 run_paused) 0) = []
   \<and> mEnded (workers (snd (abort 0 False example_manager)) 0)
   \<and> \<not> mEnded (workers (redirect_timer 0 ''https://mirror/mod.zip'' run_paused) 0)"
proof -
  have p: "mEnded (workers run_paused 0)" "mBuffers (workers run_paused 0) = []"
    "0 = mJob (workers run_paused 0)"
    "0 < size_j (jobs run_paused 0) + received_j (jobs run_paused 0)"
    by code_simp+
  have x: "\<not> mEnded (workers example_manager 0)" "0 = mJob (workers example_manager 0)"
    by code_simp+
  note a = ended_worker_drops [OF p(3) refl refl, where e = "SysError ''ECONNRESET''"
      and buf = "''hello''" and starving = None and now = 0 and paused = False
      and newUrl = "''https://mirror/mod.zip''"]
  note b = ended_worker_drops [OF x(2) refl refl, where e = "SysError ''ECONNRESET''"
      and buf = "''hello''" and starving = None and now = 0 and paused = False
      and newUrl = "''https://mirror/mod.zip''"]
  from a p(1) have 1: "handleError 0 (SysError ''ECONNRESET'') run_paused = run_paused"
    by blast
  from a p(1) have 2: "jobs (handleData 0 ''hello'' None 0 run_paused) = jobs run_paused"
    by blast
  from a p(1) have "mBuffers (workers (handleData 0 ''hello'' None 0 run_paused) 0)
                      = mBuffers (workers run_paused 0)"
    by blast
  then have 3: "mBuffers (workers (handleData 0 ''hello'' None 0 run_paused) 0) = []"
    unfolding p(2) .
  from b x(1) have 4: "mEnded (workers (snd (abort 0 False example_manager)) 0)"
    by blast
  from a p(4)
  have 5: "\<not> mEnded (workers (redirect_timer 0 ''https://mirror/mod.zip'' run_paused) 0)"
    by blast
  from 1 2 3 4 5 show ?thesis by (intro conjI)
qed

text \<open>
  C8, as stated, fails. In the run the pause has ended the worker and its finish
  callback has closed the assembler and left the completion of the download for later;
  the timer of the redirect then clears the flag, and the five bytes that arrive on the
  new request are not dropped: they are handed to the data callback at the end of the
  stream and the job's counters move by five.
\<close>

theorem ended_worker_revived_by_redirect:
  "mEnded (workers run_paused 0)
   \<and> Later (T_finish 0 ''/downloads/mod.zip'') \<in> set (effects run_paused)
   \<and> received_j (jobs run_paused 0) = 0
   \<and> \<not> mEnded (workers run_revived 0)
   \<and> mBuffers (workers (handleData 0 ''hello'' None 0 run_answered) 0) = [''hello'']
   \<and> received_j (jobs run_ended 0) = 5 \<and> offset (jobs run_ended 0) = 5
   \<and> size_j (jobs run_ended 0) = 20971515
   \<and> Later (T_writeRejected 0 (ProcessCanceled ''file already closed''))
        \<in> set (effects run_ended)"
proof -
  have a: "\<not> mEnded (workers run_answered 0)"
    "state (jobs run_answered (mJob (workers run_answered 0))) \<notin> {Paused, Finished}"
    "\<not> mRedirected (workers run_answered 0)"
    "bufferLength (workers run_answered 0) = 0"
    by code_simp+
  have b: "bufferLength (workers run_answered 0) + length ''hello'' < BUFFER_SIZE"
    unfolding a(4) by (simp add: BUFFER_SIZE_def)
  note hd = handleData_buffers [OF a(1) a(2) a(3) b, of None 0]
  have 1: "mEnded (workers run_paused 0)"
    and 2: "Later (T_finish 0 ''/downloads/mod.zip'') \<in> set (effects run_paused)"
    and 3: "received_j (jobs run_paused 0) = 0"
    and 4: "\<not> mEnded (workers run_revived 0)"
    by code_simp+
  have 5: "mBuffers (workers (handleData 0 ''hello'' None 0 run_answered) 0) = [''hello'']"
    unfolding hd by code_simp
  have 6: "received_j (jobs run_ended 0) = 5"
    and 7: "offset (jobs run_ended 0) = 5"
    and 8: "size_j (jobs run_ended 0) = 20971515"
    and 9: "Later (T_writeRejected 0 (ProcessCanceled ''file already closed''))
              \<in> set (effects run_ended)"
    unfolding run_ended_def hd by code_simp+
  from 1 2 3 4 5 6 7 8 9 show ?thesis by (intro conjI)
qed

end
